(* ===== verification/Prelude.thy ===== *)
theory Prelude
  imports Complex_Main "HOL-Library.Word"
begin

text \<open>
  What every component shares: the collections of rewrite rules the proofs and the concrete
  runs use, the machine integers of the Go sources (\<open>int32\<close>, \<open>int64\<close>), and the outcome of a
  Go function, which either returns or panics.
\<close>

section \<open>Collections of rules\<close>

named_theorems f64_eval \<open>evaluation of binary64 arithmetic on literals\<close>
named_theorems run_defs \<open>definitions unfolded to evaluate a concrete run\<close>
named_theorems frame \<open>what an operation leaves unchanged\<close>

section \<open>Machine integers\<close>

type_synonym int32 = "32 word"
type_synonym int64 = "64 word"

text \<open>
  The Go conversions between the integer types: \<open>int64(x)\<close> and \<open>int(x)\<close> of an \<open>int32\<close> sign
  extend (\<open>int\<close> is 64 bits wide on the platforms the controller is built for), \<open>int32(x)\<close> of
  a wider integer keeps the low 32 bits.
\<close>

definition int64_of_int32 :: "int32 \<Rightarrow> int64" where
  "int64_of_int32 x = word_of_int (sint x)"

definition int32_of_int64 :: "int64 \<Rightarrow> int32" where
  "int32_of_int64 x = word_of_int (sint x)"

definition i64 :: "int \<Rightarrow> int64" where
  "i64 n = word_of_int n"

lemma sint32_bounds: "- (2 ^ 31) \<le> sint (x :: int32)" "sint (x :: int32) < 2 ^ 31"
  using sint_ge [of x] sint_lt [of x] by simp_all

lemma sint64_bounds: "- (2 ^ 63) \<le> sint (x :: int64)" "sint (x :: int64) < 2 ^ 63"
  using sint_ge [of x] sint_lt [of x] by simp_all

lemma sint_word_of_int_64:
  assumes "- (2 ^ 63) \<le> n" "n < 2 ^ 63"
  shows "sint (word_of_int n :: int64) = n"
  using assms by (simp add: sint_sbintrunc' signed_take_bit_int_eq_self)

lemma sint_word_of_int_32:
  assumes "- (2 ^ 31) \<le> n" "n < 2 ^ 31"
  shows "sint (word_of_int n :: int32) = n"
  using assms by (simp add: sint_sbintrunc' signed_take_bit_int_eq_self)

lemma sint_int64_of_int32 [simp]: "sint (int64_of_int32 x) = sint x"
  using sint32_bounds [of x] unfolding int64_of_int32_def
  by (intro sint_word_of_int_64) simp_all

lemma int32_of_int64_of_int32 [simp]: "int32_of_int64 (int64_of_int32 x) = x"
  unfolding int32_of_int64_def sint_int64_of_int32 by simp

lemma int64_of_int32_inject [simp]: "int64_of_int32 x = int64_of_int32 y \<longleftrightarrow> x = y"
  by (metis int32_of_int64_of_int32)

lemma sint_i64: "- (2 ^ 63) \<le> n \<Longrightarrow> n < 2 ^ 63 \<Longrightarrow> sint (i64 n) = n"
  unfolding i64_def by (rule sint_word_of_int_64)

lemma sint_plus_64:
  fixes a b :: int64
  assumes "- (2 ^ 63) \<le> sint a + sint b" "sint a + sint b < 2 ^ 63"
  shows "sint (a + b) = sint a + sint b"
proof -
  have "a + b = word_of_int (sint a + sint b)" by simp
  then show ?thesis using assms by (metis sint_word_of_int_64)
qed

lemma sint_minus_64:
  fixes a b :: int64
  assumes "- (2 ^ 63) \<le> sint a - sint b" "sint a - sint b < 2 ^ 63"
  shows "sint (a - b) = sint a - sint b"
proof -
  have "a - b = word_of_int (sint a - sint b)" by simp
  then show ?thesis using assms by (metis sint_word_of_int_64)
qed

lemma sint32_Suc: "sint (x :: int32) < 2 ^ 31 - 1 \<Longrightarrow> sint (x + 1) = sint x + 1"
proof -
  assume x: "sint x < 2 ^ 31 - 1"
  have "x + 1 = word_of_int (sint x + 1)" by (simp add: wi_hom_succ [symmetric] word_succ_p1)
  then show ?thesis using x sint32_bounds [of x] sint_word_of_int_32 [of "sint x + 1"] by simp
qed

section \<open>Outcomes\<close>

text \<open>A call of a Go function returns a value or panics with a runtime error.\<close>

datatype 'a outcome = Ret 'a | Panic string

end
