(* ===== verification/Float64_Real.thy ===== *)
theory Float64_Real
  imports Float64
begin

text \<open>
  The meaning of binary64 over the reals: the value of a finite number (\<open>fval\<close>), rounding of a
  non-negative real (\<open>rpos\<close>), and the theorem \<open>round64_correct\<close> that the integer computation
  of \<open>round64\<close> is that rounding. From it: rounding is monotone, exact on representable
  numbers, and the operations and comparisons act on \<open>fval\<close> as IEEE 754 requires.
\<close>

section \<open>The value of a finite number\<close>

definition pow2 :: "int \<Rightarrow> real" where
  "pow2 e = 2 powr real_of_int e"

definition rsign :: "bool \<Rightarrow> real \<Rightarrow> real" where
  "rsign s x = (if s then - x else x)"

fun fval :: "float64 \<Rightarrow> real" where
  "fval (F64_Fin s m e) = rsign s (real_of_int m * pow2 e)"
| "fval x = 0"

lemma rsign_0 [simp]: "rsign s 0 = 0"
  by (simp add: rsign_def)

lemma signed_int_0 [simp]: "signed_int s 0 = 0"
  by (simp add: signed_int_def)

lemma pow2_pos [simp]: "0 < pow2 e"
  by (simp add: pow2_def)

lemma pow2_nonneg [simp]: "0 \<le> pow2 e"
  by (simp add: pow2_def)

lemma pow2_nonzero [simp]: "pow2 e \<noteq> 0"
  by (simp add: pow2_def)

lemma pow2_not_neg [simp]: "\<not> pow2 e < 0" "\<not> pow2 e \<le> 0"
  by (simp_all add: pow2_def)

lemma pow2_0 [simp]: "pow2 0 = 1"
  by (simp add: pow2_def)

lemma pow2_add: "pow2 (a + b) = pow2 a * pow2 b"
  by (simp add: pow2_def powr_add)

lemma pow2_diff: "pow2 (a - b) = pow2 a / pow2 b"
  by (simp add: pow2_def powr_diff)

lemma pow2_uminus: "pow2 (- a) = 1 / pow2 a"
  by (simp add: pow2_def powr_minus_divide)

lemma pow2_nat: "0 \<le> e \<Longrightarrow> pow2 e = 2 ^ nat e"
  by (simp add: pow2_def powr_realpow [symmetric])

lemma pow2_numeral: "pow2 (numeral n) = 2 ^ numeral n"
  by (simp add: pow2_nat)

lemma pow2_le_iff [simp]: "pow2 a \<le> pow2 b \<longleftrightarrow> a \<le> b"
  by (simp add: pow2_def)

lemma pow2_less_iff [simp]: "pow2 a < pow2 b \<longleftrightarrow> a < b"
  by (simp add: pow2_def)

lemma pow2_scale:
  "real_of_int (m * 2 ^ nat (e - k)) * pow2 k = real_of_int m * pow2 e" if "k \<le> e"
proof -
  have "real_of_int (2 ^ nat (e - k)) = pow2 (e - k)"
    using that by (simp add: pow2_nat)
  then have "real_of_int (m * 2 ^ nat (e - k)) * pow2 k = real_of_int m * (pow2 (e - k) * pow2 k)"
    by simp
  also have "pow2 (e - k) * pow2 k = pow2 e"
    by (simp add: pow2_add [symmetric])
  finally show ?thesis .
qed

section \<open>Rounding to an integer\<close>

definition rnei :: "real \<Rightarrow> int" where
  "rnei x = (let q = \<lfloor>x\<rfloor>; r = x - of_int q
             in if r < 1 / 2 \<or> (r = 1 / 2 \<and> even q) then q else q + 1)"

lemma rnei_bounds: "\<lfloor>x\<rfloor> \<le> rnei x" "rnei x \<le> \<lfloor>x\<rfloor> + 1"
  by (simp_all add: rnei_def Let_def)

lemma rnei_of_int [simp]: "rnei (of_int n) = n"
  by (simp add: rnei_def)

lemma rnei_mono: "x \<le> y \<Longrightarrow> rnei x \<le> rnei y"
proof -
  assume le: "x \<le> y"
  then have "\<lfloor>x\<rfloor> \<le> \<lfloor>y\<rfloor>" by (rule floor_mono)
  show ?thesis
  proof (cases "\<lfloor>x\<rfloor> = \<lfloor>y\<rfloor>")
    case True
    with le show ?thesis by (auto simp: rnei_def Let_def)
  next
    case False
    with \<open>\<lfloor>x\<rfloor> \<le> \<lfloor>y\<rfloor>\<close> rnei_bounds [of x] rnei_bounds [of y] show ?thesis by linarith
  qed
qed

lemma div_rne_rnei:
  assumes "0 < d"
  shows "div_rne n d = rnei (real_of_int n / real_of_int d)"
proof -
  have fl: "\<lfloor>real_of_int n / real_of_int d\<rfloor> = n div d"
    by (rule floor_divide_of_int_eq)
  have r: "real_of_int n / real_of_int d - real_of_int (n div d)
      = real_of_int (n mod d) / real_of_int d"
  proof -
    have "real_of_int n = real_of_int (n div d) * real_of_int d + real_of_int (n mod d)"
      by (metis of_int_add of_int_mult div_mult_mod_eq)
    with assms show ?thesis by (simp add: field_simps)
  qed
  have lt: "real_of_int (n mod d) / real_of_int d < 1 / 2 \<longleftrightarrow> 2 * (n mod d) < d"
  proof -
    have "real_of_int (n mod d) / real_of_int d < 1 / 2
        \<longleftrightarrow> real_of_int (2 * (n mod d)) < real_of_int d"
      using assms by (simp add: field_simps)
    then show ?thesis by (simp only: of_int_less_iff)
  qed
  have eq: "real_of_int (n mod d) / real_of_int d = 1 / 2 \<longleftrightarrow> 2 * (n mod d) = d"
  proof -
    have "real_of_int (n mod d) / real_of_int d = 1 / 2
        \<longleftrightarrow> real_of_int (2 * (n mod d)) = real_of_int d"
      using assms by (auto simp: field_simps)
    then show ?thesis by (simp only: of_int_eq_iff)
  qed
  show ?thesis
    unfolding rnei_def div_rne_def Let_def fl r lt eq ..
qed

section \<open>Rounding a non-negative real\<close>

definition rexp :: "real \<Rightarrow> int" where
  "rexp x = ulp_exp \<lfloor>log 2 x\<rfloor>"

definition rpos :: "real \<Rightarrow> real" where
  "rpos x = (if x \<le> 0 then 0 else of_int (rnei (x / pow2 (rexp x))) * pow2 (rexp x))"

lemma floor_log_bounds:
  assumes "0 < x"
  shows "pow2 \<lfloor>log 2 x\<rfloor> \<le> x" "x < pow2 (\<lfloor>log 2 x\<rfloor> + 1)"
proof -
  have x: "2 powr (log 2 x) = x" using assms by simp
  have "2 powr real_of_int \<lfloor>log 2 x\<rfloor> \<le> 2 powr (log 2 x)"
    by (rule powr_mono) auto
  then show "pow2 \<lfloor>log 2 x\<rfloor> \<le> x" by (simp add: x pow2_def)
  have "2 powr (log 2 x) < 2 powr real_of_int (\<lfloor>log 2 x\<rfloor> + 1)"
    by (rule powr_less_mono) (simp_all add: )
  then show "x < pow2 (\<lfloor>log 2 x\<rfloor> + 1)" unfolding x pow2_def .
qed

lemma floor_log_eqI: "pow2 l \<le> x \<Longrightarrow> x < pow2 (l + 1) \<Longrightarrow> \<lfloor>log 2 x\<rfloor> = l"
proof -
  assume le: "pow2 l \<le> x" and lt: "x < pow2 (l + 1)"
  have x: "0 < x" using le pow2_pos [of l] by linarith
  then have "pow2 l < pow2 (\<lfloor>log 2 x\<rfloor> + 1)" "pow2 \<lfloor>log 2 x\<rfloor> < pow2 (l + 1)"
    using floor_log_bounds [OF x] le lt by linarith+
  then show ?thesis by simp
qed

lemma floor_log_leI: "0 < x \<Longrightarrow> x < pow2 (l + 1) \<Longrightarrow> \<lfloor>log 2 x\<rfloor> \<le> l"
  using floor_log_bounds(1) [of x] pow2_less_iff [of "\<lfloor>log 2 x\<rfloor>" "l + 1"]
  by (auto dest!: le_less_trans)

lemma floor_log_mono: "0 < x \<Longrightarrow> x \<le> y \<Longrightarrow> \<lfloor>log 2 x\<rfloor> \<le> \<lfloor>log 2 y\<rfloor>"
  by (rule floor_mono) simp

lemma rexp_mono: "0 < x \<Longrightarrow> x \<le> y \<Longrightarrow> rexp x \<le> rexp y"
  using floor_log_mono [of x y] by (auto simp: rexp_def ulp_exp_def)

lemma rexp_ge: "- 1074 \<le> rexp x"
  by (simp add: rexp_def ulp_exp_def)

lemma scaled_lt: "0 < x \<Longrightarrow> x / pow2 (rexp x) < 2 ^ 53"
proof -
  assume x: "0 < x"
  have "x < pow2 (\<lfloor>log 2 x\<rfloor> + 1)" by (rule floor_log_bounds(2) [OF x])
  also have "\<dots> \<le> pow2 (rexp x + 53)" by (simp add: rexp_def ulp_exp_def)
  finally show ?thesis by (simp add: pow2_add pow2_numeral field_simps)
qed

lemma rpos_le_pow2: "0 < x \<Longrightarrow> rpos x \<le> pow2 (rexp x + 53)"
proof -
  assume x: "0 < x"
  have "rnei (x / pow2 (rexp x)) \<le> rnei (of_int (2 ^ 53))"
    by (rule rnei_mono) (use scaled_lt [OF x] in simp)
  then have le: "rnei (x / pow2 (rexp x)) \<le> 2 ^ 53" by (simp only: rnei_of_int)
  have "real_of_int (rnei (x / pow2 (rexp x))) \<le> real_of_int (2 ^ 53)"
    using le by (simp only: of_int_le_iff)
  then have "real_of_int (rnei (x / pow2 (rexp x))) \<le> 2 ^ 53" by simp
  then have "real_of_int (rnei (x / pow2 (rexp x))) * pow2 (rexp x) \<le> 2 ^ 53 * pow2 (rexp x)"
    by (rule mult_right_mono) simp
  then show ?thesis using x by (simp add: rpos_def pow2_add pow2_numeral mult.commute)
qed

lemma rpos_ge_pow2:
  assumes "0 < x" "- 1074 < rexp x"
  shows "pow2 (rexp x + 52) \<le> rpos x"
proof -
  have e: "rexp x + 52 = \<lfloor>log 2 x\<rfloor>" using assms(2) by (simp add: rexp_def ulp_exp_def max_def split: if_splits)
  have "pow2 (rexp x + 52) \<le> x" using floor_log_bounds(1) [OF assms(1)] e by simp
  then have "2 ^ 52 \<le> x / pow2 (rexp x)" by (simp add: pow2_add pow2_numeral field_simps)
  then have "rnei (of_int (2 ^ 52)) \<le> rnei (x / pow2 (rexp x))" by (intro rnei_mono) simp
  then have "2 ^ 52 \<le> rnei (x / pow2 (rexp x))" by (simp only: rnei_of_int)
  then have "real_of_int (2 ^ 52) \<le> real_of_int (rnei (x / pow2 (rexp x)))"
    by (simp only: of_int_le_iff)
  then have "2 ^ 52 * pow2 (rexp x) \<le> real_of_int (rnei (x / pow2 (rexp x))) * pow2 (rexp x)"
    by (intro mult_right_mono) simp_all
  then show ?thesis using assms(1) by (simp add: rpos_def pow2_add pow2_numeral mult.commute)
qed

lemma rpos_nonneg: "0 \<le> rpos x"
proof (cases "0 < x")
  case True
  then have "rnei (of_int 0) \<le> rnei (x / pow2 (rexp x))" by (intro rnei_mono) simp
  then have "0 \<le> rnei (x / pow2 (rexp x))" by (simp only: rnei_of_int)
  then show ?thesis by (simp add: rpos_def)
qed (simp add: rpos_def)

lemma rpos_0 [simp]: "rpos 0 = 0"
  by (simp add: rpos_def)

theorem rpos_mono: "x \<le> y \<Longrightarrow> rpos x \<le> rpos y"
proof (cases "0 < x")
  case False
  then show ?thesis using rpos_nonneg [of y] by (simp add: rpos_def [of x])
next
  case True
  assume le: "x \<le> y"
  then have y: "0 < y" using True by simp
  have e: "rexp x \<le> rexp y" by (rule rexp_mono [OF True le])
  show ?thesis
  proof (cases "rexp x = rexp y")
    case eq: True
    have "rnei (x / pow2 (rexp x)) \<le> rnei (y / pow2 (rexp x))"
      using le by (intro rnei_mono divide_right_mono) simp_all
    then show ?thesis using True y eq by (simp add: rpos_def)
  next
    case False
    with e have lt: "rexp x + 53 \<le> rexp y + 52" by simp
    have "rpos x \<le> pow2 (rexp x + 53)" by (rule rpos_le_pow2 [OF True])
    also have "\<dots> \<le> pow2 (rexp y + 52)" using lt by simp
    also have "\<dots> \<le> rpos y"
      using rexp_ge [of x] e False by (intro rpos_ge_pow2 [OF y]) simp
    finally show ?thesis .
  qed
qed

text \<open>Numbers with at most 53 significant bits keep their value.\<close>

theorem rpos_exact:
  assumes "0 \<le> m" "m \<le> 2 ^ 53" "- 1074 \<le> e"
  shows "rpos (real_of_int m * pow2 e) = real_of_int m * pow2 e"
proof (cases "m = 0")
  case False
  let ?x = "real_of_int m * pow2 e"
  have pos: "0 < ?x" using assms(1) False by simp
  have "\<exists>n. ?x = real_of_int n * pow2 (rexp ?x)"
  proof (cases "rexp ?x \<le> e")
    case True
    have "real_of_int m * pow2 e = real_of_int (m * 2 ^ nat (e - rexp ?x)) * pow2 (rexp ?x)"
      by (rule pow2_scale [OF True, symmetric])
    then show ?thesis by blast
  next
    case False
    have m53: "m = 2 ^ 53"
    proof (rule ccontr)
      assume "m \<noteq> 2 ^ 53"
      then have "m < 2 ^ 53" using assms(2) by simp
      then have "real_of_int m < real_of_int (2 ^ 53)" by (simp only: of_int_less_iff)
      then have "real_of_int m < pow2 53" by (simp add: pow2_numeral)
      then have "?x < pow2 53 * pow2 e" by (rule mult_strict_right_mono) simp
      also have "pow2 53 * pow2 e = pow2 (e + 52 + 1)"
        by (simp add: pow2_add [symmetric] algebra_simps)
      finally have "\<lfloor>log 2 ?x\<rfloor> \<le> e + 52" by (intro floor_log_leI pos) 
      then show False using False assms(3) by (simp add: rexp_def ulp_exp_def)
    qed
    have x: "?x = pow2 (e + 53)"
      by (simp add: m53 pow2_add pow2_numeral mult.commute)
    have "\<lfloor>log 2 ?x\<rfloor> = e + 53" unfolding x by (rule floor_log_eqI) simp_all
    then have "rexp ?x = e + 1" using assms(3) by (simp add: rexp_def ulp_exp_def)
    then have "real_of_int (2 ^ 52) * pow2 (rexp ?x) = pow2 (e + 53)"
      by (simp add: pow2_add pow2_numeral) (simp add: pow2_def)
    then show ?thesis using x by metis
  qed
  then obtain n where n: "?x = real_of_int n * pow2 (rexp ?x)" by blast
  then have "?x / pow2 (rexp ?x) = real_of_int n"
    by (metis nonzero_mult_div_cancel_right pow2_nonzero)
  then have "rnei (?x / pow2 (rexp ?x)) = n" by (metis rnei_of_int)
  then show ?thesis using pos n unfolding rpos_def by simp
qed simp

section \<open>The integer computation is the rounding\<close>

lemma of_int_2_power [simp]: "0 \<le> k \<Longrightarrow> (2 :: real) ^ nat k = pow2 k"
  by (simp add: pow2_nat)

lemma bitlen_pow2_bounds:
  assumes "0 < n"
  shows "pow2 (bitlen n - 1) \<le> real_of_int n" "real_of_int n < pow2 (bitlen n)"
proof -
  have b: "1 \<le> bitlen n" using assms bitlen_nonneg [of n] bitlen_eq_zero_iff [of n] by linarith
  have "2 ^ nat (bitlen n - 1) \<le> n" "n < 2 ^ nat (bitlen n)"
    using bitlen_bounds [OF assms] by simp_all
  then have "real_of_int (2 ^ nat (bitlen n - 1)) \<le> real_of_int n"
      "real_of_int n < real_of_int (2 ^ nat (bitlen n))"
    by (simp_all only: of_int_le_iff of_int_less_iff)
  then show "pow2 (bitlen n - 1) \<le> real_of_int n" "real_of_int n < pow2 (bitlen n)"
    using b by simp_all
qed

lemma ilog2_correct:
  assumes n: "0 < n" and d: "0 < d"
  shows "ilog2 n d = \<lfloor>log 2 (real_of_int n / real_of_int d)\<rfloor>"
proof -
  let ?x = "real_of_int n / real_of_int d" and ?k = "bitlen n - bitlen d"
  have "pow2 (bitlen n - 1) * real_of_int d \<le> real_of_int n * pow2 (bitlen d)"
    using bitlen_pow2_bounds [OF n] bitlen_pow2_bounds [OF d] n d by (intro mult_mono) simp_all
  then have lo: "pow2 (?k - 1) \<le> ?x" using d by (simp add: pow2_diff pow2_add field_simps)
  have "real_of_int n * pow2 (bitlen d - 1) < pow2 (bitlen n) * real_of_int d"
    using bitlen_pow2_bounds [OF n] bitlen_pow2_bounds [OF d] n d
    by (intro mult_less_le_imp_less) simp_all
  then have hi: "?x < pow2 (?k + 1)" using d by (simp add: pow2_diff pow2_add field_simps)
  have test: "d * 2 ^ nat ?k \<le> n * 2 ^ nat (- ?k) \<longleftrightarrow> pow2 ?k \<le> ?x"
  proof -
    have "d * 2 ^ nat ?k \<le> n * 2 ^ nat (- ?k)
        \<longleftrightarrow> real_of_int (d * 2 ^ nat ?k) \<le> real_of_int (n * 2 ^ nat (- ?k))"
      by (simp only: of_int_le_iff)
    also have "\<dots> \<longleftrightarrow> pow2 ?k \<le> ?x"
      using d by (cases "0 \<le> ?k") (simp_all add: pow2_diff field_simps)
    finally show ?thesis .
  qed
  show ?thesis
  proof (cases "pow2 ?k \<le> ?x")
    case True
    with hi have "\<lfloor>log 2 ?x\<rfloor> = ?k" by (intro floor_log_eqI)
    with True show ?thesis unfolding ilog2_def Let_def test by simp
  next
    case False
    with lo have "\<lfloor>log 2 ?x\<rfloor> = ?k - 1" by (intro floor_log_eqI) simp_all
    with False show ?thesis unfolding ilog2_def Let_def test by simp
  qed
qed

lemma floor_log_pow2:
  assumes "0 < x"
  shows "\<lfloor>log 2 (x * pow2 k)\<rfloor> = \<lfloor>log 2 x\<rfloor> + k"
proof (rule floor_log_eqI)
  show "pow2 (\<lfloor>log 2 x\<rfloor> + k) \<le> x * pow2 k"
    using floor_log_bounds(1) [OF assms] by (simp add: pow2_add)
  have "x * pow2 k < pow2 (\<lfloor>log 2 x\<rfloor> + 1) * pow2 k"
    using floor_log_bounds(2) [OF assms] by (rule mult_strict_right_mono) simp
  then show "x * pow2 k < pow2 (\<lfloor>log 2 x\<rfloor> + k + 1)" by (simp add: pow2_add algebra_simps)
qed

text \<open>The exact real a call of \<open>round64\<close> rounds.\<close>

definition ratio :: "int \<Rightarrow> int \<Rightarrow> int \<Rightarrow> real" where
  "ratio n d k = real_of_int n / real_of_int d * pow2 k"

lemma round64_pack:
  assumes n: "0 < n" and d: "0 < d"
  shows "round64 s n d k =
    f64_pack s (rnei (ratio n d k / pow2 (rexp (ratio n d k)))) (rexp (ratio n d k))"
proof -
  let ?x = "ratio n d k"
  have "\<lfloor>log 2 ?x\<rfloor> = ilog2 n d + k"
    unfolding ratio_def using floor_log_pow2 [of "real_of_int n / real_of_int d" k] n d
    by (simp only: ilog2_correct) simp
  then have e: "ulp_exp (ilog2 n d + k) = rexp ?x" by (simp add: rexp_def)
  let ?e = "rexp ?x"
  have "div_rne (n * 2 ^ nat (k - ?e)) (d * 2 ^ nat (?e - k))
      = rnei (real_of_int (n * 2 ^ nat (k - ?e)) / real_of_int (d * 2 ^ nat (?e - k)))"
    using d by (intro div_rne_rnei) simp
  also have "real_of_int (n * 2 ^ nat (k - ?e)) / real_of_int (d * 2 ^ nat (?e - k)) = ?x / pow2 ?e"
    by (cases "?e \<le> k") (simp_all add: ratio_def pow2_diff field_simps)
  finally show ?thesis using n by (simp add: round64_def e Let_def)
qed

lemma rexp_mantissa:
  assumes "0 < x"
  shows "0 \<le> rnei (x / pow2 (rexp x))" "rnei (x / pow2 (rexp x)) \<le> 2 ^ 53"
    "2 ^ 52 \<le> rnei (x / pow2 (rexp x)) \<or> rexp x = - 1074"
proof -
  have "rnei (of_int 0) \<le> rnei (x / pow2 (rexp x))" using assms by (intro rnei_mono) simp
  then show "0 \<le> rnei (x / pow2 (rexp x))" by (simp only: rnei_of_int)
  have "rnei (x / pow2 (rexp x)) \<le> rnei (of_int (2 ^ 53))"
    by (rule rnei_mono) (use scaled_lt [OF assms] in simp)
  then show "rnei (x / pow2 (rexp x)) \<le> 2 ^ 53" by (simp only: rnei_of_int)
  show "2 ^ 52 \<le> rnei (x / pow2 (rexp x)) \<or> rexp x = - 1074"
  proof (cases "rexp x = - 1074")
    case False
    then have lt: "- 1074 < rexp x" using rexp_ge [of x] by simp
    then have "pow2 (rexp x + 52) \<le> real_of_int (rnei (x / pow2 (rexp x))) * pow2 (rexp x)"
      using rpos_ge_pow2 [OF assms lt] assms by (simp add: rpos_def)
    then have "real_of_int (2 ^ 52) \<le> real_of_int (rnei (x / pow2 (rexp x)))"
      by (simp add: pow2_add pow2_numeral)
    then have "2 ^ 52 \<le> rnei (x / pow2 (rexp x))" by (simp only: of_int_le_iff)
    then show ?thesis ..
  qed simp
qed

text \<open>\<open>y\<close> is the binary64 number the real \<open>r\<close> rounds to (an infinity on overflow).\<close>

definition rounds_to :: "float64 \<Rightarrow> bool \<Rightarrow> real \<Rightarrow> bool" where
  "rounds_to y s r \<longleftrightarrow>
     (if rpos r < pow2 1024
      then (\<exists>m e. y = F64_Fin s m e) \<and> f64_ok y \<and> fval y = rsign s (rpos r)
      else y = F64_Inf s)"

lemma f64_pack_rounds:
  assumes m: "0 \<le> m" "m \<le> 2 ^ 53" and e: "- 1074 \<le> e" "2 ^ 52 \<le> m \<or> e = - 1074"
  shows "if real_of_int m * pow2 e < pow2 1024
         then (\<exists>m' e'. f64_pack s m e = F64_Fin s m' e') \<and> f64_ok (f64_pack s m e)
              \<and> fval (f64_pack s m e) = rsign s (real_of_int m * pow2 e)
         else f64_pack s m e = F64_Inf s"
proof (cases "m = 2 ^ 53")
  case True
  then have v: "real_of_int m * pow2 e = pow2 (e + 53)"
    by (simp add: pow2_add pow2_numeral mult.commute)
  have v': "real_of_int (2 ^ 52) * pow2 (e + 1) = pow2 (e + 53)"
    by (simp add: pow2_add pow2_numeral) (simp add: pow2_def)
  have "pow2 (e + 53) < pow2 1024 \<longleftrightarrow> e + 1 \<le> 971" by auto
  then show ?thesis using True e v' unfolding v f64_pack_def by auto
next
  case False
  then have lt: "m < 2 ^ 53" using m by simp
  show ?thesis
  proof (cases "e \<le> 971")
    case True
    have "real_of_int m < real_of_int (2 ^ 53)" using lt by (simp only: of_int_less_iff)
    then have "real_of_int m * pow2 e < pow2 53 * pow2 e"
      by (intro mult_strict_right_mono) (simp_all add: pow2_numeral)
    also have "\<dots> \<le> pow2 1024" using True by (simp add: pow2_add [symmetric])
    finally show ?thesis using True False m e lt by (simp add: f64_pack_def)
  next
    case False
    then have "2 ^ 52 \<le> m" using e by simp
    then have "real_of_int (2 ^ 52) \<le> real_of_int m" by (simp only: of_int_le_iff)
    then have "pow2 52 * pow2 e \<le> real_of_int m * pow2 e"
      by (intro mult_right_mono) (simp_all add: pow2_numeral)
    moreover have "pow2 1024 \<le> pow2 52 * pow2 e" using False by (simp add: pow2_add [symmetric])
    ultimately have "\<not> real_of_int m * pow2 e < pow2 1024" by linarith
    then show ?thesis using False \<open>m \<noteq> 2 ^ 53\<close> by (simp add: f64_pack_def)
  qed
qed

theorem round64_correct:
  assumes "0 \<le> n" "0 < d"
  shows "rounds_to (round64 s n d k) s (ratio n d k)"
proof (cases "n = 0")
  case True
  then show ?thesis by (simp add: rounds_to_def round64_def ratio_def rsign_def)
next
  case False
  then have n: "0 < n" using assms by simp
  then have x: "0 < ratio n d k" using assms by (simp add: ratio_def)
  from f64_pack_rounds [OF rexp_mantissa(1,2) [OF x] rexp_ge rexp_mantissa(3) [OF x], of s] x
  show ?thesis unfolding rounds_to_def round64_pack [OF n assms(2)] by (simp add: rpos_def)
qed

section \<open>The operations on reals\<close>

definition fround :: "real \<Rightarrow> real" where
  "fround r = (if r < 0 then - rpos (- r) else rpos r)"

text \<open>
  \<open>y\<close> is the correctly rounded result \<open>r\<close>: finite with the rounded value, or the infinity of
  \<open>r\<close>'s sign when that value is out of range.
\<close>

definition represents :: "float64 \<Rightarrow> real \<Rightarrow> bool" where
  "represents y r \<longleftrightarrow>
     (if \<bar>fround r\<bar> < pow2 1024
      then f64_finite y \<and> f64_ok y \<and> fval y = fround r
      else y = F64_Inf (r < 0))"

lemma rounds_to_represents:
  assumes "rounds_to y s r" "0 \<le> r" "r = 0 \<or> v = rsign s r" "r = 0 \<longrightarrow> v = 0"
  shows "represents y v"
proof (cases "r = 0")
  case True
  then show ?thesis using assms by (auto simp: rounds_to_def represents_def fround_def rsign_def)
next
  case False
  then have "0 < r" "v = rsign s r" using assms by auto
  then show ?thesis using assms(1) rpos_nonneg [of r]
    by (cases s; cases "rpos r < pow2 1024")
      (auto simp: rounds_to_def represents_def fround_def rsign_def)
qed

lemma fval_signed: "fval (F64_Fin s m e) = real_of_int (signed_int s m) * pow2 e"
  by (simp add: signed_int_def rsign_def)

lemma fval_common:
  "fval (F64_Fin s m e) = real_of_int (signed_int s m * 2 ^ nat (e - k)) * pow2 k" if "k \<le> e"
  using that by (simp only: fval_signed pow2_scale)

lemma fval_neg: "fval (f64_neg x) = - fval x"
  by (cases x rule: f64_neg.cases) (simp_all add: rsign_def)

lemma f64_neg_ok [simp]: "f64_ok (f64_neg x) = f64_ok x" "f64_finite (f64_neg x) = f64_finite x"
  by (cases x rule: f64_neg.cases; simp)+

lemma f64_finiteE:
  assumes "f64_finite x" "f64_ok x"
  obtains s m e where "x = F64_Fin s m e" "0 \<le> m" "m < 2 ^ 53" "- 1074 \<le> e" "e \<le> 971"
  using assms by (cases x) auto

lemma fval_less_max:
  assumes "f64_finite x" "f64_ok x"
  shows "\<bar>fval x\<bar> < pow2 1024"
proof -
  obtain s m e where x: "x = F64_Fin s m e" "0 \<le> m" "m < 2 ^ 53" "e \<le> 971"
    using assms by (rule f64_finiteE)
  have "real_of_int m < real_of_int (2 ^ 53)" using x by (simp only: of_int_less_iff)
  then have "real_of_int m * pow2 e < pow2 53 * pow2 e"
    by (intro mult_strict_right_mono) (simp_all add: pow2_numeral)
  also have "\<dots> \<le> pow2 1024" using x by (simp add: pow2_add [symmetric])
  finally show ?thesis using x by (simp add: rsign_def)
qed

lemma fround_exact:
  assumes "\<bar>m\<bar> \<le> 2 ^ 53" "- 1074 \<le> e"
  shows "fround (real_of_int m * pow2 e) = real_of_int m * pow2 e"
  using rpos_exact [of m e] rpos_exact [of "- m" e] assms
  by (cases "m < 0") (auto simp: fround_def mult_less_0_iff)

lemma fround_fval: "f64_finite x \<Longrightarrow> f64_ok x \<Longrightarrow> fround (fval x) = fval x"
proof -
  assume "f64_finite x" "f64_ok x"
  then obtain s m e where x: "x = F64_Fin s m e" "0 \<le> m" "m < 2 ^ 53" "- 1074 \<le> e"
    by (rule f64_finiteE)
  then show ?thesis
    unfolding x fval_signed by (intro fround_exact) (auto simp: signed_int_def)
qed

lemma represents_self: "f64_finite x \<Longrightarrow> f64_ok x \<Longrightarrow> represents x (fval x)"
  by (simp add: represents_def fround_fval fval_less_max)

lemma fround_mono: "x \<le> y \<Longrightarrow> fround x \<le> fround y"
  using rpos_mono [of x y] rpos_mono [of "- y" "- x"] rpos_nonneg [of y] rpos_nonneg [of "- x"]
  unfolding fround_def by (cases "x < 0"; cases "y < 0"; simp only: if_True if_False; linarith)

lemma fround_sign: "0 \<le> x \<Longrightarrow> 0 \<le> fround x" "x < 0 \<Longrightarrow> fround x \<le> 0"
  using rpos_nonneg [of x] rpos_nonneg [of "- x"] by (simp_all add: fround_def)

lemma fround_0 [simp]: "fround 0 = 0"
  by (simp add: fround_def)

text \<open>Comparisons of finite numbers are comparisons of their values.\<close>

lemma f64_lt_fval:
  assumes "f64_finite x" "f64_finite y"
  shows "f64_lt x y \<longleftrightarrow> fval x < fval y"
proof -
  obtain s m e where x: "x = F64_Fin s m e" using assms by (cases x) auto
  obtain t n g where y: "y = F64_Fin t n g" using assms by (cases y) auto
  show ?thesis
  proof (cases "m = 0 \<or> n = 0")
    case True
    then show ?thesis unfolding x y
      by (auto simp: signed_int_def rsign_def zero_less_mult_iff mult_less_0_iff)
  next
    case False
    let ?k = "min e g"
    have "fval x < fval y \<longleftrightarrow> real_of_int (signed_int s m * 2 ^ nat (e - ?k))
        < real_of_int (signed_int t n * 2 ^ nat (g - ?k))"
      unfolding x y fval_common [of ?k e s m, OF min.cobounded1]
        fval_common [of ?k g t n, OF min.cobounded2] by (rule mult_less_cancel_right_pos) simp
    then show ?thesis using False unfolding x y by (simp only: of_int_less_iff f64_lt.simps Let_def if_False)
  qed
qed

lemma f64_eq_fval:
  assumes "f64_finite x" "f64_finite y"
  shows "f64_eq x y \<longleftrightarrow> fval x = fval y"
proof -
  obtain s m e where x: "x = F64_Fin s m e" using assms by (cases x) auto
  obtain t n g where y: "y = F64_Fin t n g" using assms by (cases y) auto
  show ?thesis
  proof (cases "m = 0 \<or> n = 0")
    case True
    then show ?thesis unfolding x y by (auto simp: rsign_def)
  next
    case False
    let ?k = "min e g"
    have "fval x = fval y \<longleftrightarrow> real_of_int (signed_int s m * 2 ^ nat (e - ?k))
        = real_of_int (signed_int t n * 2 ^ nat (g - ?k))"
      unfolding x y fval_common [of ?k e s m, OF min.cobounded1]
        fval_common [of ?k g t n, OF min.cobounded2] by simp
    then show ?thesis using False unfolding x y by (simp only: of_int_eq_iff f64_eq.simps Let_def if_False)
  qed
qed

lemma f64_le_fval: "f64_finite x \<Longrightarrow> f64_finite y \<Longrightarrow> f64_le x y \<longleftrightarrow> fval x \<le> fval y"
  by (auto simp: f64_le_def f64_lt_fval f64_eq_fval)

theorem represents_mono:
  assumes "represents x a" "represents y b" "a \<le> b"
  shows "f64_le x y"
proof -
  have le: "fround a \<le> fround b" using assms(3) by (rule fround_mono)
  have inf: "\<not> \<bar>fround c\<bar> < pow2 1024 \<Longrightarrow> (c < 0 \<longleftrightarrow> fround c < 0)" for c
    using fround_sign [of c] pow2_pos [of 1024] by linarith
  show ?thesis
  proof (cases "\<bar>fround a\<bar> < pow2 1024")
    case True
    show ?thesis
    proof (cases "\<bar>fround b\<bar> < pow2 1024")
      case b: True
      then show ?thesis using True assms le by (simp add: represents_def f64_le_fval)
    next
      case False
      then have "\<not> b < 0" using le True inf [of b] by auto
      then show ?thesis using False True assms by (cases x) (auto simp: represents_def f64_le_def)
    qed
  next
    case False
    show ?thesis
    proof (cases "\<bar>fround b\<bar> < pow2 1024")
      case b: True
      then have "a < 0" using le False inf [of a] by auto
      then show ?thesis using False b assms by (cases y) (auto simp: represents_def f64_le_def)
    next
      case b: False
      have "b < 0 \<longrightarrow> a < 0" using assms(3) by simp
      then show ?thesis using False b assms by (auto simp: represents_def f64_le_def)
    qed
  qed
qed

section \<open>Each operation returns the rounded exact result\<close>

text \<open>\<open>f64_num\<close>: a well-formed finite number.\<close>

definition f64_num :: "float64 \<Rightarrow> bool" where
  "f64_num x \<longleftrightarrow> f64_finite x \<and> f64_ok x"

lemma f64_numE:
  assumes "f64_num x"
  obtains s m e where "x = F64_Fin s m e" "0 \<le> m"
  using assms by (auto simp: f64_num_def elim: f64_finiteE)

lemma represents_num: "f64_num x \<Longrightarrow> represents x (fval x)"
  by (simp add: f64_num_def represents_self)

lemma f64_num_neg [simp]: "f64_num (f64_neg x) = f64_num x"
  by (simp add: f64_num_def)

lemma round64_represents:
  assumes "0 \<le> n" "0 < d" "n \<noteq> 0 \<longrightarrow> v = rsign s (ratio n d k)" "n = 0 \<longrightarrow> v = 0"
  shows "represents (round64 s n d k) v"
proof (rule rounds_to_represents [OF round64_correct [OF assms(1,2)]])
  show "0 \<le> ratio n d k" using assms(1,2) by (simp add: ratio_def)
  have z: "ratio n d k = 0 \<longleftrightarrow> n = 0" using assms(2) by (simp add: ratio_def)
  show "ratio n d k = 0 \<or> v = rsign s (ratio n d k)" "ratio n d k = 0 \<longrightarrow> v = 0"
    using assms(3,4) unfolding z by blast+
qed

theorem f64_add_represents:
  assumes "f64_num x" "f64_num y"
  shows "represents (f64_add x y) (fval x + fval y)"
proof -
  obtain s m e where x: "x = F64_Fin s m e" "0 \<le> m" using assms(1) by (rule f64_numE)
  obtain t n g where y: "y = F64_Fin t n g" "0 \<le> n" using assms(2) by (rule f64_numE)
  show ?thesis
  proof (cases "m = 0 \<or> n = 0")
    case True
    have zero: "represents (F64_Fin b 0 (- 1074)) 0" for b by (simp add: represents_def)
    show ?thesis
    proof (cases "m = 0")
      case m: True
      then have "fval x = 0" by (simp add: x)
      then show ?thesis using m represents_num [OF assms(2)] zero unfolding x y by simp
    next
      case False
      then have "n = 0" using True by simp
      then have "fval y = 0" by (simp add: y)
      then show ?thesis using False \<open>n = 0\<close> represents_num [OF assms(1)] unfolding x y by simp
    qed
  next
    case False
    let ?k = "min e g"
    let ?a = "signed_int s m * 2 ^ nat (e - ?k) + signed_int t n * 2 ^ nat (g - ?k)"
    have v: "fval x + fval y = real_of_int ?a * pow2 ?k"
      unfolding x y fval_common [of ?k e s m, OF min.cobounded1]
        fval_common [of ?k g t n, OF min.cobounded2] by (simp only: of_int_add distrib_right)
    have "represents (if ?a = 0 then f64_0 else round64 (?a < 0) \<bar>?a\<bar> 1 ?k) (real_of_int ?a * pow2 ?k)"
    proof (cases "?a = 0")
      case True
      then show ?thesis unfolding True by (simp add: represents_def f64_0_def rsign_def)
    next
      case False
      then have "represents (round64 (?a < 0) \<bar>?a\<bar> 1 ?k) (real_of_int ?a * pow2 ?k)"
        by (intro round64_represents) (simp_all add: ratio_def rsign_def del: of_int_add of_int_mult)
      then show ?thesis using False by (simp only: if_False)
    qed
    then show ?thesis unfolding v using False unfolding x y
      by (simp only: f64_add.simps Let_def if_False de_Morgan_disj simp_thms)
  qed
qed

theorem f64_sub_represents:
  "f64_num x \<Longrightarrow> f64_num y \<Longrightarrow> represents (f64_sub x y) (fval x - fval y)"
  using f64_add_represents [of x "f64_neg y"] by (simp add: f64_sub_def fval_neg)

theorem f64_mul_represents:
  assumes "f64_num x" "f64_num y"
  shows "represents (f64_mul x y) (fval x * fval y)"
proof -
  obtain s m e where x: "x = F64_Fin s m e" "0 \<le> m" using assms(1) by (rule f64_numE)
  obtain t n g where y: "y = F64_Fin t n g" "0 \<le> n" using assms(2) by (rule f64_numE)
  show ?thesis unfolding x y f64_mul.simps
    by (rule round64_represents) (use x y in \<open>auto simp: ratio_def rsign_def pow2_add\<close>)
qed

theorem f64_div_represents:
  assumes "f64_num x" "f64_num y" "fval y \<noteq> 0"
  shows "represents (f64_div x y) (fval x / fval y)"
proof -
  obtain s m e where x: "x = F64_Fin s m e" "0 \<le> m" using assms(1) by (rule f64_numE)
  obtain t n g where y: "y = F64_Fin t n g" "0 \<le> n" using assms(2) by (rule f64_numE)
  have n: "0 < n" using assms(3) y by (cases "n = 0") auto
  have "represents (round64 (s \<noteq> t) m n (e - g)) (fval x / fval y)"
    by (rule round64_represents) (use x y n in \<open>auto simp: ratio_def rsign_def pow2_diff field_simps\<close>)
  then show ?thesis using n unfolding x y by simp
qed

theorem f64_of_int_represents: "represents (f64_of_int n) (real_of_int n)"
  unfolding f64_of_int_def
  by (rule round64_represents) (auto simp: ratio_def rsign_def)

theorem f64_lit_represents: "0 < d \<Longrightarrow> represents (f64_lit n d) (real_of_int n / real_of_int d)"
  unfolding f64_lit_def
  by (rule round64_represents) (auto simp: ratio_def rsign_def)

text \<open>A result in range is a number; below \<open>2^53\<close> integer arithmetic is exact.\<close>

lemma represents_exact:
  assumes "represents y (real_of_int m * pow2 e)" "\<bar>m\<bar> \<le> 2 ^ 53" "- 1074 \<le> e" "e \<le> 970"
  shows "f64_num y \<and> fval y = real_of_int m * pow2 e"
proof -
  have fr: "fround (real_of_int m * pow2 e) = real_of_int m * pow2 e"
    by (rule fround_exact [OF assms(2,3)])
  have "real_of_int \<bar>m\<bar> \<le> real_of_int (2 ^ 53)" using assms(2) by (simp only: of_int_le_iff)
  then have "\<bar>real_of_int m\<bar> * pow2 e \<le> pow2 53 * pow2 e"
    by (intro mult_right_mono) (simp_all add: pow2_numeral)
  also have "\<dots> < pow2 1024" using assms(4) by (simp add: pow2_add [symmetric])
  finally have "\<bar>real_of_int m * pow2 e\<bar> < pow2 1024" by (simp add: abs_mult)
  then show ?thesis using assms(1) by (simp add: represents_def fr f64_num_def)
qed

lemma represents_int:
  "represents y (real_of_int m) \<Longrightarrow> \<bar>m\<bar> \<le> 2 ^ 53 \<Longrightarrow> f64_num y \<and> fval y = real_of_int m"
  using represents_exact [of y m 0] by simp

lemma fval_of_int: "\<bar>n\<bar> \<le> 2 ^ 53 \<Longrightarrow> f64_num (f64_of_int n) \<and> fval (f64_of_int n) = real_of_int n"
  by (rule represents_int [OF f64_of_int_represents])

lemma f64_sub_int:
  assumes "f64_num x" "f64_num y" "fval x = real_of_int a" "fval y = real_of_int b" "\<bar>a - b\<bar> \<le> 2 ^ 53"
  shows "f64_num (f64_sub x y) \<and> fval (f64_sub x y) = real_of_int (a - b)"
  using f64_sub_represents [OF assms(1,2)] assms(3-5)
  by (intro represents_int) simp_all

lemma f64_add_int:
  assumes "f64_num x" "f64_num y" "fval x = real_of_int a" "fval y = real_of_int b" "\<bar>a + b\<bar> \<le> 2 ^ 53"
  shows "f64_num (f64_add x y) \<and> fval (f64_add x y) = real_of_int (a + b)"
  using f64_add_represents [OF assms(1,2)] assms(3-5)
  by (intro represents_int) simp_all

lemma int64_of_f64_int:
  assumes "f64_num x" "fval x = real_of_int n" "0 \<le> n" "n < 2 ^ 63"
  shows "int64_of_f64 x = i64 n"
proof -
  obtain s m e where x: "x = F64_Fin s m e" "0 \<le> m" using assms(1) by (rule f64_numE)
  have "f64_trunc x = Some n"
  proof (cases "0 \<le> e")
    case True
    have "real_of_int (signed_int s m * 2 ^ nat e) = real_of_int n"
      using assms(2) True unfolding x fval_signed by simp
    then have "signed_int s m * 2 ^ nat e = n" by (simp only: of_int_eq_iff)
    then show ?thesis using True by (simp add: x signed_int_def split: if_splits)
  next
    case False
    have "real_of_int (signed_int s m) = real_of_int n * pow2 (- e)"
      using assms(2) unfolding x fval_signed by (simp add: pow2_uminus field_simps)
    then have "real_of_int (signed_int s m) = real_of_int (n * 2 ^ nat (- e))" using False by simp
    then have eq: "signed_int s m = n * 2 ^ nat (- e)" by (simp only: of_int_eq_iff)
    have "0 \<le> n * 2 ^ nat (- e)" using assms(3) by simp
    then have m: "\<not> s \<or> m = 0" using eq x(2) by (cases s) (auto simp: signed_int_def)
    then have "m = n * 2 ^ nat (- e)" using eq by (cases s) (auto simp: signed_int_def)
    then have "m div 2 ^ nat (- e) = n" by simp
    then show ?thesis using False m unfolding x by (cases s) (auto simp: signed_int_def)
  qed
  then show ?thesis using assms(3,4) by (simp add: int64_of_f64_def)
qed

section \<open>Not-a-number\<close>

lemma f64_NaN_absorbs [simp]:
  "f64_add x F64_NaN = F64_NaN" "f64_sub x F64_NaN = F64_NaN" "f64_sub F64_NaN x = F64_NaN"
  "f64_mul x F64_NaN = F64_NaN" "f64_div x F64_NaN = F64_NaN"
  by (cases x; simp add: f64_sub_def)+

lemma f64_NaN_unordered [simp]:
  "\<not> f64_lt x F64_NaN" "\<not> f64_eq x F64_NaN" "\<not> f64_le x F64_NaN" "\<not> f64_le F64_NaN x"
  by (cases x; simp add: f64_le_def)+

section \<open>Rounding a real number\<close>

definition f64_of_real :: "real \<Rightarrow> float64" where
  "f64_of_real r =
     (if r = 0 then f64_0
      else f64_pack (r < 0) (rnei (\<bar>r\<bar> / pow2 (rexp \<bar>r\<bar>))) (rexp \<bar>r\<bar>))"

theorem f64_of_real_represents: "represents (f64_of_real r) r"
proof (cases "r = 0")
  case True
  then show ?thesis by (simp add: f64_of_real_def represents_def f64_0_def)
next
  case False
  then have x: "0 < \<bar>r\<bar>" by simp
  have "rounds_to (f64_of_real r) (r < 0) \<bar>r\<bar>"
    using f64_pack_rounds [OF rexp_mantissa(1,2) [OF x] rexp_ge rexp_mantissa(3) [OF x], of "r < 0"] False
    by (simp add: f64_of_real_def rounds_to_def rpos_def)
  then show ?thesis by (rule rounds_to_represents) (auto simp: rsign_def)
qed

end
