(* ===== verification/GoStd.thy ===== *)
theory GoStd
  imports Float64_Real
begin

text \<open>
  The parts of Go's \<open>time\<close>, \<open>fmt\<close> and \<open>strconv\<close> the sources use. Strings are Go strings:
  sequences of bytes, a \<open>char list\<close>; a character outside ASCII is its UTF-8 bytes.
\<close>

section \<open>time\<close>

text \<open>
  An instant is its distance in nanoseconds from the Unix epoch; the zero \<open>time.Time\<close> is
  1 January of year 1. A \<open>time.Duration\<close> is an \<open>int64\<close> number of nanoseconds; \<open>Time.Sub\<close>
  saturates when the difference does not fit.
\<close>

type_synonym gotime = int
type_synonym duration = int64

definition time_zero :: gotime where
  "time_zero = - 62135596800 * 1000000000"

definition time_IsZero :: "gotime \<Rightarrow> bool" where
  "time_IsZero t \<longleftrightarrow> t = time_zero"

definition time_Sub :: "gotime \<Rightarrow> gotime \<Rightarrow> duration" where
  "time_Sub t u = i64 (max (- (2 ^ 63)) (min (2 ^ 63 - 1) (t - u)))"

definition Second :: duration where
  "Second = i64 1000000000"

definition Minute :: duration where
  "Minute = i64 60000000000"

definition dur_lt :: "duration \<Rightarrow> duration \<Rightarrow> bool" where
  "dur_lt a b \<longleftrightarrow> sint a < sint b"

text \<open>\<open>time.Duration(n) * time.Second\<close>\<close>

definition seconds :: "int32 \<Rightarrow> duration" where
  "seconds n = int64_of_int32 n * Second"

lemma sint_seconds: "sint (seconds n) = sint n * 1000000000"
proof -
  have b: "- (2 ^ 31) \<le> sint n" "sint n < 2 ^ 31" by (rule sint32_bounds)+
  have "seconds n = word_of_int (sint n * 1000000000)"
    unfolding seconds_def int64_of_int32_def Second_def i64_def by (simp only: wi_hom_mult)
  moreover have "sint (word_of_int (sint n * 1000000000) :: int64) = sint n * 1000000000"
    by (rule sint_word_of_int_64) (use b in simp_all)
  ultimately show ?thesis by (simp only:)
qed

lemma sint_time_Sub: "sint (time_Sub t u) = max (- (2 ^ 63)) (min (2 ^ 63 - 1) (t - u))"
  unfolding time_Sub_def by (rule sint_i64) (simp_all add: max_def min_def)

text \<open>\<open>Duration.Seconds\<close>, \<open>Minutes\<close> and \<open>Hours\<close>; the quotients truncate, as Go's do.\<close>

definition dur_in :: "int \<Rightarrow> duration \<Rightarrow> float64" where
  "dur_in unit d =
     (let n = sint d
      in f64_add (f64_of_int (sgn n * (\<bar>n\<bar> div unit))) (f64_div (f64_of_int (sgn n * (\<bar>n\<bar> mod unit))) (f64_of_int unit)))"

definition dur_Seconds :: "duration \<Rightarrow> float64" where "dur_Seconds = dur_in 1000000000"
definition dur_Minutes :: "duration \<Rightarrow> float64" where "dur_Minutes = dur_in 60000000000"
definition dur_Hours :: "duration \<Rightarrow> float64" where "dur_Hours = dur_in 3600000000000"

section \<open>fmt\<close>

text \<open>\<open>%d\<close>\<close>

function digits :: "int \<Rightarrow> string" where
  "digits n = (if n < 10 then [char_of (48 + n)] else digits (n div 10) @ [char_of (48 + n mod 10)])"
  by pat_completeness auto
termination
  by (relation "measure nat") auto

declare digits.simps [simp del]

definition fmt_d :: "int \<Rightarrow> string" where
  "fmt_d n = (if n < 0 then ''-'' @ digits (- n) else digits n)"

text \<open>\<open>%.pf\<close>, and \<open>%+.pf\<close> when the sign is always printed\<close>

definition pad_zeros :: "nat \<Rightarrow> string \<Rightarrow> string" where
  "pad_zeros p s = replicate (p - length s) CHR ''0'' @ s"

fun fmt_f :: "bool \<Rightarrow> nat \<Rightarrow> float64 \<Rightarrow> string" where
  "fmt_f explicit p F64_NaN = (if explicit then ''+NaN'' else ''NaN'')"
| "fmt_f explicit p (F64_Inf s) = (if s then ''-Inf'' else ''+Inf'')"
| "fmt_f explicit p (F64_Fin s m e) =
     (let n = (if m = 0 then 0
               else if 0 \<le> e then m * 2 ^ nat e * 10 ^ p
               else div_rne (m * 10 ^ p) (2 ^ nat (- e)))
      in (if s then ''-'' else if explicit then ''+'' else '''') @ digits (n div 10 ^ p) @
         (if p = 0 then '''' else ''.'' @ pad_zeros p (digits (n mod 10 ^ p))))"

text \<open>
  \<open>%q\<close>: a double-quoted literal with Go's escapes. A byte of a multi-byte UTF-8 sequence is
  kept, as Go keeps a printable rune; the escapes of unprintable runes and of invalid UTF-8 are
  not reproduced.
\<close>

definition hex_digit :: "int \<Rightarrow> char" where
  "hex_digit d = (if d < 10 then char_of (48 + d) else char_of (87 + d))"

definition quote_char :: "char \<Rightarrow> string" where
  "quote_char c =
     (let n = (of_char c :: int) in
      if n = 34 \<or> n = 92 then [CHR 0x5C, c]
      else if n = 7 then [CHR 0x5C, CHR ''a''] else if n = 8 then [CHR 0x5C, CHR ''b'']
      else if n = 12 then [CHR 0x5C, CHR ''f''] else if n = 10 then [CHR 0x5C, CHR ''n'']
      else if n = 13 then [CHR 0x5C, CHR ''r''] else if n = 9 then [CHR 0x5C, CHR ''t'']
      else if n = 11 then [CHR 0x5C, CHR ''v'']
      else if n < 32 \<or> n = 127 then [CHR 0x5C, CHR ''x'', hex_digit (n div 16), hex_digit (n mod 16)]
      else [c])"

definition fmt_q :: "string \<Rightarrow> string" where
  "fmt_q s = [CHR 0x22] @ concat (map quote_char s) @ [CHR 0x22]"

section \<open>Errors\<close>

text \<open>
  The errors the sources tell apart: those of the Kubernetes API by their reason, and errors
  made or wrapped by \<open>fmt.Errorf\<close> (with \<open>%w\<close> the wrapped error stays reachable).
\<close>

datatype api_reason = NotFound | Conflict | OtherReason

datatype go_error =
    ApiError api_reason string
  | PlainError string
  | Wrapped string go_error

text \<open>\<open>apierrors.IsNotFound\<close>, which looks through wrapped errors\<close>

fun is_not_found :: "go_error \<Rightarrow> bool" where
  "is_not_found (ApiError r m) = (r = NotFound)"
| "is_not_found (PlainError m) = False"
| "is_not_found (Wrapped m e) = is_not_found e"

text \<open>\<open>err.Error()\<close>\<close>

fun error_text :: "go_error \<Rightarrow> string" where
  "error_text (ApiError r m) = m"
| "error_text (PlainError m) = m"
| "error_text (Wrapped m e) = m @ '': '' @ error_text e"

end
