(* ===== verification/Types.thy ===== *)
theory Types
  imports GoStd
begin

text \<open>
  The custom resource (\<open>api/v1alpha1/types.go\<close>): one record per struct, fields in the order of
  the source. Enumerations declared as strings stay strings, since the API server may hold any.
  A nil slice and an empty one are the same list: no code of the repository tells them apart.
\<close>

section \<open>Specification\<close>

record canary_step =
  Weight :: int32
  PauseSeconds :: int32

record sprt_metric =
  metric_Name :: string
  CanaryTotalQuery :: string
  CanaryFailureQuery :: string
  StableTotalQuery :: string
  StableFailureQuery :: string
  Delta :: float64

record sprt_analysis =
  Alpha :: float64
  Beta :: float64
  AnalysisIntervalSeconds :: int32
  Metrics :: "sprt_metric list"

record rollout_spec =
  TargetRef :: string
  StableServiceRef :: string
  CanaryServiceRef :: string
  VirtualServiceRef :: string
  Steps :: "canary_step list"
  Paused :: bool
  Abort :: bool
  PrometheusURL :: string
  Analysis :: "sprt_analysis option"

section \<open>Status\<close>

record sprt_metric_state =
  state_Name :: string
  LogLikelihood :: float64
  Observations :: int64
  Failures :: int64
  BaselineRate :: float64
  LastCanaryTotal :: float64
  LastCanaryFailure :: float64
  Decision :: string

type_synonym rollout_phase = string

definition PhasePending :: rollout_phase where "PhasePending = ''Pending''"
definition PhaseRunning :: rollout_phase where "PhaseRunning = ''Running''"
definition PhasePaused :: rollout_phase where "PhasePaused = ''Paused''"
definition PhasePromoted :: rollout_phase where "PhasePromoted = ''Promoted''"
definition PhaseAborted :: rollout_phase where "PhaseAborted = ''Aborted''"
definition PhaseFailed :: rollout_phase where "PhaseFailed = ''Failed''"

lemmas phase_defs = PhasePending_def PhaseRunning_def PhasePaused_def PhasePromoted_def
  PhaseAborted_def PhaseFailed_def

lemma phases_distinct [simp]:
  "PhaseRunning \<noteq> PhasePending" "PhasePaused \<noteq> PhasePending" "PhasePromoted \<noteq> PhasePending"
  "PhaseAborted \<noteq> PhasePending" "PhaseFailed \<noteq> PhasePending"
  "PhasePending \<noteq> PhaseRunning" "PhasePaused \<noteq> PhaseRunning" "PhasePromoted \<noteq> PhaseRunning"
  "PhaseAborted \<noteq> PhaseRunning" "PhaseFailed \<noteq> PhaseRunning"
  "PhasePending \<noteq> PhasePaused" "PhaseRunning \<noteq> PhasePaused" "PhasePromoted \<noteq> PhasePaused"
  "PhaseAborted \<noteq> PhasePaused" "PhaseFailed \<noteq> PhasePaused"
  "PhasePending \<noteq> PhasePromoted" "PhaseRunning \<noteq> PhasePromoted" "PhasePaused \<noteq> PhasePromoted"
  "PhaseAborted \<noteq> PhasePromoted" "PhaseFailed \<noteq> PhasePromoted"
  "PhasePending \<noteq> PhaseAborted" "PhaseRunning \<noteq> PhaseAborted" "PhasePaused \<noteq> PhaseAborted"
  "PhasePromoted \<noteq> PhaseAborted" "PhaseFailed \<noteq> PhaseAborted"
  "PhasePending \<noteq> PhaseFailed" "PhaseRunning \<noteq> PhaseFailed" "PhasePaused \<noteq> PhaseFailed"
  "PhasePromoted \<noteq> PhaseFailed" "PhaseAborted \<noteq> PhaseFailed"
  "PhasePending \<noteq> []" "PhaseRunning \<noteq> []" "PhasePaused \<noteq> []" "PhasePromoted \<noteq> []"
  "PhaseAborted \<noteq> []" "PhaseFailed \<noteq> []"
  "[] \<noteq> PhasePending" "[] \<noteq> PhaseRunning" "[] \<noteq> PhasePaused" "[] \<noteq> PhasePromoted"
  "[] \<noteq> PhaseAborted" "[] \<noteq> PhaseFailed"
  by (simp_all add: phase_defs)

record rollout_status =
  Phase :: rollout_phase
  CurrentStep :: int32
  CurrentWeight :: int32
  LastTransitionTime :: gotime
  Message :: string
  AnalysisState :: "sprt_metric_state list"

section \<open>The object\<close>

text \<open>
  Of the embedded \<open>TypeMeta\<close> and \<open>ObjectMeta\<close> the fields the sources read, and the resource
  version the API server compares on an update.
\<close>

record canary_rollout =
  Kind :: string
  Name :: string
  Namespace :: string
  CreationTimestamp :: gotime
  ResourceVersion :: string
  Spec :: rollout_spec
  Status :: rollout_status

record canary_rollout_list =
  Items :: "canary_rollout list"

end
