(* ===== verification/Env.thy ===== *)
theory Env
  imports Types
begin

text \<open>
  The code outside the repository that the controller calls: the Kubernetes client, the
  Prometheus client, the \<open>unstructured\<close> helpers, the clock, and \<open>math.Log\<close>. It is one record
  of functions over an abstract world \<open>'w\<close> that each call may read and change, so a theorem
  about a component holds for every client. \<open>traced\<close> wraps any environment so that the world
  also records the calls, which is how "at most one status update" is stated.
\<close>

section \<open>Values exchanged with the clients\<close>

text \<open>An \<open>interface{}\<close> holding decoded JSON; an object is a \<open>map[string]interface{}\<close>.\<close>

datatype json =
    JNull
  | JBool bool
  | JInt int64
  | JFloat float64
  | JString string
  | JSlice "json list"
  | JMap "string \<Rightarrow> json option"

type_synonym jmap = "string \<Rightarrow> json option"

type_synonym label_set = "(string \<times> string) list"

text \<open>Of a Deployment its selector's labels (a nil selector is \<open>None\<close>), of a Pod its conditions.\<close>

record deployment =
  MatchLabels :: "label_set option"

record pod_condition =
  cond_Type :: string
  cond_Status :: string

type_synonym pod = "pod_condition list"

text \<open>\<open>model.Value\<close>: the samples of an instant vector, or the name of another type.\<close>

datatype prom_value = Vector "float64 list" | OtherValue string

section \<open>The environment\<close>

record 'w env =
  math_Log :: "float64 \<Rightarrow> float64"
  time_Now :: "'w \<Rightarrow> gotime \<times> 'w"
  get_rollout :: "string \<Rightarrow> string \<Rightarrow> 'w \<Rightarrow> (go_error + canary_rollout) \<times> 'w"
  update_status :: "canary_rollout \<Rightarrow> 'w \<Rightarrow> go_error option \<times> 'w"
  get_vs :: "string \<Rightarrow> string \<Rightarrow> 'w \<Rightarrow> (go_error + jmap) \<times> 'w"
  update_vs :: "jmap \<Rightarrow> 'w \<Rightarrow> go_error option \<times> 'w"
  get_deployment :: "string \<Rightarrow> string \<Rightarrow> 'w \<Rightarrow> (go_error + deployment) \<times> 'w"
  list_pods :: "string \<Rightarrow> label_set \<Rightarrow> 'w \<Rightarrow> (go_error + pod list) \<times> 'w"
  prom_client :: "string \<Rightarrow> go_error option"
  prom_query :: "string \<Rightarrow> string \<Rightarrow> gotime \<Rightarrow> 'w \<Rightarrow> (go_error + prom_value) \<times> 'w"
  NestedSlice :: "jmap \<Rightarrow> string list \<Rightarrow> go_error + json list option"
  NestedString :: "jmap \<Rightarrow> string list \<Rightarrow> go_error + string option"
  SetNestedField :: "jmap \<Rightarrow> json \<Rightarrow> string list \<Rightarrow> go_error + jmap"
  SetNestedSlice :: "jmap \<Rightarrow> json list \<Rightarrow> string list \<Rightarrow> go_error + jmap"

section \<open>Recording the calls\<close>

datatype event =
    GetRollout string string
  | UpdateStatus canary_rollout
  | GetVS string string
  | UpdateVS jmap
  | GetDeployment string string
  | ListPods string label_set
  | PromQuery string string
  | ClockRead gotime

definition log_call :: "event \<Rightarrow> ('w \<Rightarrow> 'a \<times> 'w) \<Rightarrow> 'w \<times> event list \<Rightarrow> 'a \<times> ('w \<times> event list)" where
  "log_call ev f w = (let (a, w') = f (fst w) in (a, (w', snd w @ [ev])))"

definition traced :: "'w env \<Rightarrow> ('w \<times> event list) env" where
  "traced E =
    \<lparr> math_Log = math_Log E,
      time_Now = (\<lambda>w. let (t, w') = time_Now E (fst w) in (t, (w', snd w @ [ClockRead t]))),
      get_rollout = (\<lambda>ns n. log_call (GetRollout ns n) (get_rollout E ns n)),
      update_status = (\<lambda>cr. log_call (UpdateStatus cr) (update_status E cr)),
      get_vs = (\<lambda>ns n. log_call (GetVS ns n) (get_vs E ns n)),
      update_vs = (\<lambda>v. log_call (UpdateVS v) (update_vs E v)),
      get_deployment = (\<lambda>ns n. log_call (GetDeployment ns n) (get_deployment E ns n)),
      list_pods = (\<lambda>ns ls. log_call (ListPods ns ls) (list_pods E ns ls)),
      prom_client = prom_client E,
      prom_query = (\<lambda>u q t. log_call (PromQuery u q) (prom_query E u q t)),
      NestedSlice = NestedSlice E, NestedString = NestedString E,
      SetNestedField = SetNestedField E, SetNestedSlice = SetNestedSlice E \<rparr>"

text \<open>The status objects and the VirtualService objects a run wrote, in order.\<close>

fun status_writes :: "event list \<Rightarrow> canary_rollout list" where
  "status_writes [] = []"
| "status_writes (UpdateStatus cr # es) = cr # status_writes es"
| "status_writes (_ # es) = status_writes es"

fun vs_writes :: "event list \<Rightarrow> jmap list" where
  "vs_writes [] = []"
| "vs_writes (UpdateVS v # es) = v # vs_writes es"
| "vs_writes (_ # es) = vs_writes es"

lemma status_writes_append [simp]: "status_writes (es @ fs) = status_writes es @ status_writes fs"
  by (induction es rule: status_writes.induct) simp_all

lemma vs_writes_append [simp]: "vs_writes (es @ fs) = vs_writes es @ vs_writes fs"
  by (induction es rule: vs_writes.induct) simp_all

end
