(* ===== verification/Metrics.thy ===== *)
theory Metrics
  imports Env
begin

text \<open>
  The Prometheus gauges the controller exports (\<open>internal/controller/metrics.go\<close>). A gauge
  vector maps label values to numbers; \<open>WithLabelValues(..).Set\<close> and \<open>DeleteLabelValues\<close> are the
  interface \<open>gauge_vector\<close>, which the record of all vectors is proved to provide.
\<close>

section \<open>Gauge vectors\<close>

locale gauge_vector =
  fixes set_label :: "'v \<Rightarrow> 'l \<Rightarrow> float64 \<Rightarrow> 'v"
    and delete_label :: "'v \<Rightarrow> 'l \<Rightarrow> 'v"
    and value_of :: "'v \<Rightarrow> 'l \<Rightarrow> float64 option"
  assumes value_set: "value_of (set_label v l x) l' = (if l' = l then Some x else value_of v l')"
    and value_delete: "value_of (delete_label v l) l' = (if l' = l then None else value_of v l')"
begin

lemma value_set_same: "value_of (set_label v l x) l = Some x"
  by (simp add: value_set)

lemma value_set_other: "l' \<noteq> l \<Longrightarrow> value_of (set_label v l x) l' = value_of v l'"
  by (simp add: value_set)

lemma value_delete_fold:
  "value_of (fold (\<lambda>l v. delete_label v l) ls v) l' = (if l' \<in> set ls then None else value_of v l')"
  by (induction ls arbitrary: v) (auto simp: value_delete)

end

type_synonym 'l gauge = "'l \<Rightarrow> float64 option"

definition gauge_set :: "'l gauge \<Rightarrow> 'l \<Rightarrow> float64 \<Rightarrow> 'l gauge" where
  "gauge_set g l x = g(l \<mapsto> x)"

definition gauge_delete :: "'l gauge \<Rightarrow> 'l \<Rightarrow> 'l gauge" where
  "gauge_delete g l = g(l := None)"

interpretation gv: gauge_vector gauge_set gauge_delete "\<lambda>g l. g l"
  by unfold_locales (simp_all add: gauge_set_def gauge_delete_def)

text \<open>The vectors of the controller, labelled by namespace and rollout, and by metric.\<close>

type_synonym rollout_labels = "string \<times> string"
type_synonym metric_labels = "string \<times> string \<times> string"

record gauges =
  sprtLogLikelihood :: "metric_labels gauge"
  sprtBoundaryA :: "rollout_labels gauge"
  sprtBoundaryB :: "rollout_labels gauge"
  sprtObservations :: "metric_labels gauge"
  sprtFailures :: "metric_labels gauge"
  canaryWeight_gauge :: "rollout_labels gauge"
  rolloutPhase :: "rollout_labels gauge"

section \<open>Recording\<close>

definition recordSPRTBoundaries :: "string \<Rightarrow> string \<Rightarrow> float64 \<Rightarrow> float64 \<Rightarrow> gauges \<Rightarrow> gauges" where
  "recordSPRTBoundaries ns ro upper lower g =
     g\<lparr> sprtBoundaryA := gauge_set (sprtBoundaryA g) (ns, ro) upper,
        sprtBoundaryB := gauge_set (sprtBoundaryB g) (ns, ro) lower \<rparr>"

definition recordSPRTMetricState :: "string \<Rightarrow> string \<Rightarrow> sprt_metric_state \<Rightarrow> gauges \<Rightarrow> gauges" where
  "recordSPRTMetricState ns ro st g =
     (let l = (ns, ro, state_Name st) in
      g\<lparr> sprtLogLikelihood := gauge_set (sprtLogLikelihood g) l (LogLikelihood st),
         sprtObservations := gauge_set (sprtObservations g) l (f64_of_int64 (Observations st)),
         sprtFailures := gauge_set (sprtFailures g) l (f64_of_int64 (Failures st)) \<rparr>)"

definition recordCanaryWeight :: "string \<Rightarrow> string \<Rightarrow> int32 \<Rightarrow> gauges \<Rightarrow> gauges" where
  "recordCanaryWeight ns ro w g =
     g\<lparr> canaryWeight_gauge := gauge_set (canaryWeight_gauge g) (ns, ro) (f64_of_int32 w) \<rparr>"

definition phaseCode :: "rollout_phase \<Rightarrow> int option" where
  "phaseCode phase =
     (if phase = PhasePending then Some 0
      else if phase = PhaseRunning then Some 1
      else if phase = PhasePaused then Some 2
      else if phase = PhasePromoted then Some 3
      else if phase = PhaseAborted then Some 4
      else if phase = PhaseFailed then Some 5
      else None)"

definition recordRolloutPhase :: "string \<Rightarrow> string \<Rightarrow> rollout_phase \<Rightarrow> gauges \<Rightarrow> gauges" where
  "recordRolloutPhase ns ro phase g =
     (case phaseCode phase of
        None \<Rightarrow> g
      | Some code \<Rightarrow> g\<lparr> rolloutPhase := gauge_set (rolloutPhase g) (ns, ro) (f64_of_int code) \<rparr>)"

definition resetSPRTMetricSeries :: "string \<Rightarrow> string \<Rightarrow> string \<Rightarrow> gauges \<Rightarrow> gauges" where
  "resetSPRTMetricSeries ns ro m g =
     (let l = (ns, ro, m) in
      g\<lparr> sprtLogLikelihood := gauge_delete (sprtLogLikelihood g) l,
         sprtObservations := gauge_delete (sprtObservations g) l,
         sprtFailures := gauge_delete (sprtFailures g) l \<rparr>)"

section \<open>The controller's state\<close>

text \<open>The outside world and the gauges of the process; calls of the environment change only the first.\<close>

record 'w sys =
  world :: 'w
  gauges_of :: gauges

definition call :: "('w \<Rightarrow> 'a \<times> 'w) \<Rightarrow> 'w sys \<Rightarrow> 'a \<times> 'w sys" where
  "call f s = (let (a, w) = f (world s) in (a, s\<lparr>world := w\<rparr>))"

definition gauge_update :: "(gauges \<Rightarrow> gauges) \<Rightarrow> 'w sys \<Rightarrow> 'w sys" where
  "gauge_update f s = s\<lparr>gauges_of := f (gauges_of s)\<rparr>"

lemma world_gauge_update [simp]: "world (gauge_update f s) = world s"
  by (simp add: gauge_update_def)

lemma gauges_gauge_update [simp]: "gauges_of (gauge_update f s) = f (gauges_of s)"
  by (simp add: gauge_update_def)

lemma gauges_call [simp]: "gauges_of (snd (call f s)) = gauges_of s"
  by (simp add: call_def split: prod.split)

lemma call_eq: "call f s = (fst (f (world s)), s\<lparr>world := snd (f (world s))\<rparr>)"
  by (simp add: call_def split: prod.split)

section \<open>Properties of the recording functions\<close>

lemma phaseCode_range: "phaseCode p = Some c \<Longrightarrow> 0 \<le> c \<and> c \<le> 5"
  by (auto simp: phaseCode_def split: if_splits)

lemma phaseCode_inject: "phaseCode p = Some c \<Longrightarrow> phaseCode q = Some c \<Longrightarrow> p = q"
  by (auto simp: phaseCode_def split: if_splits)

text \<open>Resetting the series of a list of metrics removes exactly theirs.\<close>

definition reset_series :: "string \<Rightarrow> string \<Rightarrow> sprt_metric list \<Rightarrow> gauges \<Rightarrow> gauges" where
  "reset_series ns ro ms g = fold (\<lambda>m. resetSPRTMetricSeries ns ro (metric_Name m)) ms g"

lemma reset_series_fold:
  "sprtLogLikelihood (reset_series ns ro ms g)
     = fold (\<lambda>l v. gauge_delete v l) (map (\<lambda>m. (ns, ro, metric_Name m)) ms) (sprtLogLikelihood g)"
  "sprtObservations (reset_series ns ro ms g)
     = fold (\<lambda>l v. gauge_delete v l) (map (\<lambda>m. (ns, ro, metric_Name m)) ms) (sprtObservations g)"
  "sprtFailures (reset_series ns ro ms g)
     = fold (\<lambda>l v. gauge_delete v l) (map (\<lambda>m. (ns, ro, metric_Name m)) ms) (sprtFailures g)"
  unfolding reset_series_def
  by (induction ms arbitrary: g) (simp_all add: resetSPRTMetricSeries_def Let_def)

lemmas reset_series_value = reset_series_fold [THEN fun_cong, unfolded gv.value_delete_fold]

lemma reset_series_frame [frame]:
  "rolloutPhase (reset_series ns ro ms g) = rolloutPhase g"
  "canaryWeight_gauge (reset_series ns ro ms g) = canaryWeight_gauge g"
  unfolding reset_series_def
  by (induction ms arbitrary: g) (simp_all add: resetSPRTMetricSeries_def Let_def)

section \<open>Calls of a traced environment\<close>

text \<open>\<open>emits es s s'\<close>: between the two states the program made the calls \<open>es\<close>.\<close>

definition emits :: "event list \<Rightarrow> ('w \<times> event list) sys \<Rightarrow> ('w \<times> event list) sys \<Rightarrow> bool" where
  "emits es s s' \<longleftrightarrow> snd (world s') = snd (world s) @ es"

lemma emits_refl [intro, simp]: "emits [] s s"
  by (simp add: emits_def)

lemma emits_trans: "emits es s s' \<Longrightarrow> emits fs s' s'' \<Longrightarrow> emits (es @ fs) s s''"
  by (simp add: emits_def)

lemma emits_inject: "emits es s s' \<Longrightarrow> emits fs s s' \<Longrightarrow> es = fs"
  by (simp add: emits_def)

lemma emits_gauges [simp]:
  "emits es (gauge_update f s) s' = emits es s s'" "emits es s (gauge_update f s') = emits es s s'"
  by (simp_all add: emits_def)

lemma call_log:
  assumes "call (log_call ev f) s = (r, s')"
  shows "emits [ev] s s'" "r = fst (f (fst (world s)))"
  using assms by (auto simp: emits_def call_def log_call_def split: prod.splits)

lemma traced_sel [simp]:
  "math_Log (traced E) = math_Log E" "prom_client (traced E) = prom_client E"
  "NestedSlice (traced E) = NestedSlice E" "NestedString (traced E) = NestedString E"
  "SetNestedField (traced E) = SetNestedField E" "SetNestedSlice (traced E) = SetNestedSlice E"
  "get_rollout (traced E) ns n = log_call (GetRollout ns n) (get_rollout E ns n)"
  "update_status (traced E) cr = log_call (UpdateStatus cr) (update_status E cr)"
  "get_vs (traced E) ns n = log_call (GetVS ns n) (get_vs E ns n)"
  "update_vs (traced E) v = log_call (UpdateVS v) (update_vs E v)"
  "get_deployment (traced E) ns n = log_call (GetDeployment ns n) (get_deployment E ns n)"
  "list_pods (traced E) ns ls = log_call (ListPods ns ls) (list_pods E ns ls)"
  "prom_query (traced E) u q t = log_call (PromQuery u q) (prom_query E u q t)"
  by (simp_all add: traced_def)

lemma call_now:
  assumes "call (time_Now (traced E)) s = (t, s')"
  shows "emits [ClockRead t] s s'"
  using assms by (auto simp: emits_def call_def traced_def split: prod.splits)

end
