(* ===== verification/Analyzer.thy ===== *)
theory Analyzer
  imports Metrics
begin

text \<open>
  \<open>internal/controller/metrics_analyzer.go\<close>: one cycle of Wald's sequential probability ratio
  test. The loop body is \<open>sprt_metric\<close> (queries and early exits) over \<open>sprt_samples\<close> (the
  arithmetic on four counter values); \<open>sprt_loop\<close> is the loop over the metrics and \<open>RunSPRT\<close>
  the function.
\<close>

section \<open>Constants\<close>

text \<open>
  \<open>epsilon\<close> is an untyped constant: \<open>1 - epsilon\<close> is computed exactly and rounded once.
\<close>

definition epsilon :: float64 where
  "epsilon = f64_lit 1 10000000000"

definition one_minus_epsilon :: float64 where
  "one_minus_epsilon = f64_lit 9999999999 10000000000"

definition f64_1 :: float64 where
  "f64_1 = f64_of_int 1"

definition decision_pending :: string where "decision_pending = ''pending''"
definition decision_promote :: string where "decision_promote = ''promote''"
definition decision_rollback :: string where "decision_rollback = ''rollback''"

lemma decisions_distinct [simp]:
  "decision_pending \<noteq> decision_promote" "decision_pending \<noteq> decision_rollback"
  "decision_promote \<noteq> decision_pending" "decision_promote \<noteq> decision_rollback"
  "decision_rollback \<noteq> decision_pending" "decision_rollback \<noteq> decision_promote"
  by (simp_all add: decision_pending_def decision_promote_def decision_rollback_def)

datatype SPRTDecision = SPRTContinue | SPRTPromote | SPRTRollback

section \<open>Looking up a metric's state\<close>

definition init_state :: "string \<Rightarrow> sprt_metric_state" where
  "init_state name =
    \<lparr> state_Name = name, LogLikelihood = f64_0, Observations = 0, Failures = 0,
      BaselineRate = f64_0, LastCanaryTotal = f64_0, LastCanaryFailure = f64_0,
      Decision = decision_pending \<rparr>"

fun findOrInitState :: "sprt_metric_state list \<Rightarrow> string \<Rightarrow> sprt_metric_state" where
  "findOrInitState [] name = init_state name"
| "findOrInitState (s # ss) name = (if state_Name s = name then s else findOrInitState ss name)"

section \<open>Queries\<close>

definition queryScalar ::
    "'w env \<Rightarrow> string \<Rightarrow> string \<Rightarrow> 'w sys \<Rightarrow> (go_error + float64 option) \<times> 'w sys" where
  "queryScalar E url query s =
     (let (now, s1) = call (time_Now E) s;
          (result, s2) = call (prom_query E url query now) s1
      in (case result of
            Inl err \<Rightarrow> Inl err
          | Inr (OtherValue ty) \<Rightarrow> Inl (PlainError (''expected instant vector, got '' @ ty))
          | Inr (Vector []) \<Rightarrow> Inr None
          | Inr (Vector (v # vs)) \<Rightarrow> Inr (Some v), s2))"

section \<open>The arithmetic of one metric\<close>

definition baseline_rate :: "float64 \<Rightarrow> float64 \<Rightarrow> float64" where
  "baseline_rate stableTotal stableFailure =
     (let p0 = f64_div stableFailure stableTotal
      in if f64_lt p0 epsilon then epsilon else p0)"

definition alternative_rate :: "float64 \<Rightarrow> float64 \<Rightarrow> float64" where
  "alternative_rate p0 delta =
     (let p1 = f64_add p0 delta
      in if f64_le f64_1 p1 then one_minus_epsilon else p1)"

definition evidence ::
    "(float64 \<Rightarrow> float64) \<Rightarrow> float64 \<Rightarrow> float64 \<Rightarrow> float64 \<Rightarrow> float64 \<Rightarrow> float64" where
  "evidence lg p0 p1 newTotal newFailures =
     (let newSuccesses = f64_sub newTotal newFailures
      in f64_add (f64_mul newFailures (lg (f64_div p1 p0)))
           (f64_mul newSuccesses (lg (f64_div (f64_sub f64_1 p1) (f64_sub f64_1 p0)))))"

definition accumulate ::
    "(float64 \<Rightarrow> float64) \<Rightarrow> float64 \<Rightarrow> float64 \<Rightarrow> float64 \<Rightarrow> float64 \<Rightarrow>
     sprt_metric_state \<Rightarrow> sprt_metric_state" where
  "accumulate lg p0 p1 canaryTotal canaryFailure st =
     (let newTotal = f64_sub canaryTotal (LastCanaryTotal st);
          newFailures = f64_sub canaryFailure (LastCanaryFailure st);
          st1 = (if f64_lt f64_0 newTotal
                 then st\<lparr> LogLikelihood := f64_add (LogLikelihood st) (evidence lg p0 p1 newTotal newFailures),
                          Observations := Observations st + int64_of_f64 newTotal,
                          Failures := Failures st + int64_of_f64 newFailures \<rparr>
                 else st)
      in st1\<lparr> LastCanaryTotal := canaryTotal, LastCanaryFailure := canaryFailure, BaselineRate := p0 \<rparr>)"

definition counter_reset :: "sprt_metric_state \<Rightarrow> float64 \<Rightarrow> float64 \<Rightarrow> bool" where
  "counter_reset st canaryTotal canaryFailure \<longleftrightarrow>
     f64_lt (f64_sub canaryTotal (LastCanaryTotal st)) f64_0 \<or>
     f64_lt (f64_sub canaryFailure (LastCanaryFailure st)) f64_0"

definition reset_state :: "string \<Rightarrow> float64 \<Rightarrow> float64 \<Rightarrow> float64 \<Rightarrow> sprt_metric_state" where
  "reset_state name canaryTotal canaryFailure p0 =
     (init_state name)\<lparr> LastCanaryTotal := canaryTotal, LastCanaryFailure := canaryFailure,
                        BaselineRate := p0 \<rparr>"

text \<open>\<open>metric %q: evidence of degradation (...)\<close>; the bytes of the non-ASCII letters are spelt out.\<close>

definition rollback_reason ::
    "string \<Rightarrow> float64 \<Rightarrow> float64 \<Rightarrow> float64 \<Rightarrow> int64 \<Rightarrow> int64 \<Rightarrow> string" where
  "rollback_reason name llr upper p0 obs fails =
     ''metric '' @ fmt_q name @ '': evidence of degradation ('' @ [CHR 0xCE, CHR 0x9B] @ ''='' @
     fmt_f False 4 llr @ '' '' @ [CHR 0xE2, CHR 0x89, CHR 0xA5] @ '' A='' @ fmt_f False 4 upper @
     '', p0='' @ fmt_f False 4 p0 @ '', observed='' @ fmt_d (sint obs) @ '', failures='' @
     fmt_d (sint fails) @ '')''"

text \<open>
  What the loop body decides: an error that ends the function, the metric's state for the next
  cycle, or a rollback that ends the function. The flag tells whether the state is published
  with \<open>recordSPRTMetricState\<close>.
\<close>

datatype metric_out =
    MetricError go_error
  | MetricState sprt_metric_state
  | MetricRollback sprt_metric_state string

definition sprt_samples ::
    "(float64 \<Rightarrow> float64) \<Rightarrow> float64 \<Rightarrow> float64 \<Rightarrow> sprt_metric \<Rightarrow> sprt_metric_state \<Rightarrow>
     float64 \<Rightarrow> float64 \<Rightarrow> float64 \<Rightarrow> float64 \<Rightarrow> metric_out \<times> bool" where
  "sprt_samples lg upper lower metric st canaryTotal canaryFailure stableTotal stableFailure =
     (if f64_eq stableTotal f64_0 then (MetricState st, False)
      else
        let p0 = baseline_rate stableTotal stableFailure;
            p1 = alternative_rate p0 (Delta metric)
        in if counter_reset st canaryTotal canaryFailure
           then (MetricState (reset_state (metric_Name metric) canaryTotal canaryFailure p0), False)
           else
             let st1 = accumulate lg p0 p1 canaryTotal canaryFailure st
             in if f64_le upper (LogLikelihood st1)
                then (MetricRollback (st1\<lparr>Decision := decision_rollback\<rparr>)
                        (rollback_reason (metric_Name metric) (LogLikelihood st1) upper p0
                           (Observations st1) (Failures st1)), True)
                else if f64_le (LogLikelihood st1) lower
                then (MetricState (st1\<lparr>Decision := decision_promote\<rparr>), True)
                else (MetricState st1, True))"

section \<open>The loop body\<close>

definition query_error :: "sprt_metric \<Rightarrow> string \<Rightarrow> go_error \<Rightarrow> go_error" where
  "query_error metric which err =
     Wrapped (''metric '' @ fmt_q (metric_Name metric) @ '' '' @ which) err"

definition metric_decided :: "sprt_metric_state \<Rightarrow> bool" where
  "metric_decided st \<longleftrightarrow> Decision st = decision_promote \<or> Decision st = decision_rollback"

definition sprt_publish :: "string \<Rightarrow> string \<Rightarrow> metric_out \<times> bool \<Rightarrow> 'w sys \<Rightarrow> metric_out \<times> 'w sys" where
  "sprt_publish ns ro res s =
     (case res of
        (MetricState st, True) \<Rightarrow> (MetricState st, gauge_update (recordSPRTMetricState ns ro st) s)
      | (MetricRollback st r, True) \<Rightarrow> (MetricRollback st r, gauge_update (recordSPRTMetricState ns ro st) s)
      | (out, _) \<Rightarrow> (out, s))"

definition sprt_metric ::
    "'w env \<Rightarrow> string \<Rightarrow> string \<Rightarrow> string \<Rightarrow> float64 \<Rightarrow> float64 \<Rightarrow> sprt_metric_state list \<Rightarrow>
     sprt_metric \<Rightarrow> 'w sys \<Rightarrow> metric_out \<times> 'w sys" where
  "sprt_metric E url ns ro upper lower currentState metric s =
     (let st = findOrInitState currentState (metric_Name metric) in
      if metric_decided st then (MetricState st, s)
      else
        let (ct, s1) = queryScalar E url (CanaryTotalQuery metric) s in
        case ct of Inl err \<Rightarrow> (MetricError (query_error metric ''canaryTotalQuery'' err), s1)
        | Inr canaryTotal \<Rightarrow>
        let (cf, s2) = queryScalar E url (CanaryFailureQuery metric) s1 in
        case cf of Inl err \<Rightarrow> (MetricError (query_error metric ''canaryFailureQuery'' err), s2)
        | Inr canaryFailure \<Rightarrow>
        let (tot, s3) = queryScalar E url (StableTotalQuery metric) s2 in
        case tot of Inl err \<Rightarrow> (MetricError (query_error metric ''stableTotalQuery'' err), s3)
        | Inr stableTotal \<Rightarrow>
        let (sf, s4) = queryScalar E url (StableFailureQuery metric) s3 in
        case sf of Inl err \<Rightarrow> (MetricError (query_error metric ''stableFailureQuery'' err), s4)
        | Inr stableFailure \<Rightarrow>
        (case (canaryTotal, canaryFailure, stableTotal, stableFailure) of
           (Some ctv, Some cfv, Some stv, Some sfv) \<Rightarrow>
             sprt_publish ns ro (sprt_samples (math_Log E) upper lower metric st ctv cfv stv sfv) s4
         | _ \<Rightarrow> (MetricState st, s4)))"

section \<open>The loop and the function\<close>

datatype loop_out =
    LoopError go_error
  | LoopRollback "sprt_metric_state list" string
  | LoopDone "sprt_metric_state list"

fun sprt_loop ::
    "'w env \<Rightarrow> string \<Rightarrow> string \<Rightarrow> string \<Rightarrow> float64 \<Rightarrow> float64 \<Rightarrow> sprt_metric_state list \<Rightarrow>
     sprt_metric list \<Rightarrow> sprt_metric_state list \<Rightarrow> 'w sys \<Rightarrow> loop_out \<times> 'w sys" where
  "sprt_loop E url ns ro upper lower cur [] updated s = (LoopDone updated, s)"
| "sprt_loop E url ns ro upper lower cur (m # ms) updated s =
     (case sprt_metric E url ns ro upper lower cur m s of
        (MetricError err, s1) \<Rightarrow> (LoopError err, s1)
      | (MetricRollback st reason, s1) \<Rightarrow> (LoopRollback (updated @ [st]) reason, s1)
      | (MetricState st, s1) \<Rightarrow> sprt_loop E url ns ro upper lower cur ms (updated @ [st]) s1)"

definition all_promote :: "sprt_metric_state list \<Rightarrow> bool" where
  "all_promote sts \<longleftrightarrow> sts \<noteq> [] \<and> list_all (\<lambda>st. Decision st = decision_promote) sts"

definition upper_bound :: "(float64 \<Rightarrow> float64) \<Rightarrow> sprt_analysis \<Rightarrow> float64" where
  "upper_bound lg a = lg (f64_div (f64_sub f64_1 (Beta a)) (Alpha a))"

definition lower_bound :: "(float64 \<Rightarrow> float64) \<Rightarrow> sprt_analysis \<Rightarrow> float64" where
  "lower_bound lg a = lg (f64_div (Beta a) (f64_sub f64_1 (Alpha a)))"

definition RunSPRT ::
    "'w env \<Rightarrow> string \<Rightarrow> string \<Rightarrow> string \<Rightarrow> sprt_analysis \<Rightarrow> sprt_metric_state list \<Rightarrow> 'w sys \<Rightarrow>
     (go_error + SPRTDecision \<times> sprt_metric_state list \<times> string) \<times> 'w sys" where
  "RunSPRT E prometheusURL ns rolloutName analysis currentState s =
     (case prom_client E prometheusURL of
        Some err \<Rightarrow> (Inl (Wrapped ''create prometheus client'' err), s)
      | None \<Rightarrow>
          let upper = upper_bound (math_Log E) analysis;
              lower = lower_bound (math_Log E) analysis;
              s0 = gauge_update (recordSPRTBoundaries ns rolloutName upper lower) s
          in case sprt_loop E prometheusURL ns rolloutName upper lower currentState
                    (Metrics analysis) [] s0 of
               (LoopError err, s1) \<Rightarrow> (Inl err, s1)
             | (LoopRollback updated reason, s1) \<Rightarrow> (Inr (SPRTRollback, updated, reason), s1)
             | (LoopDone updated, s1) \<Rightarrow>
                 if all_promote updated
                 then (Inr (SPRTPromote, updated,
                         ''all metrics passed SPRT ('' @ [CHR 0xCE, CHR 0x9B] @ '' '' @
                         [CHR 0xE2, CHR 0x89, CHR 0xA4] @ '' B for all)''), s1)
                 else (Inr (SPRTContinue, updated,
                         ''SPRT: collecting evidence ('' @ fmt_d (int (length updated)) @
                         '' metrics tracked)''), s1))"

section \<open>The decision of the function\<close>

lemma RunSPRT_cases:
  assumes "RunSPRT E url ns ro a cur s = (Inr (dec, sts, reason), s')"
  obtains s0 where "dec = SPRTRollback"
      "sprt_loop E url ns ro (upper_bound (math_Log E) a) (lower_bound (math_Log E) a) cur (Metrics a) [] s0
         = (LoopRollback sts reason, s')"
    | s0 where "dec = (if all_promote sts then SPRTPromote else SPRTContinue)"
      "sprt_loop E url ns ro (upper_bound (math_Log E) a) (lower_bound (math_Log E) a) cur (Metrics a) [] s0
         = (LoopDone sts, s')"
  using assms
  by (auto simp: RunSPRT_def Let_def split: option.splits prod.splits loop_out.splits if_splits)

lemma RunSPRT_promote:
  assumes "RunSPRT E url ns ro a cur s = (Inr (dec, sts, reason), s')" "dec \<noteq> SPRTRollback"
  shows "all_promote sts \<longleftrightarrow> dec = SPRTPromote"
  using assms by (elim RunSPRT_cases) (auto split: if_splits)

end
