(* ===== verification/Unstructured.thy ===== *)
theory Unstructured
  imports Env
begin

text \<open>
  The helpers of \<open>k8s.io/apimachinery/pkg/apis/meta/v1/unstructured\<close>, which the controller uses
  to read and write an Istio object it has no Go type for. \<open>unstructured_api\<close> states the part
  of their documentation the controller relies on; the functions below, written from that
  documentation, provide it and serve the concrete runs.
\<close>

section \<open>The contract\<close>

locale unstructured_api =
  fixes E :: "'w env"
  assumes set_field: "SetNestedField E m v [f] = Inr (m(f \<mapsto> v))"
    and set_slice: "SetNestedSlice E m xs [f] = Inr (m(f \<mapsto> JSlice xs))"
    and get_slice_found: "m f = Some (JSlice xs) \<Longrightarrow> NestedSlice E m [f] = Inr (Some xs)"
    and get_slice_missing: "m f = None \<Longrightarrow> NestedSlice E m [f] = Inr None"
    and nested_set_slice: "NestedSlice E m [f, g] = Inr (Some xs) \<Longrightarrow>
        \<exists>m'. SetNestedSlice E m ys [f, g] = Inr m' \<and> NestedSlice E m' [f, g] = Inr (Some ys) \<and>
             (\<forall>h. h \<noteq> f \<longrightarrow> m' h = m h)"
    and string_local: "m f = m' f \<Longrightarrow> NestedString E m (f # fs) = NestedString E m' (f # fs)"
begin

lemma get_slice_set: "NestedSlice E (m(f \<mapsto> JSlice xs)) [f] = Inr (Some xs)"
  by (rule get_slice_found) simp

end

section \<open>The functions on decoded JSON\<close>

fun json_field :: "json \<Rightarrow> string list \<Rightarrow> go_error + json option" where
  "json_field v [] = Inr (Some v)"
| "json_field (JMap m) (f # fs) =
     (case m f of None \<Rightarrow> Inr None | Some v \<Rightarrow> json_field v fs)"
| "json_field JNull (f # fs) = Inr None"
| "json_field v (f # fs) = Inl (PlainError ''accessor error: expected map[string]interface{}'')"

definition json_slice :: "jmap \<Rightarrow> string list \<Rightarrow> go_error + json list option" where
  "json_slice m fs =
     (case json_field (JMap m) fs of
        Inl err \<Rightarrow> Inl err
      | Inr None \<Rightarrow> Inr None
      | Inr (Some (JSlice xs)) \<Rightarrow> Inr (Some xs)
      | Inr (Some _) \<Rightarrow> Inl (PlainError ''accessor error: expected []interface{}''))"

definition json_string :: "jmap \<Rightarrow> string list \<Rightarrow> go_error + string option" where
  "json_string m fs =
     (case json_field (JMap m) fs of
        Inl err \<Rightarrow> Inl err
      | Inr None \<Rightarrow> Inr None
      | Inr (Some (JString s)) \<Rightarrow> Inr (Some s)
      | Inr (Some _) \<Rightarrow> Inl (PlainError ''accessor error: expected string''))"

fun json_set :: "jmap \<Rightarrow> json \<Rightarrow> string list \<Rightarrow> go_error + jmap" where
  "json_set m v [] = Inl (PlainError ''value cannot be set'')"
| "json_set m v [f] = Inr (m(f \<mapsto> v))"
| "json_set m v (f # g # fs) =
     (case m f of
        Some (JMap m1) \<Rightarrow>
          (case json_set m1 v (g # fs) of Inl err \<Rightarrow> Inl err | Inr m2 \<Rightarrow> Inr (m(f \<mapsto> JMap m2)))
      | None \<Rightarrow>
          (case json_set Map.empty v (g # fs) of Inl err \<Rightarrow> Inl err | Inr m2 \<Rightarrow> Inr (m(f \<mapsto> JMap m2)))
      | Some _ \<Rightarrow> Inl (PlainError ''value cannot be set''))"

definition json_set_slice :: "jmap \<Rightarrow> json list \<Rightarrow> string list \<Rightarrow> go_error + jmap" where
  "json_set_slice m xs fs = json_set m (JSlice xs) fs"

text \<open>Any environment with these four helpers keeps the contract.\<close>

definition with_json_api :: "'w env \<Rightarrow> 'w env" where
  "with_json_api E =
     E\<lparr> NestedSlice := json_slice, NestedString := json_string, SetNestedField := json_set,
        SetNestedSlice := json_set_slice \<rparr>"

interpretation jsonapi: unstructured_api "with_json_api E" for E :: "'w env"
proof (unfold_locales, goal_cases)
  case (1 m v f)
  show ?case by (simp add: with_json_api_def)
next
  case (2 m xs f)
  show ?case by (simp add: with_json_api_def json_set_slice_def)
next
  case (3 m f xs)
  then show ?case by (simp add: with_json_api_def json_slice_def)
next
  case (4 m f)
  then show ?case by (simp add: with_json_api_def json_slice_def)
next
  case (5 m f g xs ys)
  then obtain v where v: "m f = Some v" "json_field v [g] = Inr (Some (JSlice xs))"
    by (auto simp: with_json_api_def json_slice_def split: option.splits json.splits sum.splits)
  then obtain m1 where m1: "m f = Some (JMap m1)" by (cases v) auto
  show ?case
    by (simp add: with_json_api_def json_set_slice_def json_slice_def m1)
next
  case (6 m f m' fs)
  then show ?case by (simp add: with_json_api_def json_string_def)
qed

end
