(* ===== verification/VirtualService.thy ===== *)
theory VirtualService
  imports Metrics Unstructured
begin

text \<open>
  \<open>internal/controller/virtualservice.go\<close>: \<open>SetVirtualServiceWeights\<close> reads an Istio
  VirtualService, sets the \<open>weight\<close> of the destinations in its first HTTP route whose host is
  the stable or the canary service, and writes the object back.
\<close>

section \<open>The weights of one route list\<close>

definition dest_host :: "'w env \<Rightarrow> jmap \<Rightarrow> string" where
  "dest_host E route =
     (case NestedString E route [''destination'', ''host''] of
        Inr (Some h) \<Rightarrow> h
      | _ \<Rightarrow> '''')"

text \<open>
  The body of the loop for one destination: \<open>Inl\<close> is the early error return, a destination
  that is not an object is passed over.
\<close>

definition set_route_weight ::
    "'w env \<Rightarrow> string \<Rightarrow> int32 \<Rightarrow> string \<Rightarrow> int32 \<Rightarrow> json \<Rightarrow> go_error + json" where
  "set_route_weight E stableHost stableWeight canaryHost canaryWeight r =
     (case r of
        JMap route \<Rightarrow>
          (let host = dest_host E route in
           if host = stableHost then
             (case SetNestedField E route (JInt (int64_of_int32 stableWeight)) [''weight''] of
                Inl err \<Rightarrow> Inl (Wrapped ''set stable weight'' err)
              | Inr route' \<Rightarrow> Inr (JMap route'))
           else if host = canaryHost then
             (case SetNestedField E route (JInt (int64_of_int32 canaryWeight)) [''weight''] of
                Inl err \<Rightarrow> Inl (Wrapped ''set canary weight'' err)
              | Inr route' \<Rightarrow> Inr (JMap route'))
           else Inr (JMap route))
      | _ \<Rightarrow> Inr r)"

fun set_route_weights ::
    "'w env \<Rightarrow> string \<Rightarrow> int32 \<Rightarrow> string \<Rightarrow> int32 \<Rightarrow> json list \<Rightarrow> go_error + json list" where
  "set_route_weights E sh sw ch cw [] = Inr []"
| "set_route_weights E sh sw ch cw (r # rs) =
     (case set_route_weight E sh sw ch cw r of
        Inl err \<Rightarrow> Inl err
      | Inr r' \<Rightarrow>
          (case set_route_weights E sh sw ch cw rs of
             Inl err \<Rightarrow> Inl err
           | Inr rs' \<Rightarrow> Inr (r' # rs')))"

section \<open>The object\<close>

text \<open>\<open>VirtualService ns/name\<close> and a message after it, the text of the function's errors\<close>

definition vs_error :: "string \<Rightarrow> string \<Rightarrow> string \<Rightarrow> go_error" where
  "vs_error ns vsName msg = PlainError (''VirtualService '' @ ns @ ''/'' @ vsName @ msg)"

definition vs_with_weights ::
    "'w env \<Rightarrow> string \<Rightarrow> string \<Rightarrow> string \<Rightarrow> int32 \<Rightarrow> string \<Rightarrow> int32 \<Rightarrow> jmap \<Rightarrow> go_error + jmap" where
  "vs_with_weights E ns vsName sh sw ch cw vs =
     (case NestedSlice E vs [''spec'', ''http''] of
        Inr (Some (first # others)) \<Rightarrow>
          (case first of
             JMap firstRoute \<Rightarrow>
               (case NestedSlice E firstRoute [''route''] of
                  Inr (Some routes) \<Rightarrow>
                    (case set_route_weights E sh sw ch cw routes of
                       Inl err \<Rightarrow> Inl err
                     | Inr routes' \<Rightarrow>
                         (case SetNestedSlice E firstRoute routes' [''route''] of
                            Inl err \<Rightarrow> Inl (Wrapped ''set routes'' err)
                          | Inr firstRoute' \<Rightarrow>
                              (case SetNestedSlice E vs (JMap firstRoute' # others) [''spec'', ''http''] of
                                 Inl err \<Rightarrow> Inl (Wrapped ''set http routes'' err)
                               | Inr vs' \<Rightarrow> Inr vs')))
                | _ \<Rightarrow> Inl (vs_error ns vsName '': spec.http[0].route not found''))
           | _ \<Rightarrow> Inl (vs_error ns vsName '': spec.http[0] is not a map''))
      | _ \<Rightarrow> Inl (vs_error ns vsName '' has no spec.http routes''))"

definition SetVirtualServiceWeights ::
    "'w env \<Rightarrow> string \<Rightarrow> string \<Rightarrow> string \<Rightarrow> int32 \<Rightarrow> string \<Rightarrow> int32 \<Rightarrow> 'w sys \<Rightarrow> go_error option \<times> 'w sys" where
  "SetVirtualServiceWeights E ns vsName stableHost stableWeight canaryHost canaryWeight s =
     (let (got, s1) = call (get_vs E ns vsName) s in
      case got of
        Inl err \<Rightarrow> (Some (Wrapped (''get VirtualService '' @ ns @ ''/'' @ vsName) err), s1)
      | Inr vs \<Rightarrow>
          (case vs_with_weights E ns vsName stableHost stableWeight canaryHost canaryWeight vs of
             Inl err \<Rightarrow> (Some err, s1)
           | Inr vs' \<Rightarrow>
               (let (err, s2) = call (update_vs E vs') s1 in
                case err of
                  Some e \<Rightarrow> (Some (Wrapped (''update VirtualService '' @ ns @ ''/'' @ vsName) e), s2)
                | None \<Rightarrow> (None, s2))))"

section \<open>What the function writes\<close>

text \<open>The destinations of the first HTTP route, as the tests read them back.\<close>

definition vs_routes :: "'w env \<Rightarrow> jmap \<Rightarrow> json list option" where
  "vs_routes E vs =
     (case NestedSlice E vs [''spec'', ''http''] of
        Inr (Some (JMap firstRoute # others)) \<Rightarrow>
          (case NestedSlice E firstRoute [''route''] of
             Inr (Some routes) \<Rightarrow> Some routes
           | _ \<Rightarrow> None)
      | _ \<Rightarrow> None)"

text \<open>One destination with its weight as requested, everything else kept.\<close>

definition weighted_route ::
    "'w env \<Rightarrow> string \<Rightarrow> int32 \<Rightarrow> string \<Rightarrow> int32 \<Rightarrow> json \<Rightarrow> json" where
  "weighted_route E sh sw ch cw r =
     (case r of
        JMap m \<Rightarrow>
          if dest_host E m = sh then JMap (m(''weight'' \<mapsto> JInt (int64_of_int32 sw)))
          else if dest_host E m = ch then JMap (m(''weight'' \<mapsto> JInt (int64_of_int32 cw)))
          else JMap m
      | _ \<Rightarrow> r)"

context unstructured_api begin

lemma set_route_weights_eq:
  "set_route_weights E sh sw ch cw rs = Inr (map (weighted_route E sh sw ch cw) rs)"
proof (induction rs)
  case (Cons r rs)
  have "set_route_weight E sh sw ch cw r = Inr (weighted_route E sh sw ch cw r)"
    by (cases r) (simp_all add: set_route_weight_def weighted_route_def Let_def set_field)
  then show ?case by (simp add: Cons.IH)
qed simp

lemma dest_host_weight: "dest_host E (m(''weight'' \<mapsto> v)) = dest_host E m"
  using string_local [of "m(''weight'' \<mapsto> v)" "''destination''" m "[''host'']"]
  by (simp add: dest_host_def)

lemma weighted_route_overwrites:
  "weighted_route E sh sw ch cw (weighted_route E sh sw0 ch cw0 r) = weighted_route E sh sw ch cw r"
  by (cases r) (simp_all add: weighted_route_def dest_host_weight)

lemma vs_with_weights_routes:
  assumes "vs_routes E vs = Some rs"
  shows "\<exists>vs'. vs_with_weights E ns n sh sw ch cw vs = Inr vs' \<and>
      vs_routes E vs' = Some (map (weighted_route E sh sw ch cw) rs) \<and>
      (\<forall>h. h \<noteq> ''spec'' \<longrightarrow> vs' h = vs h)"
proof -
  obtain m others where http: "NestedSlice E vs [''spec'', ''http''] = Inr (Some (JMap m # others))"
      and rt: "NestedSlice E m [''route''] = Inr (Some rs)"
    using assms
    by (auto simp: vs_routes_def split: sum.splits option.splits list.splits json.splits)
  let ?rs = "map (weighted_route E sh sw ch cw) rs"
  let ?m = "m(''route'' \<mapsto> JSlice ?rs)"
  obtain vs' where vs': "SetNestedSlice E vs (JMap ?m # others) [''spec'', ''http''] = Inr vs'"
      "NestedSlice E vs' [''spec'', ''http''] = Inr (Some (JMap ?m # others))"
      "\<forall>h. h \<noteq> ''spec'' \<longrightarrow> vs' h = vs h"
    using nested_set_slice [OF http] by blast
  have "vs_with_weights E ns n sh sw ch cw vs = Inr vs'"
    by (simp add: vs_with_weights_def http rt set_route_weights_eq set_slice vs'(1))
  moreover have "vs_routes E vs' = Some ?rs"
    by (simp add: vs_routes_def vs'(2) get_slice_set)
  ultimately show ?thesis using vs'(3) by blast
qed

end

lemma vs_with_weights_no_routes:
  assumes "vs_routes E vs = None"
  shows "\<exists>err. vs_with_weights E ns n sh sw ch cw vs = Inl err"
  using assms
  by (auto simp: vs_with_weights_def vs_routes_def
      split: sum.splits option.splits list.splits json.splits)

section \<open>The calls it makes\<close>

lemma SetVirtualServiceWeights_calls:
  assumes "SetVirtualServiceWeights (traced E) ns n sh sw ch cw s = (err, s')"
  obtains "emits [GetVS ns n] s s'" "err \<noteq> None"
  | v where "emits [GetVS ns n, UpdateVS v] s s'"
      "vs_with_weights (traced E) ns n sh sw ch cw (projr (fst (get_vs E ns n (fst (world s))))) = Inr v"
proof -
  obtain got s1 where c1: "call (get_vs (traced E) ns n) s = (got, s1)" by fastforce
  have e1: "emits [GetVS ns n] s s1" and got: "got = fst (get_vs E ns n (fst (world s)))"
    using c1 call_log [of "GetVS ns n"] by simp_all
  show thesis
  proof (cases "\<exists>vs v. got = Inr vs \<and> vs_with_weights (traced E) ns n sh sw ch cw vs = Inr v")
    case True
    then obtain vs v where v: "got = Inr vs" "vs_with_weights (traced E) ns n sh sw ch cw vs = Inr v"
      by blast
    obtain e s2 where c2: "call (update_vs (traced E) v) s1 = (e, s2)" by fastforce
    then have "emits [UpdateVS v] s1 s2" using call_log [of "UpdateVS v"] by simp
    with e1 have "emits [GetVS ns n, UpdateVS v] s s2" using emits_trans by fastforce
    moreover have "s2 = s'"
      using assms c1 c2 v by (auto simp: SetVirtualServiceWeights_def split: option.splits)
    ultimately show thesis using v got that(2) by simp
  next
    case False
    then have "s1 = s'" "err \<noteq> None"
      using assms c1 by (auto simp: SetVirtualServiceWeights_def split: sum.splits)
    then show thesis using e1 that(1) by simp
  qed
qed

end
