(* ===== verification/Reconciler.thy ===== *)
theory Reconciler
  imports Analyzer VirtualService
begin

text \<open>
  \<open>internal/controller/reconciler.go\<close>: one reconcile cycle of a CanaryRollout. \<open>Reconcile\<close> is
  split where the function has its section comments; each part is the code from there to the
  function's end, and a part that falls through calls the next. The result is the
  \<open>RequeueAfter\<close> duration and the error, or a panic.
\<close>

type_synonym reconcile_result = "(duration \<times> go_error option) outcome"

definition readinessTimeout :: duration where
  "readinessTimeout = i64 5 * Minute"

section \<open>Status writes\<close>

definition with_status ::
    "rollout_phase \<Rightarrow> int32 \<Rightarrow> int32 \<Rightarrow> gotime \<Rightarrow> string \<Rightarrow> canary_rollout \<Rightarrow> canary_rollout" where
  "with_status phase step weight now message cr =
     cr\<lparr> Status := (Status cr)\<lparr> Phase := phase, CurrentStep := step, CurrentWeight := weight,
                                LastTransitionTime := now, Message := message \<rparr> \<rparr>"

definition setStatus ::
    "'w env \<Rightarrow> canary_rollout \<Rightarrow> rollout_phase \<Rightarrow> int32 \<Rightarrow> int32 \<Rightarrow> string \<Rightarrow> 'w sys \<Rightarrow>
     go_error option \<times> 'w sys" where
  "setStatus E rollout phase step weight message s =
     (let (now, s1) = call (time_Now E) s;
          rollout' = with_status phase step weight now message rollout;
          s2 = gauge_update (recordRolloutPhase (Namespace rollout') (Name rollout') phase) s1;
          s3 = gauge_update (recordCanaryWeight (Namespace rollout') (Name rollout') weight) s2
      in call (update_status E rollout') s3)"

text \<open>\<open>return ctrl.Result{RequeueAfter: d}, r.setStatus(...)\<close>\<close>

definition return_status ::
    "'w env \<Rightarrow> canary_rollout \<Rightarrow> duration \<Rightarrow> rollout_phase \<Rightarrow> int32 \<Rightarrow> int32 \<Rightarrow> string \<Rightarrow> 'w sys \<Rightarrow>
     reconcile_result \<times> 'w sys" where
  "return_status E rollout d phase step weight message s =
     (let (err, s') = setStatus E rollout phase step weight message s in (Ret (d, err), s'))"

text \<open>\<open>r.Status().Update(ctx, &rollout)\<close>, then the result with its delay unless it failed\<close>

definition return_update ::
    "'w env \<Rightarrow> canary_rollout \<Rightarrow> duration \<Rightarrow> 'w sys \<Rightarrow> reconcile_result \<times> 'w sys" where
  "return_update E rollout d s =
     (let (err, s') = call (update_status E rollout) s in
      case err of
        Some e \<Rightarrow> (Ret (0, Some e), s')
      | None \<Rightarrow> (Ret (d, None), s'))"

definition set_weights ::
    "'w env \<Rightarrow> canary_rollout \<Rightarrow> int32 \<Rightarrow> int32 \<Rightarrow> 'w sys \<Rightarrow> go_error option \<times> 'w sys" where
  "set_weights E cr stableWeight canaryWeight s =
     SetVirtualServiceWeights E (Namespace cr) (VirtualServiceRef (Spec cr))
       (StableServiceRef (Spec cr)) stableWeight (CanaryServiceRef (Spec cr)) canaryWeight s"

section \<open>Pod readiness\<close>

definition pod_ready :: "pod \<Rightarrow> bool" where
  "pod_ready p = list_ex (\<lambda>c. cond_Type c = ''Ready'' \<and> cond_Status c = ''True'') p"

definition isCanaryReady ::
    "'w env \<Rightarrow> string \<Rightarrow> string \<Rightarrow> 'w sys \<Rightarrow> (go_error + bool) outcome \<times> 'w sys" where
  "isCanaryReady E ns deploymentName s =
     (let (got, s1) = call (get_deployment E ns deploymentName) s in
      case got of
        Inl err \<Rightarrow> (Ret (Inl (Wrapped (''get deployment '' @ deploymentName) err)), s1)
      | Inr deploy \<Rightarrow>
          (case MatchLabels deploy of
             None \<Rightarrow> (Panic ''nil pointer dereference'', s1)
           | Some labels \<Rightarrow>
               let (listed, s2) = call (list_pods E ns labels) s1 in
               (case listed of
                  Inl err \<Rightarrow> (Ret (Inl (Wrapped (''list pods for '' @ deploymentName) err)), s2)
                | Inr pods \<Rightarrow> (Ret (Inr (list_ex pod_ready pods)), s2))))"

section \<open>Advance to the next step\<close>

definition reset_gauges :: "canary_rollout \<Rightarrow> gauges \<Rightarrow> gauges" where
  "reset_gauges cr g =
     (case Analysis (Spec cr) of
        None \<Rightarrow> g
      | Some a \<Rightarrow> reset_series (Namespace cr) (Name cr) (Metrics a) g)"

definition reconcile_advance ::
    "'w env \<Rightarrow> canary_rollout \<Rightarrow> int64 \<Rightarrow> 'w sys \<Rightarrow> reconcile_result \<times> 'w sys" where
  "reconcile_advance E rollout currentStep s =
     (let s1 = gauge_update (reset_gauges rollout) s;
          rollout1 = rollout\<lparr> Status := (Status rollout)\<lparr> AnalysisState := [] \<rparr> \<rparr>;
          nextStep = int32_of_int64 (currentStep + 1)
      in if int (length (Steps (Spec rollout))) \<le> sint nextStep
         then return_status E rollout1 0 PhasePromoted nextStep 100
                ''Rollout promoted, 100% traffic to canary'' s1
         else return_status E rollout1 Second PhaseRunning nextStep (CurrentWeight (Status rollout1))
                (''Advancing to step '' @ fmt_d (sint nextStep)) s1)"

section \<open>The SPRT gate and the timer\<close>

definition reconcile_gate ::
    "'w env \<Rightarrow> canary_rollout \<Rightarrow> int64 \<Rightarrow> duration \<Rightarrow> duration \<Rightarrow> 'w sys \<Rightarrow> reconcile_result \<times> 'w sys" where
  "reconcile_gate E rollout currentStep pauseDuration analysisInterval s =
     (if dur_lt 0 pauseDuration \<and> Analysis (Spec rollout) \<noteq> None \<and>
         \<not> all_promote (AnalysisState (Status rollout))
      then
        let msg = ''Step '' @ fmt_d (sint currentStep) @ '': timer elapsed, waiting for SPRT promote decision''
        in return_update E (rollout\<lparr> Status := (Status rollout)\<lparr> Message := msg \<rparr> \<rparr>) analysisInterval s
      else reconcile_advance E rollout currentStep s)"

definition reconcile_timer ::
    "'w env \<Rightarrow> canary_rollout \<Rightarrow> int64 \<Rightarrow> duration \<Rightarrow> duration \<Rightarrow> duration \<Rightarrow> 'w sys \<Rightarrow>
     reconcile_result \<times> 'w sys" where
  "reconcile_timer E rollout currentStep pauseDuration elapsed analysisInterval s =
     (if dur_lt elapsed pauseDuration
      then
        let remaining = pauseDuration - elapsed;
            requeue = (if dur_lt remaining analysisInterval then remaining else analysisInterval)
        in return_update E rollout requeue s
      else reconcile_gate E rollout currentStep pauseDuration analysisInterval s)"

section \<open>The analysis\<close>

definition analysis_interval :: "rollout_spec \<Rightarrow> duration" where
  "analysis_interval sp =
     (case Analysis sp of
        None \<Rightarrow> seconds 10
      | Some a \<Rightarrow> if 0 < sint (AnalysisIntervalSeconds a) then seconds (AnalysisIntervalSeconds a)
                  else seconds 10)"

definition with_analysis :: "sprt_metric_state list \<Rightarrow> string \<Rightarrow> canary_rollout \<Rightarrow> canary_rollout" where
  "with_analysis states reason cr =
     cr\<lparr> Status := (Status cr)\<lparr> AnalysisState := states, Message := reason \<rparr> \<rparr>"

definition reconcile_analysis ::
    "'w env \<Rightarrow> canary_rollout \<Rightarrow> int64 \<Rightarrow> duration \<Rightarrow> duration \<Rightarrow> 'w sys \<Rightarrow> reconcile_result \<times> 'w sys" where
  "reconcile_analysis E rollout currentStep pauseDuration elapsed s =
     (let interval = analysis_interval (Spec rollout) in
      case (PrometheusURL (Spec rollout) \<noteq> '''', Analysis (Spec rollout)) of
        (True, Some analysis) \<Rightarrow>
          (let (res, s1) = RunSPRT E (PrometheusURL (Spec rollout)) (Namespace rollout) (Name rollout)
                             analysis (AnalysisState (Status rollout)) s in
           case res of
             Inl err \<Rightarrow> (Ret (seconds 15, None), s1)
           | Inr (decision, newState, reason) \<Rightarrow>
               let rollout1 = with_analysis newState reason rollout in
               if decision = SPRTRollback
               then
                 let (ignored, s2) = set_weights E rollout1 100 0 s1
                 in return_status E rollout1 0 PhaseAborted (int32_of_int64 currentStep) 0
                      (''SPRT rollback at step '' @ fmt_d (sint currentStep) @ '': '' @ reason) s2
               else reconcile_timer E rollout1 currentStep pauseDuration elapsed interval s1)
      | _ \<Rightarrow> reconcile_timer E rollout currentStep pauseDuration elapsed interval s)"

section \<open>The current step\<close>

definition reconcile_step ::
    "'w env \<Rightarrow> canary_rollout \<Rightarrow> int64 \<Rightarrow> canary_step \<Rightarrow> 'w sys \<Rightarrow> reconcile_result \<times> 'w sys" where
  "reconcile_step E rollout currentStep step s =
     (let pauseDuration = seconds (PauseSeconds step);
          (now, s1) = call (time_Now E) s;
          elapsed = time_Sub now (LastTransitionTime (Status rollout))
      in if CurrentWeight (Status rollout) \<noteq> Weight step
         then
           let canaryWeight = Weight step;
               stableWeight = 100 - canaryWeight;
               (err, s2) = set_weights E rollout stableWeight canaryWeight s1
           in case err of
                Some e \<Rightarrow> (Ret (0, Some (Wrapped (''set weights at step '' @ fmt_d (sint currentStep)) e)), s2)
              | None \<Rightarrow> return_status E rollout pauseDuration PhaseRunning (int32_of_int64 currentStep)
                          canaryWeight
                          (''Step '' @ fmt_d (sint currentStep) @ '': canary weight set to '' @
                           fmt_d (sint canaryWeight) @ ''%'') s2
         else reconcile_analysis E rollout currentStep pauseDuration elapsed s1)"

definition reconcile_not_ready ::
    "'w env \<Rightarrow> canary_rollout \<Rightarrow> 'w sys \<Rightarrow> reconcile_result \<times> 'w sys" where
  "reconcile_not_ready E rollout s =
     (let (now, s1) = call (time_Now E) s;
          elapsed = time_Sub now (LastTransitionTime (Status rollout))
      in if dur_lt readinessTimeout elapsed
         then
           let (ignored, s2) = set_weights E rollout 100 0 s1
           in return_status E rollout 0 PhaseFailed (CurrentStep (Status rollout)) 0
                ''Canary pods not ready, timeout exceeded'' s2
         else (Ret (seconds 10, None), s1))"

definition reconcile_running :: "'w env \<Rightarrow> canary_rollout \<Rightarrow> 'w sys \<Rightarrow> reconcile_result \<times> 'w sys" where
  "reconcile_running E rollout s =
     (let steps = Steps (Spec rollout);
          currentStep = int64_of_int32 (CurrentStep (Status rollout))
      in if int (length steps) \<le> sint currentStep
         then return_status E rollout 0 PhasePromoted (CurrentStep (Status rollout)) 100
                ''Rollout promoted, 100% traffic to canary'' s
         else
           let (ready, s1) = isCanaryReady E (Namespace rollout) (TargetRef (Spec rollout)) s
           in case ready of
                Panic p \<Rightarrow> (Panic p, s1)
              | Ret (Inl err) \<Rightarrow> (Ret (0, Some (Wrapped ''check canary readiness'' err)), s1)
              | Ret (Inr False) \<Rightarrow> reconcile_not_ready E rollout s1
              | Ret (Inr True) \<Rightarrow>
                  if sint currentStep < 0 then (Panic ''index out of range'', s1)
                  else reconcile_step E rollout currentStep (steps ! nat (sint currentStep)) s1)"

section \<open>Abort, pause, initialise\<close>

definition reconcile_abort :: "'w env \<Rightarrow> canary_rollout \<Rightarrow> 'w sys \<Rightarrow> reconcile_result \<times> 'w sys" where
  "reconcile_abort E rollout s =
     (let (err, s1) = set_weights E rollout 100 0 s in
      case err of
        Some e \<Rightarrow> (Ret (0, Some (Wrapped ''rollback weights'' e)), s1)
      | None \<Rightarrow> return_status E rollout 0 PhaseAborted (CurrentStep (Status rollout)) 0
                  ''Rollout aborted, 100% traffic to stable'' s1)"

definition reconcile_rollout :: "'w env \<Rightarrow> canary_rollout \<Rightarrow> 'w sys \<Rightarrow> reconcile_result \<times> 'w sys" where
  "reconcile_rollout E rollout s =
     (let sp = Spec rollout; st = Status rollout in
      if Phase st = PhaseAborted then (Ret (0, None), s)
      else if Phase st = PhasePromoted \<and> \<not> Abort sp then (Ret (0, None), s)
      else if Abort sp then reconcile_abort E rollout s
      else if Paused sp then
        (if Phase st \<noteq> PhasePaused
         then return_status E rollout 0 PhasePaused (CurrentStep st) (CurrentWeight st)
                ''Rollout paused by user'' s
         else (Ret (0, None), s))
      else if Phase st = PhasePaused
      then return_status E rollout Second PhaseRunning (CurrentStep st) (CurrentWeight st)
             ''Rollout resumed'' s
      else if Phase st = '''' \<or> Phase st = PhasePending
      then return_status E rollout Second PhaseRunning 0 0 ''Rollout started'' s
      else reconcile_running E rollout s)"

definition Reconcile :: "'w env \<Rightarrow> string \<Rightarrow> string \<Rightarrow> 'w sys \<Rightarrow> reconcile_result \<times> 'w sys" where
  "Reconcile E ns name s =
     (let (got, s1) = call (get_rollout E ns name) s in
      case got of
        Inl err \<Rightarrow> (Ret (0, if is_not_found err then None else Some err), s1)
      | Inr rollout \<Rightarrow> reconcile_rollout E rollout s1)"

end
