(* ===== verification/GoMath.thy ===== *)
theory GoMath
  imports Float64_Real
begin

text \<open>
  \<open>math.Log\<close>. Go ships one portable implementation and assembly versions for some targets, so
  the components take the function as a parameter of their environment. Two locales state what
  the documentation promises: the special cases, and that the result approximates the natural
  logarithm closely enough to be a number with the right sign. Two functions provide them: the
  correctly rounded logarithm \<open>log_ideal\<close> meets both contracts, and the portable algorithm
  \<open>log_portable\<close>, which computes, meets the special cases and replays the unit tests.
\<close>

section \<open>What the sources rely on\<close>

locale log_special =
  fixes lg :: "float64 \<Rightarrow> float64"
  assumes log_NaN: "lg F64_NaN = F64_NaN"
    and log_neg: "f64_lt x f64_0 \<Longrightarrow> lg x = F64_NaN"
    and log_zero: "f64_eq x f64_0 \<Longrightarrow> lg x = F64_Inf True"
    and log_Inf: "lg (F64_Inf False) = F64_Inf False"

locale log_sound = log_special +
  assumes log_num: "f64_num x \<Longrightarrow> f64_lt f64_0 x \<Longrightarrow> f64_num (lg x)"
    and log_le_one: "f64_num x \<Longrightarrow> f64_lt f64_0 x \<Longrightarrow> f64_le x (f64_of_int 1) \<Longrightarrow> fval (lg x) \<le> 0"
    and log_ge_one: "f64_num x \<Longrightarrow> f64_le (f64_of_int 1) x \<Longrightarrow> 0 \<le> fval (lg x)"
begin

lemma log_one: "fval (lg (f64_of_int 1)) = 0"
proof -
  have one: "f64_num (f64_of_int 1)" "fval (f64_of_int 1) = 1"
    using fval_of_int [of 1] by simp_all
  then have "f64_lt f64_0 (f64_of_int 1)" "f64_le (f64_of_int 1) (f64_of_int 1)"
    by (simp_all add: f64_lt_fval f64_le_fval f64_num_def f64_0_def)
  then show ?thesis using log_le_one [of "f64_of_int 1"] log_ge_one [of "f64_of_int 1"] one by force
qed

end

section \<open>The correctly rounded logarithm\<close>

fun log_ideal :: "float64 \<Rightarrow> float64" where
  "log_ideal F64_NaN = F64_NaN"
| "log_ideal (F64_Inf s) = (if s then F64_NaN else F64_Inf False)"
| "log_ideal (F64_Fin s m e) =
     (if m = 0 then F64_Inf True
      else if f64_lt (F64_Fin s m e) f64_0 then F64_NaN
      else f64_of_real (ln (fval (F64_Fin s m e))))"

lemma f64_0_num: "f64_num f64_0" "fval f64_0 = 0"
  by (simp_all add: f64_0_def f64_num_def)

lemma ln_max: "0 < x \<Longrightarrow> x < pow2 1024 \<Longrightarrow> ln x \<le> 1024"
proof -
  assume x: "0 < x" "x < pow2 1024"
  then have "ln x \<le> ln (pow2 1024)" by simp
  also have "\<dots> = 1024 * ln 2" unfolding pow2_def by (subst ln_powr) simp_all
  also have "\<dots> \<le> 1024" using ln_2_less_1 by simp
  finally show ?thesis .
qed

lemma fval_min:
  assumes "f64_num x" "0 < fval x"
  shows "pow2 (- 1074) \<le> fval x"
proof -
  obtain s m e where x: "x = F64_Fin s m e" "0 \<le> m" "- 1074 \<le> e"
    using assms(1) unfolding f64_num_def by (auto elim!: f64_finiteE)
  have m: "\<not> s" "1 \<le> m"
    using assms(2) x(2) unfolding x(1) by (auto simp: rsign_def zero_less_mult_iff mult_less_0_iff split: if_splits)
  then have "1 * pow2 (- 1074) \<le> real_of_int m * pow2 e"
    using x(3) by (intro mult_mono) simp_all
  then show ?thesis using m unfolding x(1) by (simp add: rsign_def)
qed

lemma ln_min: "pow2 (- 1074) \<le> x \<Longrightarrow> - 1074 \<le> ln x"
proof -
  assume x: "pow2 (- 1074) \<le> x"
  have "- 1074 \<le> - 1074 * ln (2 :: real)" using ln_2_less_1 by simp
  also have "\<dots> = ln (pow2 (- 1074))" unfolding pow2_def by (subst ln_powr) simp_all
  also have "\<dots> \<le> ln x" using x less_le_trans [OF pow2_pos x] by (subst ln_le_cancel_iff) simp_all
  finally show ?thesis .
qed

lemma f64_of_real_num:
  assumes "\<bar>r\<bar> \<le> real_of_int k" "k \<le> 2 ^ 53"
  shows "f64_num (f64_of_real r)" "r \<le> 0 \<Longrightarrow> fval (f64_of_real r) \<le> 0" "0 \<le> r \<Longrightarrow> 0 \<le> fval (f64_of_real r)"
proof -
  have k: "fround (real_of_int k) = real_of_int k" "fround (- real_of_int k) = - real_of_int k"
    using fround_exact [of k 0] fround_exact [of "- k" 0] assms by simp_all
  have "\<bar>fround r\<bar> \<le> real_of_int k"
    using fround_mono [of r "real_of_int k"] fround_mono [of "- real_of_int k" r] k assms(1) by linarith
  also have "real_of_int k \<le> real_of_int (2 ^ 53)" using assms(2) by (simp only: of_int_le_iff)
  also have "\<dots> < pow2 1024" by (simp add: pow2_numeral)
  finally have b: "\<bar>fround r\<bar> < pow2 1024" .
  have rep: "represents (f64_of_real r) r" by (rule f64_of_real_represents)
  then have v: "f64_num (f64_of_real r)" "fval (f64_of_real r) = fround r"
    using b by (simp_all add: represents_def f64_num_def)
  then show "f64_num (f64_of_real r)" by simp
  show "fval (f64_of_real r) \<le> 0" if "r \<le> 0"
    unfolding v(2) using fround_mono [OF that] by simp
  show "0 \<le> fval (f64_of_real r)" if "0 \<le> r"
    unfolding v(2) using fround_mono [OF that] by simp
qed

lemma log_ideal_pos:
  assumes "f64_num x" "f64_lt f64_0 x"
  shows "log_ideal x = f64_of_real (ln (fval x))" "\<bar>ln (fval x)\<bar> \<le> real_of_int 1074" "0 < fval x"
proof -
  show pos: "0 < fval x" using assms f64_lt_fval [of f64_0 x] f64_0_num by (simp add: f64_num_def)
  have "fval x < pow2 1024" using fval_less_max [of x] assms(1) by (simp add: f64_num_def)
  then show "\<bar>ln (fval x)\<bar> \<le> real_of_int 1074"
    using ln_max [OF pos] ln_min [OF fval_min [OF assms(1) pos]] by simp
  obtain s m e where x: "x = F64_Fin s m e" using assms(1) by (rule f64_numE)
  have "\<not> f64_lt x f64_0" using pos f64_lt_fval [of x f64_0] f64_0_num assms(1) by (simp add: f64_num_def)
  then show "log_ideal x = f64_of_real (ln (fval x))" using pos unfolding x by auto
qed

interpretation ideal: log_sound log_ideal
proof unfold_locales
  show "log_ideal F64_NaN = F64_NaN" "log_ideal (F64_Inf False) = F64_Inf False" by simp_all
  show "log_ideal x = F64_NaN" if "f64_lt x f64_0" for x
    using that by (cases x) (auto simp: f64_0_def)
  show "log_ideal x = F64_Inf True" if "f64_eq x f64_0" for x
    using that by (cases x) (auto simp: f64_0_def)
next
  fix x assume x: "f64_num x" "f64_lt f64_0 x"
  show "f64_num (log_ideal x)"
    using log_ideal_pos [OF x] f64_of_real_num(1) [of "ln (fval x)" 1074] by simp
  show "fval (log_ideal x) \<le> 0" if "f64_le x (f64_of_int 1)"
  proof -
    have "fval x \<le> 1"
      using that x fval_of_int [of 1] by (simp add: f64_le_fval f64_num_def)
    then show ?thesis
      using log_ideal_pos [OF x] f64_of_real_num(2) [of "ln (fval x)" 1074] by simp
  qed
next
  fix x assume x: "f64_num x" "f64_le (f64_of_int 1) x"
  have "1 \<le> fval x" using x fval_of_int [of 1] by (simp add: f64_le_fval f64_num_def)
  moreover have "f64_lt f64_0 x"
    using calculation x f64_0_num f64_lt_fval [of f64_0 x] by (simp add: f64_num_def)
  ultimately show "0 \<le> fval (log_ideal x)"
    using log_ideal_pos [OF x(1)] f64_of_real_num(3) [of "ln (fval x)" 1074] by simp
qed

section \<open>The portable algorithm\<close>

text \<open>\<open>math.Frexp\<close> of a positive number: \<open>x = f * 2^k\<close> with \<open>1/2 \<le> f < 1\<close>.\<close>

definition frexp :: "int \<Rightarrow> int \<Rightarrow> float64 \<times> int" where
  "frexp m e = (let b = bitlen m in (F64_Fin False (m * 2 ^ nat (53 - b)) (- 53), e + b))"

definition log_reduced :: "float64 \<Rightarrow> int \<Rightarrow> float64" where
  "log_reduced f1 k0 =
    (let half_sqrt2 = F64_Fin False 6369051672525773 (- 53);
         (f2, k1) = (if f64_lt f1 half_sqrt2 then (f64_mul f1 (f64_of_int 2), k0 - 1) else (f1, k0));
         f = f64_sub f2 (f64_of_int 1);
         k = f64_of_int k1;
         s = f64_div f (f64_add (f64_of_int 2) f);
         s2 = f64_mul s s;
         s4 = f64_mul s2 s2;
         l1 = F64_Fin False 6004799503160723 (- 53);
         l2 = F64_Fin False 7205759403686404 (- 54);
         l3 = F64_Fin False 5146971033736025 (- 54);
         l4 = F64_Fin False 8006390766270639 (- 55);
         l5 = F64_Fin False 6551322304906206 (- 55);
         l6 = F64_Fin False 5517391500461727 (- 55);
         l7 = F64_Fin False 5331612937900612 (- 55);
         t1 = f64_mul s2 (f64_add l1 (f64_mul s4 (f64_add l3 (f64_mul s4 (f64_add l5 (f64_mul s4 l7))))));
         t2 = f64_mul s4 (f64_add l2 (f64_mul s4 (f64_add l4 (f64_mul s4 l6))));
         r = f64_add t1 t2;
         hfsq = f64_mul (f64_mul (f64_lit 1 2) f) f;
         ln2hi = F64_Fin False 6243314766446592 (- 53);
         ln2lo = F64_Fin False 7382048951581814 (- 85)
     in f64_sub (f64_mul k ln2hi)
          (f64_sub (f64_sub hfsq (f64_add (f64_mul s (f64_add hfsq r)) (f64_mul k ln2lo))) f))"

fun log_portable :: "float64 \<Rightarrow> float64" where
  "log_portable F64_NaN = F64_NaN"
| "log_portable (F64_Inf s) = (if s then F64_NaN else F64_Inf False)"
| "log_portable (F64_Fin s m e) =
     (if m = 0 then F64_Inf True
      else if f64_lt (F64_Fin s m e) f64_0 then F64_NaN
      else let (f, k) = frexp m e in log_reduced f k)"

interpretation portable: log_special log_portable
proof unfold_locales
  show "log_portable x = F64_NaN" if "f64_lt x f64_0" for x
    using that by (cases x) (auto simp: f64_0_def)
  show "log_portable x = F64_Inf True" if "f64_eq x f64_0" for x
    using that by (cases x) (auto simp: f64_0_def)
qed simp_all

end
