(* ===== verification/Cluster.thy ===== *)
theory Cluster
  imports Reconciler GoMath
begin

text \<open>
  A small cluster in memory, playing the part of the fake API server and Prometheus of the
  repository's tests. It is one environment among all those the theorems quantify over: the
  concrete runs that witness the theorems' hypotheses happen in it. A status update replaces
  the stored status when the resource version matches and is a conflict otherwise.
\<close>

record cluster =
  stored_rollouts :: "string \<times> string \<Rightarrow> canary_rollout option"
  stored_vs :: "string \<times> string \<Rightarrow> jmap option"
  stored_deployments :: "string \<times> string \<Rightarrow> deployment option"
  stored_pods :: "string \<times> label_set \<Rightarrow> pod list"
  samples :: "string \<Rightarrow> float64 list"
  clock :: gotime
  vs_fails :: bool

definition missing :: go_error where
  "missing = ApiError NotFound ''not found''"

definition lookup :: "('k \<Rightarrow> 'v option) \<Rightarrow> 'k \<Rightarrow> go_error + 'v" where
  "lookup m k = (case m k of None \<Rightarrow> Inl missing | Some v \<Rightarrow> Inr v)"

definition store_status :: "canary_rollout \<Rightarrow> cluster \<Rightarrow> go_error option \<times> cluster" where
  "store_status cr c =
     (case stored_rollouts c (Namespace cr, Name cr) of
        None \<Rightarrow> (Some missing, c)
      | Some old \<Rightarrow>
          if ResourceVersion old \<noteq> ResourceVersion cr
          then (Some (ApiError Conflict ''the object has been modified''), c)
          else (None, c\<lparr> stored_rollouts :=
                  (stored_rollouts c)((Namespace cr, Name cr) \<mapsto>
                     old\<lparr> Status := Status cr, ResourceVersion := ResourceVersion old @ ''+'' \<rparr>) \<rparr>))"

definition store_vs :: "(string \<times> string) \<Rightarrow> jmap \<Rightarrow> cluster \<Rightarrow> go_error option \<times> cluster" where
  "store_vs k v c =
     (if vs_fails c then (Some (ApiError OtherReason ''refused''), c)
      else (None, c\<lparr> stored_vs := (stored_vs c)(k \<mapsto> v) \<rparr>))"

text \<open>The namespace and the name of a VirtualService are read from its metadata.\<close>

definition object_key :: "jmap \<Rightarrow> string \<times> string" where
  "object_key v =
     (let field = (\<lambda>f. case json_string v [''metadata'', f] of Inr (Some x) \<Rightarrow> x | _ \<Rightarrow> '''')
      in (field ''namespace'', field ''name''))"

definition cluster_calls :: "cluster env" where
  "cluster_calls =
    \<lparr> math_Log = log_portable,
      time_Now = (\<lambda>c. (clock c, c)),
      get_rollout = (\<lambda>ns n c. (lookup (stored_rollouts c) (ns, n), c)),
      update_status = store_status,
      get_vs = (\<lambda>ns n c. (lookup (stored_vs c) (ns, n), c)),
      update_vs = (\<lambda>v c. store_vs (object_key v) v c),
      get_deployment = (\<lambda>ns n c. (lookup (stored_deployments c) (ns, n), c)),
      list_pods = (\<lambda>ns ls c. (Inr (stored_pods c (ns, ls)), c)),
      prom_client = (\<lambda>url. if url = '''' then Some (PlainError ''no address'') else None),
      prom_query = (\<lambda>url q t c. (Inr (Vector (samples c q)), c)),
      NestedSlice = (\<lambda>m fs. Inl missing), NestedString = (\<lambda>m fs. Inl missing),
      SetNestedField = (\<lambda>m v fs. Inl missing), SetNestedSlice = (\<lambda>m v fs. Inl missing) \<rparr>"

definition cluster_env :: "cluster env" where
  "cluster_env = with_json_api cluster_calls"

lemma cluster_env_sel [simp]:
  "math_Log cluster_env = log_portable"
  "time_Now cluster_env c = (clock c, c)"
  "get_rollout cluster_env ns n c = (lookup (stored_rollouts c) (ns, n), c)"
  "update_status cluster_env cr c = store_status cr c"
  "get_vs cluster_env ns n c = (lookup (stored_vs c) (ns, n), c)"
  "update_vs cluster_env v c = store_vs (object_key v) v c"
  "get_deployment cluster_env ns n c = (lookup (stored_deployments c) (ns, n), c)"
  "list_pods cluster_env ns ls c = (Inr (stored_pods c (ns, ls)), c)"
  "prom_client cluster_env url = (if url = '''' then Some (PlainError ''no address'') else None)"
  "prom_query cluster_env url q t c = (Inr (Vector (samples c q)), c)"
  "NestedSlice cluster_env = json_slice" "NestedString cluster_env = json_string"
  "SetNestedField cluster_env = json_set" "SetNestedSlice cluster_env = json_set_slice"
  by (simp_all add: cluster_env_def cluster_calls_def with_json_api_def)

lemma cluster_api: "unstructured_api cluster_env"
  unfolding cluster_env_def by (rule jsonapi.unstructured_api_axioms)

section \<open>The demo rollout\<close>

definition demo_metric :: sprt_metric where
  "demo_metric =
    \<lparr> metric_Name = ''http-errors'', CanaryTotalQuery = ''ct'', CanaryFailureQuery = ''cf'',
      StableTotalQuery = ''st'', StableFailureQuery = ''sf'', Delta = f64_lit 5 100 \<rparr>"

definition demo_analysis :: sprt_analysis where
  "demo_analysis =
    \<lparr> Alpha = f64_lit 5 100, Beta = f64_lit 10 100, AnalysisIntervalSeconds = 10,
      Metrics = [demo_metric] \<rparr>"

definition demo_spec :: rollout_spec where
  "demo_spec =
    \<lparr> TargetRef = ''app-canary'', StableServiceRef = ''app-stable'', CanaryServiceRef = ''app-canary'',
      VirtualServiceRef = ''app'', Steps = [\<lparr>Weight = 20, PauseSeconds = 30\<rparr>, \<lparr>Weight = 50, PauseSeconds = 0\<rparr>],
      Paused = False, Abort = False, PrometheusURL = '''', Analysis = None \<rparr>"

definition demo_status :: rollout_status where
  "demo_status =
    \<lparr> Phase = PhaseRunning, CurrentStep = 0, CurrentWeight = 0, LastTransitionTime = 0, Message = '''',
      AnalysisState = [] \<rparr>"

definition demo_rollout :: "rollout_spec \<Rightarrow> rollout_status \<Rightarrow> canary_rollout" where
  "demo_rollout sp st =
    \<lparr> Kind = ''CanaryRollout'', Name = ''demo'', Namespace = ''default'', CreationTimestamp = 0,
      ResourceVersion = ''1'', Spec = sp, Status = st \<rparr>"

definition demo_route :: "string \<Rightarrow> int64 \<Rightarrow> json" where
  "demo_route host w =
     JMap [''destination'' \<mapsto> JMap [''host'' \<mapsto> JString host], ''weight'' \<mapsto> JInt w]"

definition demo_vs :: "json list \<Rightarrow> jmap" where
  "demo_vs routes =
     [''metadata'' \<mapsto> JMap [''namespace'' \<mapsto> JString ''default'', ''name'' \<mapsto> JString ''app''],
      ''spec'' \<mapsto> JMap [''http'' \<mapsto> JSlice [JMap [''route'' \<mapsto> JSlice routes]]]]"

definition demo_cluster :: "canary_rollout \<Rightarrow> gotime \<Rightarrow> cluster" where
  "demo_cluster cr now =
    \<lparr> stored_rollouts = [(Namespace cr, Name cr) \<mapsto> cr],
      stored_vs = [(''default'', ''app'') \<mapsto> demo_vs [demo_route ''app-stable'' 100, demo_route ''app-canary'' 0]],
      stored_deployments = [(''default'', ''app-canary'') \<mapsto> \<lparr>MatchLabels = Some [(''app'', ''canary'')]\<rparr>],
      stored_pods = (\<lambda>k. [[\<lparr>cond_Type = ''Ready'', cond_Status = ''True''\<rparr>]]),
      samples = (\<lambda>q. []), clock = now, vs_fails = False \<rparr>"

definition no_gauges :: gauges where
  "no_gauges =
    \<lparr> sprtLogLikelihood = Map.empty, sprtBoundaryA = Map.empty, sprtBoundaryB = Map.empty,
      sprtObservations = Map.empty, sprtFailures = Map.empty, canaryWeight_gauge = Map.empty,
      rolloutPhase = Map.empty \<rparr>"

definition demo_sys :: "canary_rollout \<Rightarrow> gotime \<Rightarrow> cluster sys" where
  "demo_sys cr now = \<lparr> world = demo_cluster cr now, gauges_of = no_gauges \<rparr>"

lemmas demo_defs = demo_sys_def demo_cluster_def demo_vs_def demo_route_def demo_rollout_def
  demo_status_def demo_spec_def no_gauges_def

lemmas run_eval = Reconcile_def reconcile_rollout_def reconcile_running_def reconcile_step_def
  reconcile_analysis_def reconcile_timer_def reconcile_gate_def reconcile_advance_def
  reconcile_abort_def reconcile_not_ready_def isCanaryReady_def return_status_def return_update_def
  setStatus_def set_weights_def SetVirtualServiceWeights_def call_def gauge_update_def
  lookup_def store_status_def store_vs_def with_status_def Let_def

text \<open>The demo rollout at a step with a weight, in a cluster whose clock shows \<open>now\<close>.\<close>

definition demo_at :: "int32 \<Rightarrow> int32 \<Rightarrow> canary_rollout" where
  "demo_at step weight = demo_rollout demo_spec (demo_status\<lparr>CurrentStep := step, CurrentWeight := weight\<rparr>)"

lemmas event_eval = traced_def log_call_def demo_defs demo_at_def object_key_def
  vs_with_weights_def json_slice_def json_string_def json_set_slice_def dest_host_def set_route_weight_def
  pod_ready_def dur_lt_def sint_time_Sub sint_seconds

end
