(* ===== verification/VirtualService_Props.thy ===== *)
theory VirtualService_Props
  imports Cluster
begin

text \<open>
  What \<open>SetVirtualServiceWeights\<close> does to the stored VirtualService on every branch. The
  properties hold for every implementation of the \<open>unstructured\<close> helpers that keeps the contract
  \<open>unstructured_api\<close>; the concrete runs use the one of \<open>Unstructured\<close>.
\<close>

section \<open>Shared lemmas\<close>

lemma vs_with_weights_routes_of:
  assumes api: "unstructured_api E" and v: "vs_with_weights E ns n sh sw ch cw vs = Inr v"
  obtains rs where "vs_routes E vs = Some rs"
    "vs_routes E v = Some (map (weighted_route E sh sw ch cw) rs)"
    "\<And>h. h \<noteq> ''spec'' \<Longrightarrow> v h = vs h"
proof (cases "vs_routes E vs")
  case None
  then show thesis using vs_with_weights_no_routes [OF None, of ns n sh sw ch cw] v by auto
next
  case (Some rs)
  then show thesis
    using unstructured_api.vs_with_weights_routes [OF api Some, of ns n sh sw ch cw] v that by auto
qed

lemma demo_vs_routes:
  "vs_routes cluster_env (demo_vs rs) = Some rs"
  by (simp add: vs_routes_def demo_vs_def json_slice_def)

lemma SetVirtualServiceWeights_stores:
  assumes "unstructured_api E"
    and "get_vs E ns n (world s) = (Inr vs, w1)"
    and "vs_routes E vs = Some rs"
  shows "\<exists>v. vs_routes E v = Some (map (weighted_route E sh sw ch cw) rs) \<and>
    (\<forall>h. h \<noteq> ''spec'' \<longrightarrow> v h = vs h) \<and>
    SetVirtualServiceWeights E ns n sh sw ch cw s =
      (map_option (Wrapped (''update VirtualService '' @ ns @ ''/'' @ n)) (fst (update_vs E v w1)),
       s\<lparr>world := snd (update_vs E v w1)\<rparr>)"
proof -
  obtain v where v: "vs_with_weights E ns n sh sw ch cw vs = Inr v"
      "vs_routes E v = Some (map (weighted_route E sh sw ch cw) rs)" "\<forall>h. h \<noteq> ''spec'' \<longrightarrow> v h = vs h"
    using unstructured_api.vs_with_weights_routes [OF assms(1,3)] by blast
  have "SetVirtualServiceWeights E ns n sh sw ch cw s =
      (map_option (Wrapped (''update VirtualService '' @ ns @ ''/'' @ n)) (fst (update_vs E v w1)),
       s\<lparr>world := snd (update_vs E v w1)\<rparr>)"
    by (simp add: SetVirtualServiceWeights_def call_def assms(2) v(1) split: prod.splits option.splits)
  with v show ?thesis by blast
qed

section \<open>The properties\<close>



text \<open>
  When the VirtualService cannot be read, or has no first HTTP route with a list of
  destinations, the function returns an error and has made no call but the read: the cluster
  keeps the weights it had.
\<close>

lemma SetVirtualServiceWeights_no_route:
  assumes "case fst (get_vs E ns n (world s)) of Inl e \<Rightarrow> True | Inr vs \<Rightarrow> vs_routes E vs = None"
  shows "\<exists>err. SetVirtualServiceWeights E ns n sh sw ch cw s =
    (Some err, s\<lparr>world := snd (get_vs E ns n (world s))\<rparr>)"
proof -
  obtain got w1 where g: "get_vs E ns n (world s) = (got, w1)" by fastforce
  show ?thesis
  proof (cases got)
    case (Inl e)
    then show ?thesis by (simp add: SetVirtualServiceWeights_def call_def g)
  next
    case (Inr vs)
    then have "vs_routes E vs = None" using assms g by simp
    then obtain err where "vs_with_weights E ns n sh sw ch cw vs = Inl err"
      using vs_with_weights_no_routes by blast
    then show ?thesis using Inr by (simp add: SetVirtualServiceWeights_def call_def g)
  qed
qed

text \<open>
  The last weights win. Setting a split over an earlier one leaves the destinations exactly
  as setting it directly would, so repeating a cycle after a failed status write is harmless.
\<close>

lemma vs_with_weights_overwrites:
  assumes "unstructured_api E"
    and "vs_with_weights E ns n sh sw0 ch cw0 vs = Inr v0"
    and "vs_with_weights E ns n sh sw ch cw v0 = Inr v1"
    and "vs_with_weights E ns n sh sw ch cw vs = Inr v2"
  shows "vs_routes E v1 = vs_routes E v2"
proof -
  obtain rs where rs: "vs_routes E vs = Some rs"
      "vs_routes E v0 = Some (map (weighted_route E sh sw0 ch cw0) rs)"
    using vs_with_weights_routes_of [OF assms(1,2)] by metis
  have "vs_routes E v1 = Some (map (weighted_route E sh sw ch cw) (map (weighted_route E sh sw0 ch cw0) rs))"
    using vs_with_weights_routes_of [OF assms(1,3)] rs(2) by (metis option.inject)
  also have "\<dots> = Some (map (weighted_route E sh sw ch cw) rs)"
    by (simp add: unstructured_api.weighted_route_overwrites [OF assms(1)])
  also have "\<dots> = vs_routes E v2"
    using vs_with_weights_routes_of [OF assms(1,4)] rs(1) by (metis option.inject)
  finally show ?thesis .
qed

end
