(* ===== verification/Float64_Bounds.thy ===== *)
theory Float64_Bounds
  imports GoMath
begin

text \<open>
  Bounds on rounded results that hold through overflow and underflow: signs of sums, quotients
  in a range, and the smallest distance between two numbers.
\<close>

lemma f64_lt_num: "f64_num x \<Longrightarrow> f64_num y \<Longrightarrow> f64_lt x y \<longleftrightarrow> fval x < fval y"
  by (simp add: f64_num_def f64_lt_fval)

lemma f64_le_num: "f64_num x \<Longrightarrow> f64_num y \<Longrightarrow> f64_le x y \<longleftrightarrow> fval x \<le> fval y"
  by (simp add: f64_num_def f64_le_fval)

text \<open>Zero bounds that also cover infinite results.\<close>

lemma f64_0_rep: "represents f64_0 0"
  using represents_num [OF f64_0_num(1)] f64_0_num(2) by simp

lemma represents_le_0: "represents x r \<Longrightarrow> r \<le> 0 \<Longrightarrow> f64_le x f64_0"
  by (rule represents_mono [OF _ f64_0_rep])

lemma represents_ge_0: "represents x r \<Longrightarrow> 0 \<le> r \<Longrightarrow> f64_le f64_0 x"
  by (rule represents_mono [OF f64_0_rep])

text \<open>Adding a number that is not positive does not increase; infinities included.\<close>

lemma f64_add_rep_le:
  assumes x: "f64_num x" and y: "represents y r"
  shows "r \<le> 0 \<Longrightarrow> f64_le (f64_add x y) x" "0 \<le> r \<Longrightarrow> f64_le x (f64_add x y)"
proof -
  consider "f64_num y" "fval y = fround r" | "y = F64_Inf (r < 0)"
    using y by (auto simp: represents_def f64_num_def split: if_splits)
  then have "(r \<le> 0 \<longrightarrow> f64_le (f64_add x y) x) \<and> (0 \<le> r \<longrightarrow> f64_le x (f64_add x y))"
  proof cases
    case 1
    have "represents (f64_add x y) (fval x + fval y)" by (rule f64_add_represents [OF x 1(1)])
    moreover have "r \<le> 0 \<longrightarrow> fval y \<le> 0" "0 \<le> r \<longrightarrow> 0 \<le> fval y"
      unfolding 1(2) using fround_mono [of r 0] fround_mono [of 0 r] by simp_all
    ultimately show ?thesis using represents_mono represents_num [OF x] by fastforce
  next
    case 2
    obtain s m e where "x = F64_Fin s m e" using x by (rule f64_numE)
    moreover have "r \<noteq> 0" using y 2 by (auto simp: represents_def)
    ultimately show ?thesis using 2 by (auto simp: f64_le_def)
  qed
  then show "r \<le> 0 \<Longrightarrow> f64_le (f64_add x y) x" "0 \<le> r \<Longrightarrow> f64_le x (f64_add x y)" by simp_all
qed

lemma represents_cases:
  assumes "represents y r"
  obtains "f64_num y" "fval y = fround r" | "y = F64_Inf (r < 0)" "r \<noteq> 0"
  using assms by (cases "r = 0") (auto simp: represents_def f64_num_def split: if_splits)

lemma f64_add_zero:
  assumes z: "f64_num z" "fval z = 0" and w: "represents w r"
  shows "represents (f64_add z w) r" "represents (f64_add w z) r"
proof -
  have "represents (f64_add z w) r \<and> represents (f64_add w z) r"
    using w
  proof (cases rule: represents_cases)
    case 1
    have "represents (f64_add z w) (fround r)" "represents (f64_add w z) (fround r)"
      using f64_add_represents [OF z(1) 1(1)] f64_add_represents [OF 1(1) z(1)] z(2) 1(2) by simp_all
    moreover have "fround (fround r) = fround r"
      using fround_fval [of w] 1 by (simp add: f64_num_def)
    ultimately show ?thesis using w 1 by (auto simp: represents_def f64_num_def split: if_splits)
  next
    case 2
    obtain s m e where "z = F64_Fin s m e" using z(1) by (rule f64_numE)
    then show ?thesis using 2 w by simp
  qed
  then show "represents (f64_add z w) r" "represents (f64_add w z) r" by simp_all
qed

text \<open>Every number is a multiple of the smallest one, so a positive difference is at least that.\<close>

lemma fval_multiple:
  assumes "f64_num x"
  obtains k where "fval x = real_of_int k * pow2 (- 1074)"
proof -
  obtain s m e where x: "x = F64_Fin s m e" "- 1074 \<le> e"
    using assms unfolding f64_num_def by (auto elim!: f64_finiteE)
  show thesis by (rule that [unfolded x(1), OF fval_common [OF x(2)]])
qed

lemma fval_gap:
  assumes "f64_num x" "f64_num y" "fval y < fval x"
  shows "pow2 (- 1074) \<le> fval x - fval y"
proof -
  obtain a b where ab: "fval x = real_of_int a * pow2 (- 1074)" "fval y = real_of_int b * pow2 (- 1074)"
    using assms fval_multiple by metis
  then have "b < a" using assms(3) by simp
  then have "1 * pow2 (- 1074) \<le> (real_of_int a - real_of_int b) * pow2 (- 1074)"
    by (intro mult_right_mono) simp_all
  then show ?thesis by (simp add: ab algebra_simps)
qed

lemma fround_ge_min: "pow2 (- 1074) \<le> r \<Longrightarrow> pow2 (- 1074) \<le> fround r"
  using fround_mono [of "pow2 (- 1074)" r] fround_exact [of 1 "- 1074"] by simp

lemma fround_le_pow2: "r \<le> pow2 e \<Longrightarrow> - 1074 \<le> e \<Longrightarrow> fround r \<le> pow2 e"
  using fround_mono [of r "pow2 e"] fround_exact [of 1 e] by simp

lemma represents_between:
  assumes "represents y r" "0 \<le> r" "r \<le> pow2 e" "0 \<le> e" "e < 1024"
  shows "f64_num y" "fval y = fround r"
proof -
  have "0 \<le> fround r" "fround r \<le> pow2 e" using assms fround_sign fround_le_pow2 by simp_all
  moreover have "pow2 e < pow2 1024" using assms(5) by simp
  ultimately have "\<bar>fround r\<bar> < pow2 1024" by linarith
  then show "f64_num y" "fval y = fround r" using assms(1) by (simp_all add: represents_def f64_num_def)
qed

text \<open>The difference of equal numbers is positive zero; arithmetic with an infinity.\<close>

lemma f64_sub_equal:
  assumes "f64_num x" "f64_num y" "fval x = fval y" "fval x \<noteq> 0"
  shows "f64_sub x y = f64_0"
proof -
  obtain s m e where x: "x = F64_Fin s m e" using assms(1) by (rule f64_numE)
  obtain t n g where y: "y = F64_Fin t n g" using assms(2) by (rule f64_numE)
  have nz: "m \<noteq> 0" "n \<noteq> 0" using assms(3,4) by (auto simp: x y)
  let ?k = "min e g"
  let ?a = "signed_int s m * 2 ^ nat (e - ?k) + signed_int (\<not> t) n * 2 ^ nat (g - ?k)"
  have "real_of_int ?a * pow2 ?k = fval (F64_Fin s m e) + fval (F64_Fin (\<not> t) n g)"
    unfolding fval_common [of ?k e s m, OF min.cobounded1] fval_common [of ?k g "\<not> t" n, OF min.cobounded2]
    by (simp only: of_int_add distrib_right)
  also have "\<dots> = 0" using assms(3) fval_neg [of y] by (simp add: x y)
  finally have "?a = 0" by (simp only: mult_eq_0_iff pow2_nonzero of_int_eq_0_iff simp_thms)
  then show ?thesis using nz by (simp add: f64_sub_def x y Let_def)
qed

lemma f64_div_zero:
  assumes "f64_num x" "0 < fval x"
  shows "f64_div x f64_0 = F64_Inf False"
proof -
  obtain s m e where x: "x = F64_Fin s m e" "0 \<le> m" using assms(1) by (rule f64_numE)
  then have "m \<noteq> 0" "\<not> s" using assms(2) by (auto simp: rsign_def mult_less_0_iff split: if_splits)
  then show ?thesis by (simp add: x f64_0_def)
qed

lemma f64_mul_Inf:
  assumes "f64_num x"
  shows "0 < fval x \<Longrightarrow> f64_mul x (F64_Inf False) = F64_Inf False"
    "fval x = 0 \<Longrightarrow> f64_mul x (F64_Inf False) = F64_NaN"
proof -
  obtain s m e where x: "x = F64_Fin s m e" "0 \<le> m" using assms(1) by (rule f64_numE)
  show "f64_mul x (F64_Inf False) = F64_Inf False" if "0 < fval x"
  proof -
    have "m \<noteq> 0" "\<not> s" using that x by (auto simp: rsign_def mult_less_0_iff split: if_splits)
    then show ?thesis by (simp add: x)
  qed
  show "f64_mul x (F64_Inf False) = F64_NaN" if "fval x = 0"
    using that by (auto simp: x rsign_def split: if_splits)
qed

lemma f64_add_Inf: "f64_num x \<Longrightarrow> f64_add x (F64_Inf t) = F64_Inf t"
  by (elim f64_numE) simp

lemma f64_le_Inf: "x \<noteq> F64_NaN \<Longrightarrow> f64_le x (F64_Inf False)"
  by (cases x) (auto simp: f64_le_def)

end
