(* ===== verification/Analyzer_Props.thy ===== *)
theory Analyzer_Props
  imports Analyzer Cluster Float64_Bounds
begin

text \<open>
  The properties of the sequential test: what a cycle returns, how the counts accumulate, which
  way the evidence points, and where the arithmetic leaves the test undefined.
\<close>

section \<open>The loop over the metrics\<close>

lemma findOrInitState_name [simp]: "state_Name (findOrInitState sts n) = n"
  by (induction sts) (simp_all add: init_state_def)

lemma accumulate_keeps [simp]:
  "state_Name (accumulate lg p0 p1 ct cf st) = state_Name st"
  "Decision (accumulate lg p0 p1 ct cf st) = Decision st"
  "LastCanaryTotal (accumulate lg p0 p1 ct cf st) = ct"
  "LastCanaryFailure (accumulate lg p0 p1 ct cf st) = cf"
  "BaselineRate (accumulate lg p0 p1 ct cf st) = p0"
  by (simp_all add: accumulate_def Let_def)

lemma sprt_samples_out:
  assumes "state_Name st = metric_Name m"
  shows "case fst (sprt_samples lg upper lower m st ct cf t sf) of
      MetricError err \<Rightarrow> False
    | MetricState st' \<Rightarrow> state_Name st' = metric_Name m
    | MetricRollback st' r \<Rightarrow> state_Name st' = metric_Name m \<and> Decision st' = decision_rollback \<and>
        f64_le upper (LogLikelihood st')"
  using assms by (simp add: sprt_samples_def reset_state_def init_state_def Let_def)

lemma sprt_publish_out [simp]: "fst (sprt_publish ns ro r s) = fst r"
  by (simp add: sprt_publish_def split: prod.splits metric_out.splits bool.splits)

lemma sprt_metric_out:
  assumes "sprt_metric E url ns ro upper lower cur m s = (out, s')"
  shows "case out of
      MetricError err \<Rightarrow> True
    | MetricState st' \<Rightarrow> state_Name st' = metric_Name m
    | MetricRollback st' r \<Rightarrow> state_Name st' = metric_Name m \<and> Decision st' = decision_rollback \<and>
        f64_le upper (LogLikelihood st')"
proof -
  let ?st = "findOrInitState cur (metric_Name m)"
  consider err where "out = MetricError err" | "out = MetricState ?st"
    | ct cf t sf where "out = fst (sprt_samples (math_Log E) upper lower m ?st ct cf t sf)"
    using assms by (auto simp: sprt_metric_def Let_def split: prod.splits sum.splits option.splits if_splits
        dest!: arg_cong [of "sprt_publish _ _ _ _" _ fst])
  then show ?thesis
  proof cases
    case 3
    have "state_Name ?st = metric_Name m" by simp
    from sprt_samples_out [OF this, where lg = "math_Log E" and upper = upper and lower = lower
        and ct = ct and cf = cf and t = t and sf = sf] show ?thesis
      unfolding 3 by (simp split: metric_out.splits)
  qed simp_all
qed

lemma sprt_loop_out:
  "sprt_loop E url ns ro upper lower cur ms upd s = (out, s') \<Longrightarrow>
   (case out of
      LoopError err \<Rightarrow> True
    | LoopDone sts \<Rightarrow> \<exists>new. sts = upd @ new \<and> map state_Name new = map metric_Name ms
    | LoopRollback sts r \<Rightarrow> \<exists>new. sts = upd @ new \<and> new \<noteq> [] \<and>
        map state_Name new = take (length new) (map metric_Name ms) \<and>
        Decision (last new) = decision_rollback \<and> f64_le upper (LogLikelihood (last new)))"
proof (induction ms arbitrary: upd s)
  case (Cons m ms)
  obtain o1 s1 where m: "sprt_metric E url ns ro upper lower cur m s = (o1, s1)" by fastforce
  show ?case
  proof (cases o1)
    case (MetricError err)
    then show ?thesis using Cons.prems m by auto
  next
    case (MetricRollback st r)
    then have "out = LoopRollback (upd @ [st]) r" using Cons.prems m by simp
    then show ?thesis using sprt_metric_out [OF m] MetricRollback by (auto intro!: exI [of _ "[st]"])
  next
    case (MetricState st)
    have "sprt_loop E url ns ro upper lower cur ms (upd @ [st]) s1 = (out, s')"
      using Cons.prems m MetricState by simp
    note ih = Cons.IH [OF this]
    have name: "state_Name st = metric_Name m" using sprt_metric_out [OF m] MetricState by simp
    show ?thesis
    proof (cases out)
      case (LoopDone sts)
      then obtain new where "sts = upd @ st # new" "map state_Name new = map metric_Name ms"
        using ih by auto
      then show ?thesis using LoopDone name by (auto intro!: exI [of _ "st # new"])
    next
      case (LoopRollback sts r)
      then obtain new where "sts = upd @ st # new" "new \<noteq> []" "Decision (last new) = decision_rollback"
          "map state_Name new = take (length new) (map metric_Name ms)" "f64_le upper (LogLikelihood (last new))"
        using ih by auto
      then show ?thesis using LoopRollback name by (auto intro!: exI [of _ "st # new"])
    qed simp
  qed
qed auto


lemma sprt_loop_decided:
  "(\<And>m. m \<in> set ms \<Longrightarrow> metric_decided (findOrInitState cur (metric_Name m))) \<Longrightarrow>
   sprt_loop E url ns ro upper lower cur ms upd s =
     (LoopDone (upd @ map (\<lambda>m. findOrInitState cur (metric_Name m)) ms), s)"
  by (induction ms arbitrary: upd) (simp_all add: sprt_metric_def)

text \<open>
  A metric that has decided is left alone: when every configured metric has decided, the
  cycle makes no query, does not even read the clock, and returns the stored states.
\<close>

lemma decided_metrics_make_no_query:
  assumes "prom_client E url = None"
    and "\<forall>m\<in>set (Metrics a). metric_decided (findOrInitState cur (metric_Name m))"
  shows "\<exists>dec reason. RunSPRT E url ns ro a cur s =
    (Inr (dec, map (\<lambda>m. findOrInitState cur (metric_Name m)) (Metrics a), reason),
     gauge_update (recordSPRTBoundaries ns ro (upper_bound (math_Log E) a) (lower_bound (math_Log E) a)) s)"
  using assms by (simp add: RunSPRT_def Let_def sprt_loop_decided)

section \<open>Counting\<close>

text \<open>\<open>counts x n\<close>: the number \<open>x\<close> is the integer \<open>n\<close>, in the range where integers are exact.\<close>

definition counts :: "float64 \<Rightarrow> int \<Rightarrow> bool" where
  "counts x n \<longleftrightarrow> f64_num x \<and> fval x = real_of_int n \<and> 0 \<le> n \<and> n \<le> 2 ^ 53"

lemma counts_of_int: "0 \<le> n \<Longrightarrow> n \<le> 2 ^ 53 \<Longrightarrow> counts (f64_of_int n) n"
  using fval_of_int [of n] by (simp add: counts_def)

lemma counts_0 [simp]: "counts f64_0 0"
  by (simp add: counts_def f64_0_num)

lemma counts_sub:
  assumes "counts x n" "counts y k"
  shows "f64_num (f64_sub x y) \<and> fval (f64_sub x y) = real_of_int (n - k)"
  using assms by (intro f64_sub_int) (auto simp: counts_def)

lemma counts_sub_sign:
  assumes "counts x n" "counts y k"
  shows "f64_lt f64_0 (f64_sub x y) \<longleftrightarrow> k < n" "f64_lt (f64_sub x y) f64_0 \<longleftrightarrow> n < k"
  using counts_sub [OF assms] f64_0_num by (simp_all add: f64_lt_fval f64_num_def)

lemma counts_sub_int64:
  assumes "counts x n" "counts y k" "k \<le> n"
  shows "int64_of_f64 (f64_sub x y) = i64 (n - k)"
  using counts_sub [OF assms(1,2)] assms by (intro int64_of_f64_int) (auto simp: counts_def)

lemma accumulate_counts:
  assumes "counts ct n" "counts cf k" "counts (LastCanaryTotal st) n0" "counts (LastCanaryFailure st) k0"
    "n0 \<le> n" "k0 \<le> k"
  shows "Observations (accumulate lg p0 p1 ct cf st) = Observations st + i64 (n - n0)"
    "Failures (accumulate lg p0 p1 ct cf st) = Failures st + (if n0 < n then i64 (k - k0) else 0)"
  using assms counts_sub_sign(1) [OF assms(1,3)] counts_sub_int64 [OF assms(1,3)] counts_sub_int64 [OF assms(2,4)]
  by (auto simp: accumulate_def Let_def i64_def)

text \<open>
  Successive cycles of one metric on the four values each cycle reads; a decided metric is
  passed over, as the loop does.
\<close>

fun metric_cycles ::
    "(float64 \<Rightarrow> float64) \<Rightarrow> float64 \<Rightarrow> float64 \<Rightarrow> sprt_metric \<Rightarrow>
     (float64 \<times> float64 \<times> float64 \<times> float64) list \<Rightarrow> sprt_metric_state \<Rightarrow> sprt_metric_state" where
  "metric_cycles lg upper lower m [] st = st"
| "metric_cycles lg upper lower m ((ct, cf, t, sf) # xs) st =
     (if metric_decided st then st
      else case fst (sprt_samples lg upper lower m st ct cf t sf) of
             MetricState st' \<Rightarrow> metric_cycles lg upper lower m xs st'
           | MetricRollback st' r \<Rightarrow> metric_cycles lg upper lower m xs st'
           | MetricError err \<Rightarrow> st)"

text \<open>Samples whose canary counters are integers.\<close>

definition int_samples ::
    "(int \<times> int \<times> float64 \<times> float64) list \<Rightarrow> (float64 \<times> float64 \<times> float64 \<times> float64) list" where
  "int_samples xs = map (\<lambda>(n, k, t, sf). (f64_of_int n, f64_of_int k, t, sf)) xs"

lemma int_samples_simps [simp]:
  "int_samples [] = []"
  "int_samples ((n, k, t, sf) # xs) = (f64_of_int n, f64_of_int k, t, sf) # int_samples xs"
  by (simp_all add: int_samples_def)

definition counted :: "sprt_metric_state \<Rightarrow> int \<Rightarrow> int \<Rightarrow> bool" where
  "counted st n k \<longleftrightarrow> counts (LastCanaryTotal st) n \<and> counts (LastCanaryFailure st) k \<and> Observations st = i64 n"

lemma sprt_samples_counted:
  assumes st: "counted st n0 k0" and ct: "counts ct n" "n0 \<le> n" and cf: "counts cf k" "k0 \<le> k"
  shows "\<exists>st' n' k'. (fst (sprt_samples lg upper lower m st ct cf t sf) = MetricState st' \<or>
      (\<exists>r. fst (sprt_samples lg upper lower m st ct cf t sf) = MetricRollback st' r)) \<and>
    counted st' n' k' \<and> n' \<le> n \<and> k' \<le> k"
proof (cases "f64_eq t f64_0")
  case True
  then show ?thesis using assms by (auto simp: sprt_samples_def)
next
  case False
  let ?p0 = "baseline_rate t sf"
  let ?st = "accumulate lg ?p0 (alternative_rate ?p0 (Delta m)) ct cf st"
  have last: "counts (LastCanaryTotal st) n0" "counts (LastCanaryFailure st) k0" and o: "Observations st = i64 n0"
    using st by (simp_all add: counted_def)
  have no_reset: "\<not> counter_reset st ct cf"
    using counts_sub_sign(2) [OF ct(1) last(1)] counts_sub_sign(2) [OF cf(1) last(2)] ct(2) cf(2)
    by (simp add: counter_reset_def)
  have "Observations ?st = i64 n0 + i64 (n - n0)"
    using accumulate_counts(1) [OF ct(1) cf(1) last ct(2) cf(2)] o by simp
  also have "\<dots> = i64 n" by (simp add: i64_def)
  finally have "counted ?st n k" using ct cf by (simp add: counted_def)
  then have "counted (?st\<lparr>Decision := d\<rparr>) n k" for d by (simp add: counted_def)
  then show ?thesis using False no_reset \<open>counted ?st n k\<close> by (fastforce simp: sprt_samples_def Let_def)
qed

lemma metric_cycles_counted:
  assumes "counted st n0 k0"
    and "sorted (n0 # map fst xs)" "sorted (k0 # map (\<lambda>x. fst (snd x)) xs)"
    and "\<And>n k t sf. (n, k, t, sf) \<in> set xs \<Longrightarrow> n \<le> 2 ^ 53 \<and> k \<le> 2 ^ 53"
  shows "\<exists>n k. counted (metric_cycles lg upper lower m (int_samples xs) st) n k"
  using assms
proof (induction xs arbitrary: st n0 k0)
  case (Cons x xs)
  obtain n k t sf where x: "x = (n, k, t, sf)" by (cases x)
  have le: "0 \<le> n0" "n0 \<le> n" "n \<le> 2 ^ 53" "0 \<le> k0" "k0 \<le> k" "k \<le> 2 ^ 53"
    using Cons.prems by (auto simp: x counted_def counts_def)
  have c: "counts (f64_of_int n) n" "counts (f64_of_int k) k" using le by (simp_all add: counts_of_int)
  obtain st' n' k' where st': "fst (sprt_samples lg upper lower m st (f64_of_int n) (f64_of_int k) t sf) = MetricState st' \<or>
      (\<exists>r. fst (sprt_samples lg upper lower m st (f64_of_int n) (f64_of_int k) t sf) = MetricRollback st' r)"
      "counted st' n' k'" "n' \<le> n" "k' \<le> k"
    using sprt_samples_counted [OF Cons.prems(1) c(1) le(2) c(2) le(5)] by blast
  have "sorted (n' # map fst xs)" "sorted (k' # map (\<lambda>x. fst (snd x)) xs)"
    using Cons.prems(2,3) st'(3,4) by (auto simp: x)
  then have "\<exists>n k. counted (metric_cycles lg upper lower m (int_samples xs) st') n k"
    using Cons.prems(4) by (intro Cons.IH [OF st'(2)]) auto
  moreover have "metric_cycles lg upper lower m (int_samples (x # xs)) st =
      (if metric_decided st then st else metric_cycles lg upper lower m (int_samples xs) st')"
    using st'(1) by (auto simp: x)
  ultimately show ?case using Cons.prems(1) by (cases "metric_decided st") fastforce+
qed auto



text \<open>
  Failures that show up while the total has not grown are lost: the cycle leaves the
  log-likelihood and both counts as they were, yet remembers the new failure counter, so the
  next difference starts after them.
\<close>

lemma failures_without_total_are_dropped:
  assumes "counts ct n" "counts cf k" "counts (LastCanaryTotal st) n" "counts (LastCanaryFailure st) k0" "k0 < k"
  shows "accumulate lg p0 p1 ct cf st =
    st\<lparr> LastCanaryTotal := ct, LastCanaryFailure := cf, BaselineRate := p0 \<rparr>"
  using counts_sub_sign(1) [OF assms(1,3)] by (simp add: accumulate_def)

section \<open>The direction of the evidence\<close>

lemma f64_1_num [simp]: "f64_num f64_1" "fval f64_1 = 1"
  using fval_of_int [of 1] by (simp_all add: f64_1_def)

lemma f64_one_minus:
  assumes "f64_num p" "0 < fval p" "fval p < 1"
  shows "f64_num (f64_sub f64_1 p)" "fval (f64_sub f64_1 p) = fround (1 - fval p)"
    "pow2 (- 1074) \<le> fval (f64_sub f64_1 p)" "fval (f64_sub f64_1 p) \<le> 1"
proof -
  have r: "represents (f64_sub f64_1 p) (1 - fval p)"
    using f64_sub_represents [OF f64_1_num(1) assms(1)] by simp
  show n: "f64_num (f64_sub f64_1 p)" "fval (f64_sub f64_1 p) = fround (1 - fval p)"
    using represents_between [OF r, of 0] assms by simp_all
  show "pow2 (- 1074) \<le> fval (f64_sub f64_1 p)"
    unfolding n(2) using fval_gap [OF f64_1_num(1) assms(1)] assms by (intro fround_ge_min) simp
  show "fval (f64_sub f64_1 p) \<le> 1"
    unfolding n(2) using fround_le_pow2 [of "1 - fval p" 0] assms by simp
qed

lemma epsilon_min: "f64_num epsilon" "pow2 (- 34) \<le> fval epsilon"
proof -
  have r: "represents epsilon (1 / 10000000000)"
    using f64_lit_represents [of 10000000000 1] by (simp add: epsilon_def)
  note b = represents_between [OF r, of 0]
  show "f64_num epsilon" using b(1) by simp
  have "pow2 (- 34) \<le> 1 / 10000000000" by (simp add: pow2_uminus pow2_numeral)
  then show "pow2 (- 34) \<le> fval epsilon"
    using b(2) fround_mono [of "pow2 (- 34)" "1 / 10000000000"] fround_exact [of 1 "- 34"] by simp
qed

lemma epsilon_le_1: "fval epsilon \<le> 1"
proof -
  have r: "represents epsilon (1 / 10000000000)"
    using f64_lit_represents [of 10000000000 1] by (simp add: epsilon_def)
  show ?thesis using represents_between(2) [OF r, of 0] fround_le_pow2 [of "1 / 10000000000" 0] by simp
qed

lemma one_minus_epsilon_pos: "0 < fval one_minus_epsilon"
proof -
  have r: "represents one_minus_epsilon (9999999999 / 10000000000)"
    using f64_lit_represents [of 10000000000 9999999999] by (simp add: one_minus_epsilon_def)
  have "pow2 (- 1) \<le> 9999999999 / 10000000000" by (simp add: pow2_uminus) (simp add: pow2_def)
  then have "pow2 (- 1) \<le> fround (9999999999 / 10000000000)"
    using fround_mono [of "pow2 (- 1)"] fround_exact [of 1 "- 1"] by simp
  then have "0 < fround (9999999999 / 10000000000)" using pow2_pos [of "- 1"] by linarith
  then show ?thesis using represents_between(2) [OF r, of 0] by simp
qed

lemma one_minus_epsilon_num: "f64_num one_minus_epsilon" "fval one_minus_epsilon < 1"
proof -
  have r: "represents one_minus_epsilon (9999999999 / 10000000000)"
    using f64_lit_represents [of 10000000000 9999999999] by (simp add: one_minus_epsilon_def)
  note b = represents_between [OF r, of 0]
  show "f64_num one_minus_epsilon" using b(1) by simp
  have "9999999999 / 10000000000 \<le> (1 :: real) - pow2 (- 34)" by (simp add: pow2_uminus pow2_numeral)
  also have "(1 :: real) - pow2 (- 34) = real_of_int (2 ^ 34 - 1) * pow2 (- 34)"
    by (simp add: pow2_uminus pow2_numeral)
  finally have "fround (9999999999 / 10000000000) \<le> fround (real_of_int (2 ^ 34 - 1) * pow2 (- 34))"
    by (rule fround_mono)
  also have "\<dots> = real_of_int (2 ^ 34 - 1) * pow2 (- 34)" by (rule fround_exact) simp_all
  also have "\<dots> < 1" by (simp add: pow2_uminus pow2_numeral)
  finally show "fval one_minus_epsilon < 1" using b(2) by simp
qed

text \<open>The two rates the test compares, as the code bounds them.\<close>

definition test_rates :: "float64 \<Rightarrow> float64 \<Rightarrow> bool" where
  "test_rates p0 p1 \<longleftrightarrow> f64_num p0 \<and> f64_num p1 \<and> f64_le epsilon p0 \<and> f64_le p0 p1 \<and> f64_lt p1 f64_1"

lemma test_rates_fval:
  assumes "test_rates p0 p1"
  shows "f64_num p0" "f64_num p1" "pow2 (- 34) \<le> fval p0" "0 < fval p0" "fval p0 \<le> fval p1" "fval p1 < 1"
proof -
  show n: "f64_num p0" "f64_num p1" using assms by (simp_all add: test_rates_def)
  show "pow2 (- 34) \<le> fval p0"
    using assms n epsilon_min f64_le_num [of epsilon p0] by (simp add: test_rates_def)
  then show "0 < fval p0" using pow2_pos [of "- 34"] by linarith
  show "fval p0 \<le> fval p1" "fval p1 < 1"
    using assms n f64_le_num [of p0 p1] f64_lt_num [of p1 f64_1] by (simp_all add: test_rates_def)
qed

text \<open>
  The rates the code computes are such rates: with integer stable counters, a total that
  is not zero, no more failures than requests, a \<open>delta\<close> that is a number and not negative, and a
  baseline no nearer to 1 than \<open>epsilon\<close>, it compares \<open>epsilon \<le> p0 \<le> p1 < 1\<close>, whatever the rounding.
\<close>

lemma computed_rates_are_tested:
  assumes "counts t nt" "counts sf nf" "nf \<le> nt" "0 < nt" "f64_num d" "f64_le f64_0 d"
    and "f64_le (baseline_rate t sf) one_minus_epsilon"
  shows "test_rates (baseline_rate t sf) (alternative_rate (baseline_rate t sf) d)"
proof -
  let ?q = "f64_div sf t" and ?p0 = "baseline_rate t sf"
  have "represents ?q (real_of_int nf / real_of_int nt)"
    using f64_div_represents [of sf t] assms(1,2,4) by (simp add: counts_def)
  moreover have "0 \<le> real_of_int nf / real_of_int nt" "real_of_int nf / real_of_int nt \<le> 1"
    using assms(2-4) by (simp_all add: counts_def)
  ultimately have q: "f64_num ?q" using represents_between(1) [of ?q _ 0] by simp
  then have p0: "f64_num ?p0" "f64_le epsilon ?p0"
    using epsilon_min(1) f64_lt_num [OF q epsilon_min(1)] f64_le_num [OF epsilon_min(1)]
    by (auto simp: baseline_rate_def Let_def)
  note one = one_minus_epsilon_num
  have d: "0 \<le> fval d" using assms(5,6) f64_0_num f64_le_num [of f64_0 d] by simp
  have le: "f64_le ?p0 (f64_add ?p0 d)"
    using f64_add_rep_le(2) [OF p0(1) represents_num [OF assms(5)] d] .
  show ?thesis
  proof (cases "f64_le f64_1 (f64_add ?p0 d)")
    case True
    then have "alternative_rate ?p0 d = one_minus_epsilon" by (simp add: alternative_rate_def Let_def)
    then show ?thesis using p0 assms(7) one by (simp add: test_rates_def f64_lt_num)
  next
    case False
    have r: "represents (f64_add ?p0 d) (fval ?p0 + fval d)" by (rule f64_add_represents [OF p0(1) assms(5)])
    have "0 < fval ?p0" using p0 epsilon_min f64_le_num [OF epsilon_min(1) p0(1)] pow2_pos [of "- 34"] by linarith
    then have "f64_add ?p0 d \<noteq> F64_Inf True" using r d by (auto simp: represents_def split: if_splits)
    moreover have "f64_le f64_1 (F64_Inf False)"
    proof -
      obtain s m e where one': "f64_1 = F64_Fin s m e" using f64_1_num(1) by (rule f64_numE)
      show ?thesis unfolding one' by (simp add: f64_le_def)
    qed
    ultimately have n: "f64_num (f64_add ?p0 d)" using r False by (auto simp: represents_def f64_num_def split: if_splits)
    then have "f64_lt (f64_add ?p0 d) f64_1" using False f64_1_num by (simp add: f64_lt_num f64_le_num)
    then show ?thesis using p0 le n False by (simp add: test_rates_def alternative_rate_def Let_def)
  qed
qed

lemma failure_ratio:
  assumes "test_rates p0 p1"
  shows "f64_num (f64_div p1 p0)" "1 \<le> fval (f64_div p1 p0)"
proof -
  note p = test_rates_fval [OF assms]
  have r: "represents (f64_div p1 p0) (fval p1 / fval p0)" using p by (intro f64_div_represents) simp_all
  have "fval p1 / fval p0 \<le> 1 / pow2 (- 34)" using p by (intro frac_le) simp_all
  then have "fval p1 / fval p0 \<le> pow2 34" by (simp add: pow2_uminus)
  then have q: "f64_num (f64_div p1 p0)" "fval (f64_div p1 p0) = fround (fval p1 / fval p0)"
    using represents_between [OF r, of 34] p by simp_all
  show "f64_num (f64_div p1 p0)" by (rule q)
  have "1 \<le> fval p1 / fval p0" using p by simp
  then show "1 \<le> fval (f64_div p1 p0)"
    unfolding q(2) using fround_mono [of 1 "fval p1 / fval p0"] fround_exact [of 1 0] by simp
qed

lemma success_ratio:
  assumes "test_rates p0 p1"
  shows "f64_num (f64_div (f64_sub f64_1 p1) (f64_sub f64_1 p0))"
    "0 < fval (f64_div (f64_sub f64_1 p1) (f64_sub f64_1 p0))"
    "fval (f64_div (f64_sub f64_1 p1) (f64_sub f64_1 p0)) \<le> 1"
proof -
  note p = test_rates_fval [OF assms]
  let ?a = "f64_sub f64_1 p1" and ?b = "f64_sub f64_1 p0"
  have p1: "0 < fval p1" "fval p1 < 1" and p0: "fval p0 < 1" using p by linarith+
  note a = f64_one_minus [OF p(2) p1] and b = f64_one_minus [OF p(1) p(4) p0]
  have pos: "0 < fval ?a" "0 < fval ?b" using a(3) b(3) pow2_pos [of "- 1074"] by linarith+
  have r: "represents (f64_div ?a ?b) (fval ?a / fval ?b)"
    using a b pos by (intro f64_div_represents) simp_all
  have "fval ?a \<le> fval ?b" unfolding a(2) b(2) using p by (intro fround_mono) simp
  then have le: "fval ?a / fval ?b \<le> 1" using pos by simp
  have "pow2 (- 1074) / 1 \<le> fval ?a / fval ?b" using a(3) b(4) pos by (intro frac_le) simp_all
  then have ge: "pow2 (- 1074) \<le> fval ?a / fval ?b" by simp
  have q: "f64_num (f64_div ?a ?b)" "fval (f64_div ?a ?b) = fround (fval ?a / fval ?b)"
    using represents_between [OF r, of 0] pos le by simp_all
  show "f64_num (f64_div ?a ?b)" by (rule q)
  show "0 < fval (f64_div ?a ?b)"
    unfolding q(2) using fround_ge_min [OF ge] pow2_pos [of "- 1074"] by linarith
  show "fval (f64_div ?a ?b) \<le> 1"
    unfolding q(2) using fround_le_pow2 [of _ 0] le by simp
qed

lemma f64_mul_sign:
  assumes "counts x n" "f64_num y"
  shows "represents (f64_mul x y) (real_of_int n * fval y)"
  using f64_mul_represents [of x y] assms by (simp add: counts_def)

lemma f64_mul_zero:
  assumes "counts x 0" "f64_num y"
  shows "f64_num (f64_mul x y)" "fval (f64_mul x y) = 0"
  using f64_mul_sign [OF assms] by (auto simp: represents_def f64_num_def)

lemma counts_diff: "counts x n \<Longrightarrow> counts y k \<Longrightarrow> k \<le> n \<Longrightarrow> counts (f64_sub x y) (n - k)"
  using counts_sub [of x n y k] by (simp add: counts_def)

lemma evidence_represents:
  assumes lg: "log_sound lg" and p: "test_rates p0 p1" and n: "counts nt n" and k: "counts nf k"
  shows "k = 0 \<Longrightarrow> \<exists>r \<le> 0. represents (evidence lg p0 p1 nt nf) r"
    and "k = n \<Longrightarrow> \<exists>r \<ge> 0. represents (evidence lg p0 p1 nt nf) r"
proof -
  let ?q1 = "f64_div p1 p0" and ?q2 = "f64_div (f64_sub f64_1 p1) (f64_sub f64_1 p0)"
  note q1 = failure_ratio [OF p] and q2 = success_ratio [OF p]
  have l1: "f64_num (lg ?q1)" "0 \<le> fval (lg ?q1)"
    using log_sound.log_num [OF lg q1(1)] log_sound.log_ge_one [OF lg q1(1)] q1 f64_0_num f64_1_num
    by (simp_all add: f64_lt_num f64_le_num f64_1_def)
  have l2: "f64_num (lg ?q2)" "fval (lg ?q2) \<le> 0"
    using log_sound.log_num [OF lg q2(1)] log_sound.log_le_one [OF lg q2(1)] q2 f64_0_num f64_1_num
    by (simp_all add: f64_lt_num f64_le_num f64_1_def)
  have pos: "0 \<le> n" "0 \<le> k" using n k by (simp_all add: counts_def)
  show "\<exists>r \<le> 0. represents (evidence lg p0 p1 nt nf) r" if "k = 0"
  proof (intro exI conjI)
    have s: "counts (f64_sub nt nf) n" using counts_diff [OF n k] that pos by simp
    show "represents (evidence lg p0 p1 nt nf) (real_of_int n * fval (lg ?q2))"
      using f64_add_zero(1) [OF f64_mul_zero [OF k [unfolded that] l1(1)] f64_mul_sign [OF s l2(1)]]
      by (simp add: evidence_def)
    show "real_of_int n * fval (lg ?q2) \<le> 0" using pos l2(2) by (simp add: mult_nonneg_nonpos)
  qed
  show "\<exists>r \<ge> 0. represents (evidence lg p0 p1 nt nf) r" if "k = n"
  proof (intro exI conjI)
    have s: "counts (f64_sub nt nf) 0" using counts_diff [OF n k] that by simp
    show "represents (evidence lg p0 p1 nt nf) (real_of_int k * fval (lg ?q1))"
      using f64_add_zero(2) [OF f64_mul_zero [OF s l2(1)] f64_mul_sign [OF k l1(1)]]
      by (simp add: evidence_def)
    show "0 \<le> real_of_int k * fval (lg ?q1)" using pos l1(2) by simp
  qed
qed



section \<open>The boundaries\<close>

lemma f64_one_minus_le:
  assumes "f64_num x" "0 < fval x"
  shows "f64_num (f64_sub f64_1 x)"
proof -
  have r: "represents (f64_sub f64_1 x) (1 - fval x)"
    using f64_sub_represents [OF f64_1_num(1) assms(1)] by simp
  have "- fval x \<le> 1 - fval x" "1 - fval x \<le> 1" using assms(2) by simp_all
  then have "fround (- fval x) \<le> fround (1 - fval x)" "fround (1 - fval x) \<le> fround 1"
    by (intro fround_mono; simp)+
  moreover have "fround (- fval x) = - fval x" "fround 1 = 1"
    using fround_fval [of "f64_neg x"] assms(1) fround_exact [of 1 0] by (simp_all add: fval_neg f64_num_def)
  moreover have "\<bar>fval x\<bar> < pow2 1024" "1 < pow2 1024"
    using fval_less_max [of x] assms(1) pow2_less_iff [of 0 1024] by (simp_all add: f64_num_def)
  ultimately have "\<bar>fround (1 - fval x)\<bar> < pow2 1024" by linarith
  then show ?thesis using r by (simp add: represents_def f64_num_def)
qed

lemma log_quotient_ge:
  assumes lg: "log_sound lg" and xy: "f64_num x" "f64_num y" "0 < fval y" "fval y \<le> fval x"
  shows "f64_le f64_0 (lg (f64_div x y))"
proof -
  have r: "represents (f64_div x y) (fval x / fval y)" using xy by (intro f64_div_represents) simp_all
  have ge: "1 \<le> fval x / fval y" using xy by simp
  show ?thesis
    using r
  proof (cases rule: represents_cases)
    case 1
    have "1 \<le> fval (f64_div x y)" unfolding 1(2) using fround_mono [OF ge] fround_exact [of 1 0] by simp
    moreover have "f64_num (lg (f64_div x y))"
      using calculation 1(1) f64_0_num by (intro log_sound.log_num [OF lg]) (simp_all add: f64_lt_num)
    ultimately show ?thesis
      using log_sound.log_ge_one [OF lg 1(1)] 1(1) f64_1_num f64_0_num by (simp add: f64_le_num f64_1_def)
  next
    case 2
    then have "f64_div x y = F64_Inf False" using ge by simp
    then show ?thesis
      using log_special.log_Inf [OF log_sound.axioms(1) [OF lg]] by (simp add: f64_le_def f64_0_def)
  qed
qed

lemma log_quotient_le:
  assumes lg: "log_sound lg" and xy: "f64_num x" "f64_num y" "0 < fval x" "fval x \<le> fval y"
  shows "f64_le (lg (f64_div x y)) f64_0"
proof -
  have r: "represents (f64_div x y) (fval x / fval y)" using xy by (intro f64_div_represents) simp_all
  have b: "0 \<le> fval x / fval y" "fval x / fval y \<le> 1" using xy by simp_all
  have q: "f64_num (f64_div x y)" "fval (f64_div x y) = fround (fval x / fval y)"
    using represents_between [OF r, of 0] b by simp_all
  have v: "0 \<le> fval (f64_div x y)" "fval (f64_div x y) \<le> 1"
    unfolding q(2) using fround_sign(1) [OF b(1)] fround_le_pow2 [of _ 0] b(2) by simp_all
  show ?thesis
  proof (cases "fval (f64_div x y) = 0")
    case True
    then have "f64_eq (f64_div x y) f64_0" using q(1) f64_0_num by (simp add: f64_eq_fval f64_num_def)
    then show ?thesis
      using log_special.log_zero [OF log_sound.axioms(1) [OF lg]] by (simp add: f64_le_def f64_0_def)
  next
    case False
    then have "f64_lt f64_0 (f64_div x y)" using v q(1) f64_0_num by (simp add: f64_lt_num)
    then show ?thesis
      using log_sound.log_num [OF lg q(1)] log_sound.log_le_one [OF lg q(1)] v(2) q(1) f64_0_num f64_1_num
      by (simp add: f64_le_num f64_1_def)
  qed
qed



lemma accumulate_NaN:
  "LogLikelihood st = F64_NaN \<Longrightarrow> LogLikelihood (accumulate lg p0 p1 ct cf st) = F64_NaN"
  by (simp add: accumulate_def Let_def)

section \<open>A stable service that fails every request\<close>

lemma stable_outage:
  assumes lg: "log_sound lg" and t: "counts t n" "0 < n" and d: "f64_num d" "f64_le f64_0 d"
    and c: "counts nt m" "counts nf k" "k \<le> m"
  shows "k = 0 \<Longrightarrow> 0 < m \<Longrightarrow>
      evidence lg (baseline_rate t t) (alternative_rate (baseline_rate t t) d) nt nf = F64_Inf False"
    and "k = m \<Longrightarrow>
      evidence lg (baseline_rate t t) (alternative_rate (baseline_rate t t) d) nt nf = F64_NaN"
proof -
  let ?p = "f64_div t t"
  have "represents ?p 1" using f64_div_represents [of t t] t by (simp add: counts_def)
  then have p: "f64_num ?p" "fval ?p = 1" using represents_int [of ?p 1] by simp_all
  have "pow2 (- 34) < 1" "fval epsilon \<le> 1" using epsilon_le_1 pow2_less_iff [of "- 34" 0] by simp_all
  then have b: "baseline_rate t t = ?p"
    using f64_lt_num [OF p(1) epsilon_min(1)] p(2) by (simp add: baseline_rate_def Let_def)
  have dd: "0 \<le> fval d" using d f64_0_num f64_le_num [of f64_0 d] by simp
  have "f64_le f64_1 (f64_add ?p d)"
    using represents_mono [OF represents_num [OF f64_1_num(1)] f64_add_represents [OF p(1) d(1)]] p(2) dd by simp
  then have a: "alternative_rate ?p d = one_minus_epsilon" by (simp add: alternative_rate_def Let_def)
  note one = one_minus_epsilon_num
  have z: "f64_sub f64_1 ?p = f64_0" using f64_sub_equal [OF f64_1_num(1) p(1)] p(2) by simp
  have n1: "0 < fval (f64_sub f64_1 one_minus_epsilon)"
    using f64_one_minus(3) [OF one(1) one_minus_epsilon_pos one(2)] pow2_pos [of "- 1074"] by linarith
  have inf: "lg (f64_div (f64_sub f64_1 one_minus_epsilon) (f64_sub f64_1 ?p)) = F64_Inf False"
    unfolding z f64_div_zero [OF f64_one_minus(1) [OF one(1) one_minus_epsilon_pos one(2)] n1]
    by (rule log_special.log_Inf [OF log_sound.axioms(1) [OF lg]])
  have "represents (f64_div one_minus_epsilon ?p) (fval one_minus_epsilon)"
    using f64_div_represents [OF one(1) p(1)] p(2) by simp
  then have q: "f64_num (f64_div one_minus_epsilon ?p)"
      "fval (f64_div one_minus_epsilon ?p) = fval one_minus_epsilon"
    using represents_between [of _ "fval one_minus_epsilon" 0] one one_minus_epsilon_pos
      fround_fval [of one_minus_epsilon] by (simp_all add: f64_num_def)
  have l: "f64_num (lg (f64_div one_minus_epsilon ?p))"
    using q one_minus_epsilon_pos f64_0_num by (intro log_sound.log_num [OF lg]) (simp_all add: f64_lt_num)
  have s: "counts (f64_sub nt nf) (m - k)" by (rule counts_diff [OF c])
  have ev: "evidence lg (baseline_rate t t) (alternative_rate (baseline_rate t t) d) nt nf =
      f64_add (f64_mul nf (lg (f64_div one_minus_epsilon ?p))) (f64_mul (f64_sub nt nf) (F64_Inf False))"
    by (simp add: evidence_def b a inf)
  show "k = 0 \<Longrightarrow> 0 < m \<Longrightarrow>
      evidence lg (baseline_rate t t) (alternative_rate (baseline_rate t t) d) nt nf = F64_Inf False"
    unfolding ev using s f64_mul_Inf(1) [of "f64_sub nt nf"] f64_mul_zero(1) [of nf, OF _ l] c(2)
    by (simp add: counts_def f64_add_Inf)
  show "k = m \<Longrightarrow>
      evidence lg (baseline_rate t t) (alternative_rate (baseline_rate t t) d) nt nf = F64_NaN"
    unfolding ev using s f64_mul_Inf(2) [of "f64_sub nt nf"] by (simp add: counts_def)
qed

text \<open>
  C23: when every request to the stable service fails (\<open>p0 = 1\<close>), a canary with new requests and
  no failure at all is rolled back at once: the success ratio divides by zero, its logarithm is
  infinite, and the log-likelihood is beyond any upper boundary.
\<close>

theorem stable_outage_rolls_back_clean_canary:
  assumes "log_sound lg" "counts t n" "0 < n" "f64_num (Delta m)" "f64_le f64_0 (Delta m)"
    and "counts ct c" "counts (LastCanaryTotal st) c0" "c0 < c"
    and "counts cf k" "counts (LastCanaryFailure st) k"
    and "f64_num (LogLikelihood st)" "upper \<noteq> F64_NaN"
  shows "\<exists>st' reason. sprt_samples lg upper lower m st ct cf t t = (MetricRollback st' reason, True) \<and>
    Failures st' = Failures st"
proof -
  let ?p0 = "baseline_rate t t"
  let ?st = "accumulate lg ?p0 (alternative_rate ?p0 (Delta m)) ct cf st"
  have nt: "counts (f64_sub ct (LastCanaryTotal st)) (c - c0)" "counts (f64_sub cf (LastCanaryFailure st)) 0"
    using counts_diff [OF assms(6,7)] counts_diff [OF assms(9,10)] assms(8) by simp_all
  have k: "k \<le> k" "c0 \<le> c" using assms(8) by simp_all
  have new: "f64_lt f64_0 (f64_sub ct (LastCanaryTotal st))"
    using counts_sub_sign(1) [OF assms(6,7)] assms(8) by simp
  have "LogLikelihood ?st = f64_add (LogLikelihood st) (F64_Inf False)"
    using new stable_outage(1) [OF assms(1-5) nt] assms(8) by (simp add: accumulate_def Let_def)
  then have up: "f64_le upper (LogLikelihood ?st)"
    using f64_add_Inf [OF assms(11)] f64_le_Inf [OF assms(12)] by simp
  have "\<not> f64_eq t f64_0" using assms(2,3) f64_0_num by (simp add: counts_def f64_eq_fval f64_num_def)
  moreover have "\<not> counter_reset st ct cf"
    using counts_sub_sign(2) [OF assms(6,7)] counts_sub_sign(2) [OF assms(9,10)] assms(8)
    by (simp add: counter_reset_def)
  moreover have "Failures ?st = Failures st"
    using accumulate_counts(2) [OF assms(6,9,7,10) k(2,1)] by (simp add: i64_def)
  ultimately show ?thesis using up by (simp add: sprt_samples_def Let_def)
qed

theorem stable_outage_rolls_back_clean_canary_witness:
  "\<exists>st' reason. sprt_samples log_ideal (f64_of_int 3) (f64_of_int (- 3)) demo_metric (init_state ''http-errors'')
     (f64_of_int 20) f64_0 (f64_of_int 7) (f64_of_int 7) = (MetricRollback st' reason, True) \<and> Failures st' = 0"
proof -
  let ?st = "init_state ''http-errors''"
  have "\<exists>st' reason. sprt_samples log_ideal (f64_of_int 3) (f64_of_int (- 3)) demo_metric ?st
     (f64_of_int 20) f64_0 (f64_of_int 7) (f64_of_int 7) = (MetricRollback st' reason, True) \<and>
     Failures st' = Failures ?st"
  proof (rule stable_outage_rolls_back_clean_canary [OF ideal.log_sound_axioms, of _ 7 _ _ 20 _ 0 _ 0])
    show "f64_num (Delta demo_metric)" "f64_le f64_0 (Delta demo_metric)" by code_simp+
    show "f64_of_int 3 \<noteq> F64_NaN" by code_simp
  qed (simp_all add: counts_of_int init_state_def f64_0_num)
  then show ?thesis by (simp add: init_state_def)
qed

lemma NaN_stays:
  assumes "LogLikelihood st = F64_NaN" "\<not> metric_decided st" "counted st n0 k0"
    and "sorted (n0 # map fst xs)" "sorted (k0 # map (\<lambda>x. fst (snd x)) xs)"
    and "\<And>n k t sf. (n, k, t, sf) \<in> set xs \<Longrightarrow> n \<le> 2 ^ 53 \<and> k \<le> 2 ^ 53"
  shows "LogLikelihood (metric_cycles lg upper lower m (int_samples xs) st) = F64_NaN \<and>
    \<not> metric_decided (metric_cycles lg upper lower m (int_samples xs) st)"
  using assms
proof (induction xs arbitrary: st n0 k0)
  case (Cons x xs)
  obtain n k t sf where x: "x = (n, k, t, sf)" by (cases x)
  have le: "0 \<le> n0" "n0 \<le> n" "n \<le> 2 ^ 53" "0 \<le> k0" "k0 \<le> k" "k \<le> 2 ^ 53"
    using Cons.prems by (auto simp: x counted_def counts_def)
  have c: "counts (f64_of_int n) n" "counts (f64_of_int k) k" using le by (simp_all add: counts_of_int)
  have last: "counts (LastCanaryTotal st) n0" "counts (LastCanaryFailure st) k0"
    using Cons.prems(3) by (simp_all add: counted_def)
  have nr: "\<not> counter_reset st (f64_of_int n) (f64_of_int k)"
    using counts_sub_sign(2) [OF c(1) last(1)] counts_sub_sign(2) [OF c(2) last(2)] le
    by (simp add: counter_reset_def)
  obtain st' where st': "fst (sprt_samples lg upper lower m st (f64_of_int n) (f64_of_int k) t sf) = MetricState st'"
      "LogLikelihood st' = F64_NaN" "\<not> metric_decided st'"
    using nr Cons.prems(1,2) accumulate_NaN [OF Cons.prems(1)]
    by (cases "f64_eq t f64_0") (auto simp: sprt_samples_def Let_def metric_decided_def)
  obtain n' k' where n': "counted st' n' k'" "n' \<le> n" "k' \<le> k"
    using sprt_samples_counted [OF Cons.prems(3) c(1) le(2) c(2) le(5), of lg upper lower m t sf] st'(1) by auto
  have "sorted (n' # map fst xs)" "sorted (k' # map (\<lambda>x. fst (snd x)) xs)"
    using Cons.prems(4,5) n'(2,3) by (auto simp: x)
  then have "LogLikelihood (metric_cycles lg upper lower m (int_samples xs) st') = F64_NaN \<and>
      \<not> metric_decided (metric_cycles lg upper lower m (int_samples xs) st')"
    using Cons.prems(6) by (intro Cons.IH [OF st'(2,3) n'(1)]) auto
  then show ?case using st'(1) Cons.prems(2) by (simp add: x)
qed auto



text \<open>
  The boundaries may meet: with \<open>alpha = beta = 1/2\<close>, which the resource's validation
  allows, the upper boundary is 0 and a metric is rolled back on its first cycle with stable
  traffic, although the canary has received no request.
\<close>

lemma meeting_boundaries_roll_back:
  assumes "log_sound lg" "Alpha a = f64_lit 1 2" "Beta a = f64_lit 1 2"
    and "counts t n" "0 < n"
  shows "\<exists>st' reason. sprt_samples lg (upper_bound lg a) (lower_bound lg a) m (init_state (metric_Name m))
      f64_0 f64_0 t sf = (MetricRollback st' reason, True) \<and> Observations st' = 0"
proof -
  have "f64_div (f64_sub f64_1 (f64_lit 1 2)) (f64_lit 1 2) = f64_of_int 1" by code_simp
  then have u: "upper_bound lg a = lg (f64_of_int 1)" using assms(2,3) by (simp add: upper_bound_def)
  have one: "f64_lt f64_0 (f64_of_int 1)" by code_simp
  have "f64_num (lg (f64_of_int 1))"
    using log_sound.log_num [OF assms(1) _ one] f64_1_num by (simp add: f64_1_def)
  then have le: "f64_le (upper_bound lg a) f64_0"
    using log_sound.log_one [OF assms(1)] f64_0_num by (simp add: u f64_le_num)
  have nz: "\<not> f64_eq t f64_0" using assms(4,5) f64_0_num by (simp add: counts_def f64_eq_fval f64_num_def)
  have z: "\<not> f64_lt f64_0 (f64_sub f64_0 f64_0)" "\<not> f64_lt (f64_sub f64_0 f64_0) f64_0" by code_simp+
  have "LogLikelihood (accumulate lg p0 p1 f64_0 f64_0 (init_state (metric_Name m))) = f64_0"
    "Observations (accumulate lg p0 p1 f64_0 f64_0 (init_state (metric_Name m))) = 0" for p0 p1
    using z by (simp_all add: accumulate_def init_state_def Let_def)
  moreover have "\<not> counter_reset (init_state (metric_Name m)) f64_0 f64_0"
    using z by (simp add: counter_reset_def init_state_def)
  ultimately show ?thesis using nz le by (simp add: sprt_samples_def Let_def)
qed

lemma meeting_boundaries_roll_back_witness:
  "\<exists>st' reason. sprt_samples log_ideal
      (upper_bound log_ideal (demo_analysis\<lparr>Alpha := f64_lit 1 2, Beta := f64_lit 1 2\<rparr>))
      (lower_bound log_ideal (demo_analysis\<lparr>Alpha := f64_lit 1 2, Beta := f64_lit 1 2\<rparr>))
      demo_metric (init_state (metric_Name demo_metric)) f64_0 f64_0 (f64_of_int 100) f64_0
    = (MetricRollback st' reason, True) \<and> Observations st' = 0"
  by (rule meeting_boundaries_roll_back [OF ideal.log_sound_axioms, of _ _ 100]) (simp_all add: counts_of_int)

end
