(* ===== verification/Reconciler_Calls.thy ===== *)
theory Reconciler_Calls
  imports Reconciler
begin

text \<open>
  The abstract state machine of a rollout (\<open>cycle_step\<close>: which status a cycle may write, and
  which traffic split it asks for) and the proof that every cycle of \<open>Reconcile\<close>, for every
  environment, is one of its steps. The facts on phases, steps, weights and the order of the
  writes follow from this relation.
\<close>

section \<open>Reads\<close>

fun clock_reads :: "event list \<Rightarrow> gotime list" where
  "clock_reads [] = []"
| "clock_reads (ClockRead t # es) = t # clock_reads es"
| "clock_reads (_ # es) = clock_reads es"

lemma clock_reads_append [simp]: "clock_reads (es @ fs) = clock_reads es @ clock_reads fs"
  by (induction es rule: clock_reads.induct) simp_all

lemma clock_read_event: "t \<in> set (clock_reads es) \<Longrightarrow> ClockRead t \<in> set es"
  by (induction es rule: clock_reads.induct) auto

definition quiet :: "event list \<Rightarrow> bool" where
  "quiet es \<longleftrightarrow> status_writes es = [] \<and> vs_writes es = []"

lemma quiet_simps [simp]:
  "quiet []" "quiet (es @ fs) \<longleftrightarrow> quiet es \<and> quiet fs"
  "quiet [ClockRead t]" "quiet [PromQuery u q]" "quiet [GetRollout ns n]" "quiet [GetVS ns n]"
  "quiet [GetDeployment ns n]" "quiet [ListPods ns ls]"
  by (auto simp: quiet_def)

text \<open>From one state to the other the program only read.\<close>

definition quiet_run :: "('w \<times> event list) sys \<Rightarrow> ('w \<times> event list) sys \<Rightarrow> bool" where
  "quiet_run s s' \<longleftrightarrow> (\<exists>es. emits es s s' \<and> quiet es)"

lemma quiet_runI: "emits es s s' \<Longrightarrow> quiet es \<Longrightarrow> quiet_run s s'"
  by (auto simp: quiet_run_def)

lemma quiet_run_refl [simp]: "quiet_run s s"
  by (rule quiet_runI [of "[]"]) simp_all

lemma quiet_run_trans: "quiet_run s s' \<Longrightarrow> quiet_run s' s'' \<Longrightarrow> quiet_run s s''"
  by (auto simp: quiet_run_def) (metis emits_trans quiet_simps(2))

lemma quiet_run_gauges [simp]:
  "quiet_run (gauge_update f s) s' = quiet_run s s'" "quiet_run s (gauge_update f s') = quiet_run s s'"
  by (simp_all add: quiet_run_def)

lemma call_quiet:
  "call (log_call ev f) s = (r, s') \<Longrightarrow> quiet [ev] \<Longrightarrow> quiet_run s s'"
  "call (time_Now (traced E)) s = (t, s') \<Longrightarrow> quiet_run s s'"
  by (blast intro: quiet_runI call_log(1)) (blast intro: quiet_runI call_now quiet_simps(3))

lemma queryScalar_quiet:
  assumes "queryScalar (traced E) url q s = (r, s')"
  shows "quiet_run s s'"
proof -
  obtain t s1 where c1: "call (time_Now (traced E)) s = (t, s1)" by fastforce
  obtain v s2 where c2: "call (prom_query (traced E) url q t) s1 = (v, s2)" by fastforce
  have "s2 = s'" using assms c1 c2 by (simp add: queryScalar_def)
  then show ?thesis
    using call_quiet(2) [OF c1] call_quiet(1) [OF c2 [unfolded traced_sel]] quiet_run_trans by fastforce
qed

lemma sprt_publish_quiet:
  "sprt_publish ns ro r s = (out, s') \<Longrightarrow> quiet_run s s'"
  by (auto simp: sprt_publish_def split: prod.splits metric_out.splits bool.splits)

lemma sprt_metric_quiet:
  assumes "sprt_metric (traced E) url ns ro upper lower cur m s = (out, s')"
  shows "quiet_run s s'"
proof (cases "metric_decided (findOrInitState cur (metric_Name m))")
  case True
  then show ?thesis using assms by (auto simp: sprt_metric_def Let_def)
next
  case False
  obtain a s1 where a: "queryScalar (traced E) url (CanaryTotalQuery m) s = (a, s1)" by fastforce
  obtain b s2 where b: "queryScalar (traced E) url (CanaryFailureQuery m) s1 = (b, s2)" by fastforce
  obtain c s3 where c: "queryScalar (traced E) url (StableTotalQuery m) s2 = (c, s3)" by fastforce
  obtain d s4 where d: "queryScalar (traced E) url (StableFailureQuery m) s3 = (d, s4)" by fastforce
  have q1: "quiet_run s s1" by (rule queryScalar_quiet [OF a])
  have q2: "quiet_run s s2" by (rule quiet_run_trans [OF q1 queryScalar_quiet [OF b]])
  have q3: "quiet_run s s3" by (rule quiet_run_trans [OF q2 queryScalar_quiet [OF c]])
  have q4: "quiet_run s s4" by (rule quiet_run_trans [OF q3 queryScalar_quiet [OF d]])
  consider "s' = s1" | "s' = s2" | "s' = s3" | "quiet_run s4 s'"
    using assms False a b c d
    by (auto simp: sprt_metric_def Let_def split: sum.splits option.splits dest: sprt_publish_quiet)
  then show ?thesis using q1 q2 q3 quiet_run_trans [OF q4] by cases simp_all
qed

lemma sprt_loop_quiet:
  "sprt_loop (traced E) url ns ro upper lower cur ms upd s = (out, s') \<Longrightarrow> quiet_run s s'"
proof (induction ms arbitrary: upd s)
  case (Cons m ms)
  obtain o1 s1 where m: "sprt_metric (traced E) url ns ro upper lower cur m s = (o1, s1)" by fastforce
  note q = sprt_metric_quiet [OF m]
  show ?case
  proof (cases o1)
    case (MetricState st)
    then show ?thesis using Cons.prems Cons.IH m quiet_run_trans [OF q] by simp
  qed (use Cons.prems m q in auto)
qed simp

lemma RunSPRT_quiet:
  assumes "RunSPRT (traced E) url ns ro a cur s = (out, s')"
  shows "quiet_run s s'"
proof (cases "prom_client E url")
  case (Some err)
  then show ?thesis using assms by (auto simp: RunSPRT_def)
next
  case None
  let ?g = "gauge_update (recordSPRTBoundaries ns ro (upper_bound (math_Log E) a) (lower_bound (math_Log E) a)) s"
  obtain o1 s1 where l: "sprt_loop (traced E) url ns ro (upper_bound (math_Log E) a)
      (lower_bound (math_Log E) a) cur (Metrics a) [] ?g = (o1, s1)" by fastforce
  have "s1 = s'" using assms None l by (auto simp: RunSPRT_def Let_def split: loop_out.splits if_splits)
  then show ?thesis using sprt_loop_quiet [OF l] by simp
qed

lemma isCanaryReady_quiet:
  assumes "isCanaryReady (traced E) ns d s = (r, s')"
  shows "quiet_run s s'"
proof -
  obtain got s1 where c1: "call (get_deployment (traced E) ns d) s = (got, s1)" by fastforce
  have q1: "quiet_run s s1" using call_quiet(1) [OF c1 [unfolded traced_sel]] by simp
  show ?thesis
  proof (cases "\<exists>dep ls. got = Inr dep \<and> MatchLabels dep = Some ls")
    case True
    then obtain dep ls where dep: "got = Inr dep" "MatchLabels dep = Some ls" by blast
    obtain l s2 where c2: "call (list_pods (traced E) ns ls) s1 = (l, s2)" by fastforce
    have "s2 = s'" using assms c1 c2 dep by (auto simp: isCanaryReady_def split: sum.splits)
    then show ?thesis
      using quiet_run_trans [OF q1 call_quiet(1) [OF c2 [unfolded traced_sel]]] by simp
  next
    case False
    then have "s1 = s'" using assms c1 by (auto simp: isCanaryReady_def split: sum.splits option.splits)
    then show ?thesis using q1 by simp
  qed
qed

section \<open>The abstract state machine\<close>

definition active :: "canary_rollout \<Rightarrow> bool" where
  "active cr \<longleftrightarrow> \<not> Abort (Spec cr) \<and> \<not> Paused (Spec cr) \<and>
     Phase (Status cr) \<notin> {PhaseAborted, PhasePromoted, PhasePaused, '''', PhasePending}"

definition current_step :: "canary_rollout \<Rightarrow> canary_step option" where
  "current_step cr =
     (let i = sint (CurrentStep (Status cr)); steps = Steps (Spec cr)
      in if 0 \<le> i \<and> i < int (length steps) then Some (steps ! nat i) else None)"

definition settled :: "canary_rollout \<Rightarrow> canary_step \<Rightarrow> bool" where
  "settled cr step \<longleftrightarrow> active cr \<and> current_step cr = Some step \<and>
     CurrentWeight (Status cr) = Weight step"

definition analysis_enabled :: "canary_rollout \<Rightarrow> bool" where
  "analysis_enabled cr \<longleftrightarrow> PrometheusURL (Spec cr) \<noteq> '''' \<and> Analysis (Spec cr) \<noteq> None"

text \<open>
  A result of \<open>RunSPRT\<close>; \<open>verdict E cr es r\<close>: a run of it on the rollout \<open>cr\<close>, whose calls are among
  the calls \<open>es\<close>, returned \<open>r\<close>.
\<close>

type_synonym sprt_result = "SPRTDecision \<times> sprt_metric_state list \<times> string"

definition verdict :: "'w env \<Rightarrow> canary_rollout \<Rightarrow> event list \<Rightarrow> sprt_result \<Rightarrow> bool" where
  "verdict E cr es r \<longleftrightarrow>
     (\<exists>a s0 s1 xs qs ys. Analysis (Spec cr) = Some a \<and> es = xs @ qs @ ys \<and> emits qs s0 s1 \<and>
        RunSPRT (traced E) (PrometheusURL (Spec cr)) (Namespace cr) (Name cr) a
          (AnalysisState (Status cr)) s0 = (Inr r, s1))"

lemma verdict_append: "verdict E cr es \<le> verdict E cr (es @ fs)"
  by (fastforce simp: verdict_def)

text \<open>\<open>cr1\<close> is the rollout after the analysis, with the results \<open>V\<close> at hand, when it goes on.\<close>

definition analysed :: "(sprt_result \<Rightarrow> bool) \<Rightarrow> canary_rollout \<Rightarrow> canary_rollout \<Rightarrow> bool" where
  "analysed V cr cr1 \<longleftrightarrow>
     (if analysis_enabled cr
      then \<exists>dec sts reason. V (dec, sts, reason) \<and> dec \<noteq> SPRTRollback \<and> cr1 = with_analysis sts reason cr
      else cr1 = cr)"

lemma analysed_mono: "analysed V cr cr1 \<Longrightarrow> V \<le> V' \<Longrightarrow> analysed V' cr cr1"
  unfolding analysed_def by (meson predicate1D)

definition gate_open :: "canary_step \<Rightarrow> canary_rollout \<Rightarrow> bool" where
  "gate_open step cr1 \<longleftrightarrow>
     sint (PauseSeconds step) \<le> 0 \<or> Analysis (Spec cr1) = None \<or>
     all_promote (AnalysisState (Status cr1))"

definition elapsed_at :: "canary_rollout \<Rightarrow> gotime \<Rightarrow> duration" where
  "elapsed_at cr t = time_Sub t (LastTransitionTime (Status cr))"

definition without_analysis :: "canary_rollout \<Rightarrow> canary_rollout" where
  "without_analysis cr = cr\<lparr> Status := (Status cr)\<lparr> AnalysisState := [] \<rparr> \<rparr>"

definition with_message :: "string \<Rightarrow> canary_rollout \<Rightarrow> canary_rollout" where
  "with_message msg cr = cr\<lparr> Status := (Status cr)\<lparr> Message := msg \<rparr> \<rparr>"

text \<open>
  \<open>cycle_step V clk cr split cr'\<close>: from the rollout \<open>cr\<close> a cycle that had the analysis results \<open>V\<close>
  and read the instants \<open>clk\<close> may write the rollout \<open>cr'\<close>, having asked for the traffic split \<open>(stable, canary, ok)\<close>, where \<open>ok\<close>
  tells whether the request must have succeeded.
\<close>

type_synonym split = "(int32 \<times> int32 \<times> bool) option"

inductive cycle_step :: "(sprt_result \<Rightarrow> bool) \<Rightarrow> gotime list \<Rightarrow> canary_rollout \<Rightarrow> split \<Rightarrow> canary_rollout \<Rightarrow> bool"
  for V clk cr where
  step_abort: "Abort (Spec cr) \<Longrightarrow> Phase (Status cr) \<noteq> PhaseAborted \<Longrightarrow> t \<in> set clk \<Longrightarrow>
     cycle_step V clk cr (Some (100, 0, True))
       (with_status PhaseAborted (CurrentStep (Status cr)) 0 t msg cr)"
| step_pause: "\<not> Abort (Spec cr) \<Longrightarrow> Paused (Spec cr) \<Longrightarrow>
     Phase (Status cr) \<notin> {PhaseAborted, PhasePromoted, PhasePaused} \<Longrightarrow> t \<in> set clk \<Longrightarrow>
     cycle_step V clk cr None
       (with_status PhasePaused (CurrentStep (Status cr)) (CurrentWeight (Status cr)) t msg cr)"
| step_resume: "\<not> Abort (Spec cr) \<Longrightarrow> \<not> Paused (Spec cr) \<Longrightarrow> Phase (Status cr) = PhasePaused \<Longrightarrow>
     t \<in> set clk \<Longrightarrow>
     cycle_step V clk cr None
       (with_status PhaseRunning (CurrentStep (Status cr)) (CurrentWeight (Status cr)) t msg cr)"
| step_start: "\<not> Abort (Spec cr) \<Longrightarrow> \<not> Paused (Spec cr) \<Longrightarrow> Phase (Status cr) \<in> {'''', PhasePending} \<Longrightarrow>
     t \<in> set clk \<Longrightarrow> cycle_step V clk cr None (with_status PhaseRunning 0 0 t msg cr)"
| step_finish: "active cr \<Longrightarrow> int (length (Steps (Spec cr))) \<le> sint (CurrentStep (Status cr)) \<Longrightarrow>
     t \<in> set clk \<Longrightarrow>
     cycle_step V clk cr None (with_status PhasePromoted (CurrentStep (Status cr)) 100 t msg cr)"
| step_fail: "active cr \<Longrightarrow> sint (CurrentStep (Status cr)) < int (length (Steps (Spec cr))) \<Longrightarrow>
     t0 \<in> set clk \<Longrightarrow> dur_lt readinessTimeout (elapsed_at cr t0) \<Longrightarrow> t \<in> set clk \<Longrightarrow>
     cycle_step V clk cr (Some (100, 0, ok))
       (with_status PhaseFailed (CurrentStep (Status cr)) 0 t msg cr)"
| step_shift: "active cr \<Longrightarrow> current_step cr = Some step \<Longrightarrow> CurrentWeight (Status cr) \<noteq> Weight step \<Longrightarrow>
     t \<in> set clk \<Longrightarrow>
     cycle_step V clk cr (Some (100 - Weight step, Weight step, True))
       (with_status PhaseRunning (CurrentStep (Status cr)) (Weight step) t msg cr)"
| step_rollback: "settled cr step \<Longrightarrow> analysis_enabled cr \<Longrightarrow> V (SPRTRollback, sts, reason) \<Longrightarrow> t \<in> set clk \<Longrightarrow>
     cycle_step V clk cr (Some (100, 0, ok))
       (with_status PhaseAborted (CurrentStep (Status cr)) 0 t msg (with_analysis sts reason cr))"
| step_observe: "settled cr step \<Longrightarrow> analysed V cr cr1 \<Longrightarrow> t0 \<in> set clk \<Longrightarrow>
     dur_lt (elapsed_at cr t0) (seconds (PauseSeconds step)) \<Longrightarrow> cycle_step V clk cr None cr1"
| step_wait: "settled cr step \<Longrightarrow> analysed V cr cr1 \<Longrightarrow> t0 \<in> set clk \<Longrightarrow>
     \<not> dur_lt (elapsed_at cr t0) (seconds (PauseSeconds step)) \<Longrightarrow> \<not> gate_open step cr1 \<Longrightarrow>
     cycle_step V clk cr None (with_message msg cr1)"
| step_advance: "settled cr step \<Longrightarrow> analysed V cr cr1 \<Longrightarrow> t0 \<in> set clk \<Longrightarrow>
     \<not> dur_lt (elapsed_at cr t0) (seconds (PauseSeconds step)) \<Longrightarrow> gate_open step cr1 \<Longrightarrow>
     sint (CurrentStep (Status cr) + 1) < int (length (Steps (Spec cr))) \<Longrightarrow> t \<in> set clk \<Longrightarrow>
     cycle_step V clk cr None
       (with_status PhaseRunning (CurrentStep (Status cr) + 1) (CurrentWeight (Status cr)) t msg
         (without_analysis cr1))"
| step_promote: "settled cr step \<Longrightarrow> analysed V cr cr1 \<Longrightarrow> t0 \<in> set clk \<Longrightarrow>
     \<not> dur_lt (elapsed_at cr t0) (seconds (PauseSeconds step)) \<Longrightarrow> gate_open step cr1 \<Longrightarrow>
     int (length (Steps (Spec cr))) \<le> sint (CurrentStep (Status cr) + 1) \<Longrightarrow> t \<in> set clk \<Longrightarrow>
     cycle_step V clk cr None
       (with_status PhasePromoted (CurrentStep (Status cr) + 1) 100 t msg (without_analysis cr1))"

inductive_cases cycle_stepE: "cycle_step V clk cr split cr'"

lemma cycle_step_mono:
  "cycle_step V clk cr split cr' \<Longrightarrow> V \<le> V' \<Longrightarrow> cycle_step V' clk cr split cr'"
  by (erule cycle_stepE) (auto intro: cycle_step.intros dest: predicate1D analysed_mono)

text \<open>The VirtualService writes that realise a requested split.\<close>

definition split_written :: "'w env \<Rightarrow> canary_rollout \<Rightarrow> int32 \<Rightarrow> int32 \<Rightarrow> jmap list \<Rightarrow> bool" where
  "split_written E cr sw cw ws \<longleftrightarrow>
     (\<exists>v vs. ws = [v] \<and>
        vs_with_weights E (Namespace cr) (VirtualServiceRef (Spec cr)) (StableServiceRef (Spec cr)) sw
          (CanaryServiceRef (Spec cr)) cw vs = Inr v)"

fun split_done :: "'w env \<Rightarrow> canary_rollout \<Rightarrow> split \<Rightarrow> jmap list \<Rightarrow> bool" where
  "split_done E cr None ws = (ws = [])"
| "split_done E cr (Some (sw, cw, ok)) ws = (\<not> ok \<and> ws = [] \<or> split_written E cr sw cw ws)"

text \<open>
  The splits a cycle may ask for: the shares sum to 100, and the canary's is zero or the
  weight of the current step.
\<close>

definition planned_split :: "canary_rollout \<Rightarrow> int32 \<Rightarrow> int32 \<Rightarrow> bool" where
  "planned_split cr sw cw \<longleftrightarrow> sw = 100 - cw \<and> (cw = 0 \<or> map_option Weight (current_step cr) = Some cw)"

definition cycle_result :: "'w env \<Rightarrow> canary_rollout \<Rightarrow> event list \<Rightarrow> bool" where
  "cycle_result E cr es \<longleftrightarrow>
     (vs_writes es = [] \<or> (\<exists>sw cw. planned_split cr sw cw \<and> split_written E cr sw cw (vs_writes es))) \<and>
     (status_writes es = [] \<or>
      (\<exists>pre cr' split. es = pre @ [UpdateStatus cr'] \<and> status_writes pre = [] \<and>
         cycle_step (verdict E cr pre) (clock_reads pre) cr split cr' \<and>
         split_done E cr split (vs_writes pre)))"

section \<open>Every cycle is a step of the machine\<close>

lemma int32_next: "int32_of_int64 (int64_of_int32 x + 1) = x + 1"
proof -
  have "int64_of_int32 x + 1 = word_of_int (sint x + 1)"
    by (simp add: int64_of_int32_def wi_hom_succ [symmetric] word_succ_p1)
  then have "int32_of_int64 (int64_of_int32 x + 1)
      = word_of_int (sint (word_of_int (sint x + 1) :: int64))"
    by (simp add: int32_of_int64_def)
  also have "sint (word_of_int (sint x + 1) :: int64) = sint x + 1"
    using sint32_bounds [of x] by (intro sint_word_of_int_64) simp_all
  also have "word_of_int (sint x + 1) = x + 1" by (simp add: wi_hom_succ [symmetric] word_succ_p1)
  finally show ?thesis .
qed

lemma set_route_weights_traced [simp]:
  "set_route_weights (traced E) sh sw ch cw rs = set_route_weights E sh sw ch cw rs"
proof (induction rs)
  case (Cons r rs)
  have "set_route_weight (traced E) sh sw ch cw r = set_route_weight E sh sw ch cw r"
    unfolding set_route_weight_def dest_host_def traced_sel ..
  then show ?case by (simp only: set_route_weights.simps Cons.IH)
qed simp

lemma vs_with_weights_traced [simp]:
  "vs_with_weights (traced E) ns n sh sw ch cw vs = vs_with_weights E ns n sh sw ch cw vs"
  unfolding vs_with_weights_def set_route_weights_traced traced_sel ..

lemma quiet_writes: "quiet es \<Longrightarrow> status_writes es = [] \<and> vs_writes es = []"
  by (simp add: quiet_def)

lemma set_weights_calls:
  assumes "set_weights (traced E) cr sw cw s = (err, s')"
  obtains es where "emits es s s'" "status_writes es = []" "clock_reads es = []"
    "split_done E cr (Some (sw, cw, err = None)) (vs_writes es)"
proof -
  let ?n = "VirtualServiceRef (Spec cr)"
  from assms [unfolded set_weights_def] show thesis
  proof (rule SetVirtualServiceWeights_calls)
    assume em: "emits [GetVS (Namespace cr) ?n] s s'" and "err \<noteq> None"
    then show thesis by (intro that [OF em]) simp_all
  next
    fix v assume em: "emits [GetVS (Namespace cr) ?n, UpdateVS v] s s'"
      and v: "vs_with_weights (traced E) (Namespace cr) ?n (StableServiceRef (Spec cr)) sw
        (CanaryServiceRef (Spec cr)) cw (projr (fst (get_vs E (Namespace cr) ?n (fst (world s))))) = Inr v"
    have "split_written E cr sw cw [v]" using v by (auto simp: split_written_def)
    then show thesis by (intro that [OF em]) simp_all
  qed
qed

lemma setStatus_calls:
  assumes "setStatus (traced E) cr phase step weight msg s = (err, s')"
  obtains t where "emits [ClockRead t, UpdateStatus (with_status phase step weight t msg cr)] s s'"
proof -
  obtain t s1 where c1: "call (time_Now (traced E)) s = (t, s1)" by fastforce
  note e1 = call_now [OF c1]
  let ?cr = "with_status phase step weight t msg cr"
  let ?s3 = "gauge_update (recordCanaryWeight (Namespace ?cr) (Name ?cr) weight)
      (gauge_update (recordRolloutPhase (Namespace ?cr) (Name ?cr) phase) s1)"
  have "call (update_status (traced E) ?cr) ?s3 = (err, s')"
    using assms c1 by (simp add: setStatus_def Let_def)
  then have "emits [UpdateStatus ?cr] ?s3 s'" unfolding traced_sel by (rule call_log(1))
  then show thesis using that emits_trans [OF e1, of "[UpdateStatus ?cr]" s'] by simp
qed

lemma return_status_calls:
  assumes "return_status (traced E) cr d phase step weight msg s = (res, s')"
  obtains t where "emits [ClockRead t, UpdateStatus (with_status phase step weight t msg cr)] s s'"
  using assms unfolding return_status_def
  by (auto split: prod.splits elim: setStatus_calls)

lemma return_update_calls:
  assumes "return_update (traced E) cr d s = (res, s')"
  shows "emits [UpdateStatus cr] s s'"
  using assms call_log(1) [of "UpdateStatus cr" "update_status E cr" s]
  by (auto simp: return_update_def split: prod.splits option.splits)

lemma cycle_step_split: "cycle_step V clk cr (Some (sw, cw, ok)) cr' \<Longrightarrow> planned_split cr sw cw"
  by (erule cycle_stepE) (auto simp: planned_split_def)

text \<open>A cycle that only wrote the VirtualService, or failed to.\<close>

lemma cycle_result_split:
  assumes "status_writes es = []" "split_done E cr (Some (sw, cw, ok)) (vs_writes es)" "planned_split cr sw cw"
  shows "cycle_result E cr es"
  using assms by (auto simp: cycle_result_def)

text \<open>A cycle that ends with one status write after calls \<open>pre\<close>.\<close>

lemma cycle_result_write:
  assumes "status_writes pre = []" "cycle_step (verdict E cr pre) (clock_reads pre) cr split cr'"
    "split_done E cr split (vs_writes pre)"
  shows "cycle_result E cr (pre @ [UpdateStatus cr'])"
proof -
  have "vs_writes pre = [] \<or> (\<exists>sw cw. planned_split cr sw cw \<and> split_written E cr sw cw (vs_writes pre))"
    using assms(2,3) by (cases split) (auto dest: cycle_step_split)
  then show ?thesis using assms by (auto simp: cycle_result_def)
qed

lemma cycle_result_status:
  assumes "status_writes pre = []" "split_done E cr split (vs_writes pre)"
    "cycle_step (verdict E cr (pre @ [ClockRead t])) (clock_reads pre @ [t]) cr split
       (with_status phase step weight t msg cr0)"
  shows "cycle_result E cr (pre @ [ClockRead t, UpdateStatus (with_status phase step weight t msg cr0)])"
  using cycle_result_write [of "pre @ [ClockRead t]" E cr split] assms by simp

text \<open>The tail of the function, after the analysis.\<close>

lemma reconcile_timer_step:
  assumes run: "reconcile_timer (traced E) cr1 (int64_of_int32 (CurrentStep (Status cr)))
      (seconds (PauseSeconds step)) (elapsed_at cr t0) d s = (res, s')"
    and settled: "settled cr step" and an: "analysed (verdict E cr pre) cr cr1"
    and pre: "quiet pre" "t0 \<in> set (clock_reads pre)"
  shows "\<exists>es. emits es s s' \<and> cycle_result E cr (pre @ es)"
proof -
  have w: "status_writes pre = []" "vs_writes pre = []" using pre quiet_writes by auto
  have an': "analysed (verdict E cr (pre @ fs)) cr cr1" for fs
    using an by (rule analysed_mono) (rule verdict_append)
  have frame: "Spec cr1 = Spec cr" "CurrentWeight (Status cr1) = CurrentWeight (Status cr)"
    using an by (auto simp: analysed_def with_analysis_def split: if_splits)
  have pause: "dur_lt 0 (seconds (PauseSeconds step)) \<longleftrightarrow> 0 < sint (PauseSeconds step)"
    by (simp add: dur_lt_def sint_seconds)
  show ?thesis
  proof (cases "dur_lt (elapsed_at cr t0) (seconds (PauseSeconds step))")
    case True
    then have "emits [UpdateStatus cr1] s s'"
      using run by (auto simp: reconcile_timer_def Let_def split: if_splits dest!: return_update_calls)
    moreover have "cycle_result E cr (pre @ [UpdateStatus cr1])"
      using cycle_step.step_observe [OF settled an pre(2) True] w by (intro cycle_result_write) auto
    ultimately show ?thesis by blast
  next
    case late: False
    show ?thesis
    proof (cases "gate_open step cr1")
      case False
      define msg where "msg = ''Step '' @ fmt_d (sint (int64_of_int32 (CurrentStep (Status cr)))) @
        '': timer elapsed, waiting for SPRT promote decision''"
      have "return_update (traced E) (with_message msg cr1) d s = (res, s')"
        using run late False frame
        by (auto simp: reconcile_timer_def reconcile_gate_def gate_open_def pause with_message_def
            msg_def Let_def split: if_splits)
      then have "emits [UpdateStatus (with_message msg cr1)] s s'" by (rule return_update_calls)
      moreover have "cycle_result E cr (pre @ [UpdateStatus (with_message msg cr1)])"
        using cycle_step.step_wait [OF settled an pre(2) late False] w by (intro cycle_result_write) auto
      ultimately show ?thesis by blast
    next
      case True
      then have adv: "reconcile_advance (traced E) cr1 (int64_of_int32 (CurrentStep (Status cr))) s = (res, s')"
        using run late frame
        by (auto simp: reconcile_timer_def reconcile_gate_def gate_open_def pause split: if_splits)
      show ?thesis
      proof (cases "int (length (Steps (Spec cr))) \<le> sint (CurrentStep (Status cr) + 1)")
        case last: True
        then obtain t msg where "emits [ClockRead t, UpdateStatus (with_status PhasePromoted
            (CurrentStep (Status cr) + 1) 100 t msg (without_analysis cr1))] s s'"
          using adv frame by (auto simp: reconcile_advance_def int32_next without_analysis_def Let_def
              elim!: return_status_calls)
        then show ?thesis
          using cycle_result_status [of pre E cr None] w cycle_step.step_promote [OF settled an' _ late True last]
            pre(2) by (metis Un_iff insertI1 list.simps(15) set_append split_done.simps(1))
      next
        case more: False
        then obtain t msg where "emits [ClockRead t, UpdateStatus (with_status PhaseRunning
            (CurrentStep (Status cr) + 1) (CurrentWeight (Status cr)) t msg (without_analysis cr1))] s s'"
          using adv frame by (auto simp: reconcile_advance_def int32_next without_analysis_def Let_def
              elim!: return_status_calls)
        then show ?thesis
          using cycle_result_status [of pre E cr None] w cycle_step.step_advance [OF settled an' _ late True]
            more pre(2) by (metis Un_iff insertI1 linorder_not_le list.simps(15) set_append split_done.simps(1))
      qed
    qed
  qed
qed

lemma quiet_then:
  assumes q: "quiet_run s s1" and e: "\<And>pre1. emits pre1 s s1 \<Longrightarrow> quiet pre1 \<Longrightarrow> \<exists>es. emits es s1 s' \<and> P (pre @ pre1 @ es)"
  shows "\<exists>es. emits es s s' \<and> P (pre @ es)"
proof -
  obtain pre1 where p: "emits pre1 s s1" "quiet pre1" using q by (auto simp: quiet_run_def)
  obtain es where "emits es s1 s'" "P (pre @ pre1 @ es)" using e [OF p] by blast
  then show ?thesis using emits_trans [OF p(1)] by blast
qed

lemma cycle_result_quiet: "quiet es \<Longrightarrow> cycle_result E cr es"
  by (simp add: cycle_result_def quiet_def)

lemma reconcile_analysis_step:
  assumes run: "reconcile_analysis (traced E) cr (int64_of_int32 (CurrentStep (Status cr)))
      (seconds (PauseSeconds step)) (elapsed_at cr t0) s = (res, s')"
    and settled: "settled cr step" and pre: "quiet pre" "t0 \<in> set (clock_reads pre)"
  shows "\<exists>es. emits es s s' \<and> cycle_result E cr (pre @ es)"
proof (cases "analysis_enabled cr")
  case False
  then have "reconcile_timer (traced E) cr (int64_of_int32 (CurrentStep (Status cr)))
      (seconds (PauseSeconds step)) (elapsed_at cr t0) (analysis_interval (Spec cr)) s = (res, s')"
    using run by (auto simp: reconcile_analysis_def analysis_enabled_def Let_def
        split: option.splits bool.splits if_splits)
  then show ?thesis
    using False by (intro reconcile_timer_step [OF _ settled _ pre]) (simp_all add: analysed_def)
next
  case True
  then obtain a where a: "Analysis (Spec cr) = Some a" "PrometheusURL (Spec cr) \<noteq> ''''"
    by (auto simp: analysis_enabled_def)
  obtain r s1 where r: "RunSPRT (traced E) (PrometheusURL (Spec cr)) (Namespace cr) (Name cr) a
      (AnalysisState (Status cr)) s = (r, s1)" by fastforce
  show ?thesis
  proof (rule quiet_then [OF RunSPRT_quiet [OF r]])
    fix pre1 assume em: "emits pre1 s s1" and q: "quiet pre1"
    show "\<exists>es. emits es s1 s' \<and> cycle_result E cr (pre @ pre1 @ es)"
    proof (cases r)
      case (Inl err)
      then have "s1 = s'" using run r a by (simp add: reconcile_analysis_def Let_def)
      then show ?thesis using q pre(1) by (intro exI [of _ "[]"]) (simp add: cycle_result_quiet)
    next
      case (Inr res1)
      obtain dec sts reason where res1: "res1 = (dec, sts, reason)" by (cases res1)
      let ?cr1 = "with_analysis sts reason cr"
      have v: "verdict E cr (pre @ pre1 @ fs) (dec, sts, reason)" for fs
        using a(1) em r unfolding Inr res1 verdict_def by blast
      show ?thesis
      proof (cases "dec = SPRTRollback")
        case False
        have tm: "reconcile_timer (traced E) ?cr1 (int64_of_int32 (CurrentStep (Status cr)))
            (seconds (PauseSeconds step)) (elapsed_at cr t0) (analysis_interval (Spec cr)) s1 = (res, s')"
          using run r a Inr res1 False by (simp add: reconcile_analysis_def Let_def)
        have "analysed (verdict E cr (pre @ pre1)) cr ?cr1"
          using True False v [of "[]"] by (auto simp: analysed_def)
        from reconcile_timer_step [OF tm settled this] show ?thesis using q pre by simp
      next
        case dec: True
        obtain ig s2 where w: "set_weights (traced E) ?cr1 100 0 s1 = (ig, s2)" by fastforce
        then obtain ws where ws: "emits ws s1 s2" "status_writes ws = []" "clock_reads ws = []"
            "split_done E ?cr1 (Some (100, 0, ig = None)) (vs_writes ws)"
          by (rule set_weights_calls)
        obtain t msg where t: "emits [ClockRead t, UpdateStatus (with_status PhaseAborted
            (CurrentStep (Status cr)) 0 t msg ?cr1)] s2 s'"
          using run r a Inr res1 dec w
          by (auto simp: reconcile_analysis_def Let_def elim!: return_status_calls)
        let ?pre = "pre @ pre1 @ ws"
        have "split_done E cr (Some (100, 0, ig = None)) (vs_writes ?pre)"
          using ws(4) quiet_writes [OF q] quiet_writes [OF pre(1)]
          by (simp add: split_written_def with_analysis_def)
        moreover have "cycle_step (verdict E cr (?pre @ [ClockRead t])) (clock_reads ?pre @ [t]) cr
            (Some (100, 0, ig = None)) (with_status PhaseAborted (CurrentStep (Status cr)) 0 t msg ?cr1)"
          using v [of "ws @ [ClockRead t]"] dec by (intro cycle_step.step_rollback [OF settled True]) simp_all
        ultimately have "cycle_result E cr (?pre @ [ClockRead t, UpdateStatus (with_status PhaseAborted
            (CurrentStep (Status cr)) 0 t msg ?cr1)])"
          using ws(2) quiet_writes [OF q] quiet_writes [OF pre(1)]
          by (intro cycle_result_status) simp_all
        then show ?thesis using emits_trans [OF ws(1) t] by auto
      qed
    qed
  qed
qed

lemma reconcile_step_step:
  assumes run: "reconcile_step (traced E) cr (int64_of_int32 (CurrentStep (Status cr))) step s = (res, s')"
    and act: "active cr" "current_step cr = Some step" and pre: "quiet pre"
  shows "\<exists>es. emits es s s' \<and> cycle_result E cr (pre @ es)"
proof -
  obtain t0 s1 where c1: "call (time_Now (traced E)) s = (t0, s1)" by fastforce
  note e1 = call_now [OF c1]
  let ?pre = "pre @ [ClockRead t0]"
  have q: "quiet ?pre" "t0 \<in> set (clock_reads ?pre)" using pre by simp_all
  have "\<exists>es. emits es s1 s' \<and> cycle_result E cr (?pre @ es)"
  proof (cases "CurrentWeight (Status cr) = Weight step")
    case True
    then have "reconcile_analysis (traced E) cr (int64_of_int32 (CurrentStep (Status cr)))
        (seconds (PauseSeconds step)) (elapsed_at cr t0) s1 = (res, s')"
      using run c1 by (simp add: reconcile_step_def elapsed_at_def Let_def)
    then show ?thesis
      using act True by (intro reconcile_analysis_step [OF _ _ q]) (simp_all add: settled_def)
  next
    case False
    obtain err s2 where w: "set_weights (traced E) cr (100 - Weight step) (Weight step) s1 = (err, s2)"
      by fastforce
    then obtain ws where ws: "emits ws s1 s2" "status_writes ws = []" "clock_reads ws = []"
        "split_done E cr (Some (100 - Weight step, Weight step, err = None)) (vs_writes ws)"
      by (rule set_weights_calls)
    show ?thesis
    proof (cases err)
      case (Some e)
      then have "s2 = s'" using run c1 w False by (simp add: reconcile_step_def Let_def)
      moreover have "cycle_result E cr (?pre @ ws)"
        using ws quiet_writes [OF q(1)] act(2)
        by (intro cycle_result_split [of _ _ _ "100 - Weight step" "Weight step" "err = None"])
          (auto simp: planned_split_def)
      ultimately show ?thesis using ws(1) by blast
    next
      case None
      obtain t msg where t: "emits [ClockRead t, UpdateStatus (with_status PhaseRunning
          (CurrentStep (Status cr)) (Weight step) t msg cr)] s2 s'"
        using run c1 w False None by (auto simp: reconcile_step_def Let_def elim!: return_status_calls)
      have "cycle_result E cr ((?pre @ ws) @ [ClockRead t, UpdateStatus (with_status PhaseRunning
          (CurrentStep (Status cr)) (Weight step) t msg cr)])"
        using ws quiet_writes [OF q(1)] cycle_step.step_shift [OF act False]
        by (intro cycle_result_status [of _ _ _ "Some (100 - Weight step, Weight step, True)"])
          (simp_all add: None)
      then show ?thesis using emits_trans [OF ws(1) t] by auto
    qed
  qed
  then show ?thesis using emits_trans [OF e1] by fastforce
qed

lemma reconcile_not_ready_step:
  assumes run: "reconcile_not_ready (traced E) cr s = (res, s')"
    and act: "active cr" "sint (CurrentStep (Status cr)) < int (length (Steps (Spec cr)))" and pre: "quiet pre"
  shows "\<exists>es. emits es s s' \<and> cycle_result E cr (pre @ es)"
proof -
  obtain t0 s1 where c1: "call (time_Now (traced E)) s = (t0, s1)" by fastforce
  note e1 = call_now [OF c1]
  let ?pre = "pre @ [ClockRead t0]"
  have q: "quiet ?pre" using pre by simp
  have "\<exists>es. emits es s1 s' \<and> cycle_result E cr (?pre @ es)"
  proof (cases "dur_lt readinessTimeout (elapsed_at cr t0)")
    case False
    then have "s1 = s'" using run c1 by (simp add: reconcile_not_ready_def elapsed_at_def Let_def)
    then show ?thesis using q by (intro exI [of _ "[]"]) (simp add: cycle_result_quiet)
  next
    case True
    obtain ig s2 where w: "set_weights (traced E) cr 100 0 s1 = (ig, s2)" by fastforce
    then obtain ws where ws: "emits ws s1 s2" "status_writes ws = []" "clock_reads ws = []"
        "split_done E cr (Some (100, 0, ig = None)) (vs_writes ws)"
      by (rule set_weights_calls)
    obtain t msg where t: "emits [ClockRead t, UpdateStatus (with_status PhaseFailed
        (CurrentStep (Status cr)) 0 t msg cr)] s2 s'"
      using run c1 w True
      by (auto simp: reconcile_not_ready_def elapsed_at_def Let_def elim!: return_status_calls)
    have "cycle_result E cr ((?pre @ ws) @ [ClockRead t, UpdateStatus (with_status PhaseFailed
        (CurrentStep (Status cr)) 0 t msg cr)])"
      using ws quiet_writes [OF q] cycle_step.step_fail [OF act _ True]
      by (intro cycle_result_status [of _ _ _ "Some (100, 0, ig = None)"]) simp_all
    then show ?thesis using emits_trans [OF ws(1) t] by auto
  qed
  then show ?thesis using emits_trans [OF e1] by fastforce
qed

lemma cycle_result_only_status:
  assumes run: "return_status (traced E) cr d phase step weight msg s = (res, s')" and pre: "quiet pre"
    and st: "\<And>V t. cycle_step V (clock_reads pre @ [t]) cr None (with_status phase step weight t msg cr)"
  shows "\<exists>es. emits es s s' \<and> cycle_result E cr (pre @ es)"
proof -
  obtain t where "emits [ClockRead t, UpdateStatus (with_status phase step weight t msg cr)] s s'"
    using run by (rule return_status_calls)
  then show ?thesis
    using cycle_result_status [of pre E cr None] st quiet_writes [OF pre] by fastforce
qed

lemma reconcile_running_step:
  assumes run: "reconcile_running (traced E) cr s = (res, s')" and act: "active cr" and pre: "quiet pre"
  shows "\<exists>es. emits es s s' \<and> cycle_result E cr (pre @ es)"
proof (cases "int (length (Steps (Spec cr))) \<le> sint (CurrentStep (Status cr))")
  case True
  then have "return_status (traced E) cr 0 PhasePromoted (CurrentStep (Status cr)) 100
      ''Rollout promoted, 100% traffic to canary'' s = (res, s')"
    using run by (simp add: reconcile_running_def Let_def)
  then show ?thesis
    by (rule cycle_result_only_status [OF _ pre]) (rule cycle_step.step_finish [OF act True], simp)
next
  case False
  obtain ready s1 where c: "isCanaryReady (traced E) (Namespace cr) (TargetRef (Spec cr)) s = (ready, s1)"
    by fastforce
  show ?thesis
  proof (rule quiet_then [OF isCanaryReady_quiet [OF c]])
    fix pre1 assume "emits pre1 s s1" and q: "quiet pre1"
    have qq: "quiet (pre @ pre1)" using q pre by simp
    show "\<exists>es. emits es s1 s' \<and> cycle_result E cr (pre @ pre1 @ es)"
    proof -
      consider "s1 = s'" | "ready = Ret (Inr False)"
        | "ready = Ret (Inr True)" "0 \<le> sint (CurrentStep (Status cr))"
        using run False c by (auto simp: reconcile_running_def Let_def
            split: outcome.splits sum.splits bool.splits if_splits)
      then show ?thesis
      proof cases
        case 1
        then show ?thesis using qq by (intro exI [of _ "[]"]) (simp add: cycle_result_quiet)
      next
        case 2
        then have "reconcile_not_ready (traced E) cr s1 = (res, s')"
          using run False c by (simp add: reconcile_running_def Let_def)
        from reconcile_not_ready_step [OF this act _ qq] False show ?thesis by simp
      next
        case 3
        let ?step = "Steps (Spec cr) ! nat (sint (CurrentStep (Status cr)))"
        have "reconcile_step (traced E) cr (int64_of_int32 (CurrentStep (Status cr))) ?step s1 = (res, s')"
          using run False c 3 by (simp add: reconcile_running_def Let_def)
        moreover have "current_step cr = Some ?step" using 3 False by (simp add: current_step_def Let_def)
        ultimately show ?thesis by (rule reconcile_step_step [OF _ act _ qq, unfolded append_assoc])
      qed
    qed
  qed
qed

lemma reconcile_abort_step:
  assumes run: "reconcile_abort (traced E) cr s = (res, s')" and pre: "quiet pre"
    and act: "Abort (Spec cr)" "Phase (Status cr) \<noteq> PhaseAborted"
  shows "\<exists>es. emits es s s' \<and> cycle_result E cr (pre @ es)"
proof -
  obtain err s1 where w: "set_weights (traced E) cr 100 0 s = (err, s1)" by fastforce
  then obtain ws where ws: "emits ws s s1" "status_writes ws = []" "clock_reads ws = []"
      "split_done E cr (Some (100, 0, err = None)) (vs_writes ws)"
    by (rule set_weights_calls)
  show ?thesis
  proof (cases err)
    case (Some e)
    then have "s1 = s'" using run w by (simp add: reconcile_abort_def)
    moreover have "cycle_result E cr (pre @ ws)"
      using ws quiet_writes [OF pre]
      by (intro cycle_result_split [of _ _ _ 100 0 "err = None"]) (auto simp: planned_split_def)
    ultimately show ?thesis using ws(1) by blast
  next
    case None
    obtain t msg where t: "emits [ClockRead t, UpdateStatus (with_status PhaseAborted
        (CurrentStep (Status cr)) 0 t msg cr)] s1 s'"
      using run w None by (auto simp: reconcile_abort_def elim!: return_status_calls)
    have "cycle_result E cr ((pre @ ws) @ [ClockRead t, UpdateStatus (with_status PhaseAborted
        (CurrentStep (Status cr)) 0 t msg cr)])"
      using ws quiet_writes [OF pre] cycle_step.step_abort [OF act]
      by (intro cycle_result_status [of _ _ _ "Some (100, 0, True)"]) (simp_all add: None)
    then show ?thesis using emits_trans [OF ws(1) t] by auto
  qed
qed

lemma reconcile_rollout_step:
  assumes run: "reconcile_rollout (traced E) cr s = (res, s')" and pre: "quiet pre"
  shows "\<exists>es. emits es s s' \<and> cycle_result E cr (pre @ es)"
proof -
  let ?p = "Phase (Status cr)" and ?sp = "Spec cr"
  have stop: ?thesis if "s = s'"
    using that pre by (intro exI [of _ "[]"]) (simp add: cycle_result_quiet)
  consider "s = s'"
    | "?p \<noteq> PhaseAborted" "Abort ?sp"
    | "?p \<notin> {PhaseAborted, PhasePromoted, PhasePaused}" "\<not> Abort ?sp" "Paused ?sp"
    | "?p = PhasePaused" "\<not> Abort ?sp" "\<not> Paused ?sp"
    | "?p \<in> {'''', PhasePending}" "\<not> Abort ?sp" "\<not> Paused ?sp"
    | "active cr"
    using run by (auto simp: reconcile_rollout_def active_def Let_def split: if_splits)
  then show ?thesis
  proof cases
    case 1 then show ?thesis by (rule stop)
  next
    case 2
    then have "reconcile_abort (traced E) cr s = (res, s')"
      using run by (auto simp: reconcile_rollout_def Let_def)
    then show ?thesis using pre 2 by (intro reconcile_abort_step) simp_all
  next
    case 3
    then have "return_status (traced E) cr 0 PhasePaused (CurrentStep (Status cr)) (CurrentWeight (Status cr))
        ''Rollout paused by user'' s = (res, s')"
      using run by (auto simp: reconcile_rollout_def Let_def)
    then show ?thesis
      by (rule cycle_result_only_status [OF _ pre]) (rule cycle_step.step_pause [OF 3(2,3,1)], simp)
  next
    case 4
    then have "return_status (traced E) cr Second PhaseRunning (CurrentStep (Status cr))
        (CurrentWeight (Status cr)) ''Rollout resumed'' s = (res, s')"
      using run by (auto simp: reconcile_rollout_def Let_def)
    then show ?thesis
      by (rule cycle_result_only_status [OF _ pre]) (rule cycle_step.step_resume [OF 4(2,3,1)], simp)
  next
    case 5
    then have "return_status (traced E) cr Second PhaseRunning 0 0 ''Rollout started'' s = (res, s')"
      using run by (auto simp: reconcile_rollout_def Let_def)
    then show ?thesis
      by (rule cycle_result_only_status [OF _ pre]) (rule cycle_step.step_start [OF 5(2,3,1)], simp)
  next
    case 6
    then have "reconcile_running (traced E) cr s = (res, s')"
      using run by (auto simp: reconcile_rollout_def active_def Let_def)
    then show ?thesis using 6 pre by (rule reconcile_running_step)
  qed
qed

lemma Reconcile_cycle:
  assumes run: "Reconcile (traced E) ns n s = (res, s')"
  shows "\<exists>es. emits es s s' \<and>
    (case fst (get_rollout E ns n (fst (world s))) of
       Inl err \<Rightarrow> es = [GetRollout ns n]
     | Inr cr \<Rightarrow> cycle_result E cr es)"
proof -
  obtain got s1 where c: "call (get_rollout (traced E) ns n) s = (got, s1)" by fastforce
  have e1: "emits [GetRollout ns n] s s1" and got: "got = fst (get_rollout E ns n (fst (world s)))"
    using call_log [OF c [unfolded traced_sel]] by simp_all
  show ?thesis
  proof (cases got)
    case (Inl err)
    then have "s1 = s'" using run c by (simp add: Reconcile_def)
    then show ?thesis using e1 Inl got by auto
  next
    case (Inr cr)
    then have "reconcile_rollout (traced E) cr s1 = (res, s')" using run c by (simp add: Reconcile_def)
    from reconcile_rollout_step [OF this, of "[GetRollout ns n]"]
    obtain es where "emits es s1 s'" "cycle_result E cr ([GetRollout ns n] @ es)" by auto
    moreover have "emits ([GetRollout ns n] @ es) s s'" by (rule emits_trans [OF e1 \<open>emits es s1 s'\<close>])
    ultimately show ?thesis using Inr got by (intro exI [of _ "[GetRollout ns n] @ es"]) simp
  qed
qed

section \<open>The calls of one cycle\<close>

text \<open>
  The calls one cycle makes, in order, on an object in a world and with the gauges as given.
\<close>

definition cycle_events :: "'w env \<Rightarrow> string \<Rightarrow> string \<Rightarrow> 'w \<Rightarrow> gauges \<Rightarrow> event list" where
  "cycle_events E ns n w g = snd (world (snd (Reconcile (traced E) ns n \<lparr>world = (w, []), gauges_of = g\<rparr>)))"

lemma cycle_events_result:
  "case fst (get_rollout E ns n w) of
     Inl err \<Rightarrow> cycle_events E ns n w g = [GetRollout ns n]
   | Inr cr \<Rightarrow> cycle_result E cr (cycle_events E ns n w g)"
proof -
  obtain res s' where run: "Reconcile (traced E) ns n \<lparr>world = (w, []), gauges_of = g\<rparr> = (res, s')"
    by fastforce
  then have ev: "cycle_events E ns n w g = snd (world s')" by (simp add: cycle_events_def)
  obtain es where "emits es \<lparr>world = (w, []), gauges_of = g\<rparr> s'"
    and es: "case fst (get_rollout E ns n w) of
       Inl err \<Rightarrow> es = [GetRollout ns n] | Inr cr \<Rightarrow> cycle_result E cr es"
    using Reconcile_cycle [OF run] by auto
  then have "es = cycle_events E ns n w g" by (simp add: emits_def ev)
  from es [unfolded this] show ?thesis .
qed

text \<open>
  \<open>cycle_writes E ns n w g cr cr'\<close>: the cycle read the rollout \<open>cr\<close> and wrote the status of \<open>cr'\<close>.
\<close>

definition cycle_writes :: "'w env \<Rightarrow> string \<Rightarrow> string \<Rightarrow> 'w \<Rightarrow> gauges \<Rightarrow> canary_rollout \<Rightarrow> canary_rollout \<Rightarrow> bool" where
  "cycle_writes E ns n w g cr cr' \<longleftrightarrow>
     fst (get_rollout E ns n w) = Inr cr \<and> cr' \<in> set (status_writes (cycle_events E ns n w g))"

lemma cycle_writesE:
  assumes "cycle_writes E ns n w g cr cr'"
  obtains pre split where "cycle_events E ns n w g = pre @ [UpdateStatus cr']" "status_writes pre = []"
    "cycle_step (verdict E cr pre) (clock_reads pre) cr split cr'" "split_done E cr split (vs_writes pre)"
  using assms cycle_events_result [of E ns n w g]
  by (auto simp: cycle_writes_def cycle_result_def split: sum.splits)

lemma cycle_writes_step:
  assumes "cycle_writes E ns n w g cr cr'"
  obtains split where
    "cycle_step (verdict E cr (cycle_events E ns n w g)) (clock_reads (cycle_events E ns n w g)) cr split cr'"
    "split_done E cr split (vs_writes (cycle_events E ns n w g))"
proof -
  obtain pre split where ev: "cycle_events E ns n w g = pre @ [UpdateStatus cr']"
    and st: "cycle_step (verdict E cr pre) (clock_reads pre) cr split cr'"
    and sp: "split_done E cr split (vs_writes pre)"
    using assms by (rule cycle_writesE)
  have "cycle_step (verdict E cr (pre @ [UpdateStatus cr'])) (clock_reads pre) cr split cr'"
    using st by (rule cycle_step_mono) (rule verdict_append)
  then show thesis using sp by (intro that) (simp_all add: ev)
qed

end
