(* ===== verification/Reconciler_Props.thy ===== *)
theory Reconciler_Props
  imports Reconciler_Calls Cluster
begin

text \<open>
  The properties of one reconcile cycle: the refinement of the state machine, the order and the
  number of its writes, which status it may write, and the errors it retries.
\<close>

section \<open>Concrete cycles\<close>

definition demo_write :: "canary_rollout \<Rightarrow> gotime \<Rightarrow> canary_rollout \<Rightarrow> bool" where
  "demo_write cr now cr' =
     cycle_writes cluster_env ''default'' ''demo'' (demo_cluster cr now) no_gauges cr cr'"

lemmas demo_write_eval = demo_write_def cycle_writes_def cycle_events_def run_eval event_eval int32_next

lemma demo_digits: "digits 0 = ''0''" "digits 1 = ''1''" "digits 20 = ''20''"
  by code_simp+

lemma demo_shift:
  "demo_write (demo_at 0 0) 0 (with_status PhaseRunning 0 20 0 ''Step 0: canary weight set to 20%'' (demo_at 0 0))"
  by (simp add: demo_write_eval fmt_d_def demo_digits int64_of_int32_def int32_of_int64_def)

lemma demo_advance:
  "demo_write (demo_at 0 20) 31000000000
     (with_status PhaseRunning 1 20 31000000000 ''Advancing to step 1'' (demo_at 0 20))"
  by (simp add: demo_write_eval fmt_d_def demo_digits)

lemma demo_promote:
  "demo_write (demo_at 1 50) 1
     (with_status PhasePromoted 2 100 1 ''Rollout promoted, 100% traffic to canary'' (demo_at 1 50))"
  by (simp add: demo_write_eval)

definition demo_aborting :: canary_rollout where
  "demo_aborting = (demo_at 0 20)\<lparr>Spec := demo_spec\<lparr>Abort := True\<rparr>\<rparr>"

lemma demo_abort:
  "demo_write demo_aborting 7
     (with_status PhaseAborted 0 0 7 ''Rollout aborted, 100% traffic to stable'' demo_aborting)"
  by (simp add: demo_write_eval demo_aborting_def)

definition demo_pausing :: canary_rollout where
  "demo_pausing = (demo_at 0 20)\<lparr>Spec := demo_spec\<lparr>Paused := True\<rparr>\<rparr>"

lemma demo_pause:
  "demo_write demo_pausing 7 (with_status PhasePaused 0 20 7 ''Rollout paused by user'' demo_pausing)"
  by (simp add: demo_write_eval demo_pausing_def)

section \<open>The refinement\<close>

text \<open>
  C1: for every environment, every stored object and every state of the gauges, the calls of a
  reconcile cycle are those of a step of the state machine \<open>cycle_step\<close>: when the object cannot be
  read the cycle does nothing else; otherwise it writes at most one VirtualService, with a split
  it may ask for, and at most one status, as its last call, which is the status of one of the
  machine's transitions, with that transition's VirtualService write made before it.
\<close>

theorem Reconcile_refines_machine:
  "case fst (get_rollout E ns n w) of
     Inl err \<Rightarrow> cycle_events E ns n w g = [GetRollout ns n]
   | Inr cr \<Rightarrow> cycle_result E cr (cycle_events E ns n w g)"
  by (rule cycle_events_result)

section \<open>What a cycle may write\<close>

lemmas write_defs = with_status_def with_analysis_def without_analysis_def with_message_def
  analysed_def active_def settled_def elapsed_at_def

text \<open>The five facts about a machine step that the properties below state of the code.\<close>

lemma cycle_step_frame:
  "cycle_step V clk cr split cr' \<Longrightarrow> cr'\<lparr>Status := Status cr\<rparr> = cr"
  by (erule cycle_stepE) (auto simp: write_defs split: if_splits)

lemma cycle_step_next:
  "cycle_step V clk cr split cr' \<Longrightarrow> CurrentStep (Status cr') \<noteq> CurrentStep (Status cr) \<Longrightarrow>
     Phase (Status cr) \<notin> {'''', PhasePending} \<Longrightarrow>
     CurrentStep (Status cr') = CurrentStep (Status cr) + 1 \<and> AnalysisState (Status cr') = [] \<and>
     (\<exists>step cr1. settled cr step \<and> analysed V cr cr1 \<and> gate_open step cr1 \<and>
        (\<exists>t0\<in>set clk. \<not> dur_lt (elapsed_at cr t0) (seconds (PauseSeconds step))))"
  by (erule cycle_stepE; fastforce simp: with_status_def with_analysis_def without_analysis_def
      with_message_def analysed_def split: if_splits)

lemma cycle_step_promoted:
  "cycle_step V clk cr split cr' \<Longrightarrow> Phase (Status cr') = PhasePromoted \<Longrightarrow> Phase (Status cr) \<noteq> PhasePromoted \<Longrightarrow>
     CurrentWeight (Status cr') = 100 \<and> split = None \<and>
     int (length (Steps (Spec cr))) \<le> sint (CurrentStep (Status cr'))"
  by (erule cycle_stepE) (auto simp: write_defs split: if_splits)

lemma cycle_step_weight:
  "cycle_step V clk cr split cr' \<Longrightarrow> CurrentWeight (Status cr') \<noteq> CurrentWeight (Status cr) \<Longrightarrow>
     Phase (Status cr') = PhaseRunning \<Longrightarrow> Phase (Status cr) \<notin> {'''', PhasePending} \<Longrightarrow>
     split = Some (100 - CurrentWeight (Status cr'), CurrentWeight (Status cr'), True) \<and>
     map_option Weight (current_step cr) = Some (CurrentWeight (Status cr'))"
  by (erule cycle_stepE) (auto simp: write_defs split: if_splits)

lemma cycle_step_abort:
  "cycle_step V clk cr split cr' \<Longrightarrow> Abort (Spec cr) \<Longrightarrow>
     split = Some (100, 0, True) \<and> Phase (Status cr') = PhaseAborted \<and> CurrentWeight (Status cr') = 0"
  by (erule cycle_stepE) (auto simp: write_defs)

lemma gate_verdict:
  assumes "analysed (verdict E cr es) cr cr1" "gate_open step cr1"
  shows "sint (PauseSeconds step) \<le> 0 \<or> Analysis (Spec cr) = None \<or>
    (if analysis_enabled cr then \<exists>sts reason. verdict E cr es (SPRTPromote, sts, reason)
     else all_promote (AnalysisState (Status cr)))"
proof (cases "analysis_enabled cr")
  case True
  then obtain dec sts reason where v: "verdict E cr es (dec, sts, reason)" "dec \<noteq> SPRTRollback"
      and cr1: "cr1 = with_analysis sts reason cr"
    using assms(1) by (auto simp: analysed_def)
  have "all_promote sts \<longleftrightarrow> dec = SPRTPromote"
    using v by (auto simp: verdict_def dest: RunSPRT_promote)
  then show ?thesis using v assms(2) True unfolding cr1 by (auto simp: gate_open_def with_analysis_def)
next
  case False
  then show ?thesis using assms by (auto simp: analysed_def gate_open_def)
qed

text \<open>The saturating subtraction of instants decides the two timers exactly.\<close>

lemma elapsed_pause:
  "dur_lt (elapsed_at cr t) (seconds p) \<longleftrightarrow> t - LastTransitionTime (Status cr) < sint p * 1000000000"
  using sint32_bounds [of p] by (auto simp: dur_lt_def elapsed_at_def sint_time_Sub sint_seconds)

lemma elapsed_readiness:
  "dur_lt readinessTimeout (elapsed_at cr t) \<longleftrightarrow> 300 * 1000000000 < t - LastTransitionTime (Status cr)"
proof -
  have "sint readinessTimeout = 300000000000" unfolding readinessTimeout_def Minute_def i64_def by simp
  then show ?thesis by (auto simp: dur_lt_def elapsed_at_def sint_time_Sub)
qed

text \<open>
  A status write is a write of the object that was read: name, namespace, resource version
  and specification are unchanged, so a concurrent change of the object makes the update a
  conflict and the controller never edits what the user asked for.
\<close>

lemma cycle_writes_frame:
  assumes "cycle_writes E ns n w g cr cr'"
  shows "cr'\<lparr>Status := Status cr\<rparr> = cr"
  using assms by (rule cycle_writes_step) (rule cycle_step_frame)

text \<open>
  C4: once started, a rollout moves through its steps one at a time, and only past a step it has
  earned: when a cycle writes another step, it is the next one, with the metrics' states cleared;
  the current step's weight was already in place; the step's pause had elapsed since the last
  transition at an instant the cycle read from the clock; and, if the step has a pause and an
  analysis is configured, a run of \<open>RunSPRT\<close> in this very cycle decided \<open>SPRTPromote\<close> (without a
  Prometheus URL: every stored metric state says \<open>promote\<close>).
\<close>

theorem advance_is_earned:
  assumes "cycle_writes E ns n w g cr cr'"
    and "CurrentStep (Status cr') \<noteq> CurrentStep (Status cr)"
    and "Phase (Status cr) \<notin> {'''', PhasePending}"
  shows "CurrentStep (Status cr') = CurrentStep (Status cr) + 1 \<and> AnalysisState (Status cr') = [] \<and>
    (\<exists>step t0. current_step cr = Some step \<and> CurrentWeight (Status cr) = Weight step \<and>
       ClockRead t0 \<in> set (cycle_events E ns n w g) \<and>
       sint (PauseSeconds step) * 1000000000 \<le> t0 - LastTransitionTime (Status cr) \<and>
       (sint (PauseSeconds step) \<le> 0 \<or> Analysis (Spec cr) = None \<or>
        (if analysis_enabled cr
         then \<exists>sts reason. verdict E cr (cycle_events E ns n w g) (SPRTPromote, sts, reason)
         else all_promote (AnalysisState (Status cr)))))"
proof -
  let ?es = "cycle_events E ns n w g"
  obtain split where "cycle_step (verdict E cr ?es) (clock_reads ?es) cr split cr'"
    using cycle_writes_step [OF assms(1)] .
  from cycle_step_next [OF this assms(2,3)] obtain step cr1 t0 where
    *: "CurrentStep (Status cr') = CurrentStep (Status cr) + 1" "AnalysisState (Status cr') = []"
    "settled cr step" "analysed (verdict E cr ?es) cr cr1" "gate_open step cr1"
    "t0 \<in> set (clock_reads (cycle_events E ns n w g))" "\<not> dur_lt (elapsed_at cr t0) (seconds (PauseSeconds step))"
    by blast
  have "sint (PauseSeconds step) \<le> 0 \<or> Analysis (Spec cr) = None \<or>
      (if analysis_enabled cr then \<exists>sts reason. verdict E cr ?es (SPRTPromote, sts, reason)
       else all_promote (AnalysisState (Status cr)))"
    using *(4,5) by (rule gate_verdict)
  moreover have "ClockRead t0 \<in> set (cycle_events E ns n w g)" using *(6) by (rule clock_read_event)
  ultimately show ?thesis using * unfolding settled_def elapsed_pause not_less by blast
qed

theorem advance_is_earned_witness:
  "\<exists>cr'. demo_write (demo_at 0 20) 31000000000 cr' \<and> CurrentStep (Status cr') = 0 + 1"
proof -
  let ?cr' = "with_status PhaseRunning 1 20 31000000000 ''Advancing to step 1'' (demo_at 0 20)"
  have "CurrentStep (Status ?cr') = CurrentStep (Status (demo_at 0 20)) + 1"
    using advance_is_earned [OF demo_advance [unfolded demo_write_def]]
    by (simp add: with_status_def demo_at_def demo_rollout_def demo_status_def)
  then show ?thesis using demo_advance
    by (intro exI [of _ ?cr']) (simp add: demo_at_def demo_rollout_def demo_status_def)
qed





text \<open>
  A promotion is the end of the steps and writes the weight 100, and the cycle that makes
  it writes no VirtualService: the mesh keeps the split of the last step. The message says 100%
  of the traffic goes to the canary, which is so only if the last step's weight is 100.
\<close>

lemma promotion_writes_no_split:
  assumes "cycle_writes E ns n w g cr cr'" "Phase (Status cr') = PhasePromoted"
    "Phase (Status cr) \<noteq> PhasePromoted"
  shows "CurrentWeight (Status cr') = 100 \<and> vs_writes (cycle_events E ns n w g) = [] \<and>
    int (length (Steps (Spec cr))) \<le> sint (CurrentStep (Status cr'))"
proof -
  let ?es = "cycle_events E ns n w g"
  obtain split where st: "cycle_step (verdict E cr ?es) (clock_reads ?es) cr split cr'"
    and "split_done E cr split (vs_writes ?es)"
    using assms(1) by (rule cycle_writes_step)
  then show ?thesis using cycle_step_promoted [OF st assms(2,3)] by simp
qed

lemma promotion_writes_no_split_witness:
  "CurrentWeight (Status (demo_at 1 50)) = 50 \<and>
   (\<exists>cr'. demo_write (demo_at 1 50) 1 cr' \<and> CurrentWeight (Status cr') = 100) \<and>
   vs_writes (cycle_events cluster_env ''default'' ''demo'' (demo_cluster (demo_at 1 50) 1) no_gauges) = []"
  using demo_promote promotion_writes_no_split [OF demo_promote [unfolded demo_write_def]]
  by (auto simp: with_status_def demo_at_def demo_rollout_def demo_status_def)

lemma cycle_step_paused:
  "cycle_step V clk cr split cr' \<Longrightarrow> Paused (Spec cr) \<Longrightarrow> \<not> Abort (Spec cr) \<Longrightarrow>
     split = None \<and> Phase (Status cr) \<noteq> PhasePaused \<and> Phase (Status cr') = PhasePaused \<and>
     CurrentStep (Status cr') = CurrentStep (Status cr) \<and> CurrentWeight (Status cr') = CurrentWeight (Status cr) \<and>
     AnalysisState (Status cr') = AnalysisState (Status cr)"
  by (erule cycle_stepE) (auto simp: write_defs)

text \<open>
  A paused rollout stands still: while \<open>spec.paused\<close> is set (and \<open>spec.abort\<close> is not), the
  only status a cycle may write is \<open>Paused\<close>, once, with the step, the weight and the test's
  state kept, and no VirtualService is written.
\<close>

lemma paused_stands_still:
  assumes "cycle_writes E ns n w g cr cr'" "Paused (Spec cr)" "\<not> Abort (Spec cr)"
  shows "Phase (Status cr) \<noteq> PhasePaused \<and> Phase (Status cr') = PhasePaused \<and>
    CurrentStep (Status cr') = CurrentStep (Status cr) \<and> CurrentWeight (Status cr') = CurrentWeight (Status cr) \<and>
    AnalysisState (Status cr') = AnalysisState (Status cr) \<and> vs_writes (cycle_events E ns n w g) = []"
proof -
  let ?es = "cycle_events E ns n w g"
  obtain split where st: "cycle_step (verdict E cr ?es) (clock_reads ?es) cr split cr'"
    and "split_done E cr split (vs_writes ?es)"
    using assms(1) by (rule cycle_writes_step)
  then show ?thesis using cycle_step_paused [OF st assms(2,3)] by simp
qed

lemma paused_stands_still_witness:
  "\<exists>cr'. demo_write demo_pausing 7 cr' \<and> CurrentWeight (Status cr') = 20 \<and>
     vs_writes (cycle_events cluster_env ''default'' ''demo'' (demo_cluster demo_pausing 7) no_gauges) = []"
  using demo_pause paused_stands_still [OF demo_pause [unfolded demo_write_def]]
  by (auto simp: demo_pausing_def demo_at_def demo_rollout_def demo_spec_def demo_status_def with_status_def)

lemma cycle_step_failed:
  "cycle_step V clk cr split cr' \<Longrightarrow> Phase (Status cr') = PhaseFailed \<Longrightarrow> Phase (Status cr) \<noteq> PhaseFailed \<Longrightarrow>
     CurrentWeight (Status cr') = 0 \<and> (\<exists>t0 \<in> set clk. dur_lt readinessTimeout (elapsed_at cr t0))"
  by (erule cycle_stepE) (auto simp: write_defs split: if_splits)

text \<open>
  C19: a rollout fails only when its canary pods were not ready for more than five minutes: the
  phase \<open>Failed\<close> is written only at an instant, read from the clock in that cycle, more than 300
  seconds after the last transition, with weight 0.
\<close>

theorem fails_only_after_timeout:
  assumes "cycle_writes E ns n w g cr cr'" "Phase (Status cr') = PhaseFailed" "Phase (Status cr) \<noteq> PhaseFailed"
  shows "CurrentWeight (Status cr') = 0 \<and>
    (\<exists>t0. ClockRead t0 \<in> set (cycle_events E ns n w g) \<and>
       300 * 1000000000 < t0 - LastTransitionTime (Status cr))"
proof -
  let ?es = "cycle_events E ns n w g"
  obtain split where st: "cycle_step (verdict E cr ?es) (clock_reads ?es) cr split cr'"
    using assms(1) by (rule cycle_writes_step)
  from cycle_step_failed [OF this assms(2,3)] show ?thesis
    unfolding elapsed_readiness by (blast dest: clock_read_event)
qed

theorem fails_only_after_timeout_witness:
  "\<exists>cr'. CurrentWeight (Status cr') = 0 \<and>
     cycle_writes cluster_env ''default'' ''demo'' ((demo_cluster (demo_at 0 20) 300000000001)\<lparr>stored_pods := \<lambda>k. []\<rparr>)
       no_gauges (demo_at 0 20) cr' \<and> Phase (Status cr') = PhaseFailed"
proof -
  let ?cr' = "with_status PhaseFailed 0 0 300000000001 ''Canary pods not ready, timeout exceeded'' (demo_at 0 20)"
  have timeout: "sint readinessTimeout = 300000000000" unfolding readinessTimeout_def Minute_def i64_def by simp
  have w: "cycle_writes cluster_env ''default'' ''demo''
      ((demo_cluster (demo_at 0 20) 300000000001)\<lparr>stored_pods := \<lambda>k. []\<rparr>) no_gauges (demo_at 0 20) ?cr'"
    by (simp add: demo_write_eval timeout)
  then show ?thesis
    using fails_only_after_timeout [OF w]
    by (intro exI [of _ ?cr']) (simp add: with_status_def demo_at_def demo_rollout_def demo_status_def)
qed

end
