(* ===== verification/Reconciler_Runs.thy ===== *)
theory Reconciler_Runs
  imports Reconciler_Props
begin

text \<open>
  Whole cycles computed for every environment: the phases in which nothing is done, the errors
  that are retried, the delays returned, and the cycle that advances.
\<close>

section \<open>Terminal phases\<close>

text \<open>
  An aborted rollout is left alone for ever, and so is a promoted one unless the user sets
  \<open>spec.abort\<close>: the cycle reads the object, does nothing else, and asks for no requeue.
\<close>

lemma terminal_phases_do_nothing:
  assumes "get_rollout E ns n (world s) = (Inr cr, w)"
    and "Phase (Status cr) = PhaseAborted \<or> Phase (Status cr) = PhasePromoted \<and> \<not> Abort (Spec cr)"
  shows "Reconcile E ns n s = (Ret (0, None), s\<lparr>world := w\<rparr>)"
  using assms by (auto simp: Reconcile_def reconcile_rollout_def call_def Let_def)

section \<open>A cycle at a step whose weight is in place\<close>

text \<open>The state in which the analysis starts: object read, pods ready, clock read.\<close>

definition analysis_starts ::
    "'w env \<Rightarrow> string \<Rightarrow> string \<Rightarrow> 'w sys \<Rightarrow> canary_rollout \<Rightarrow> canary_step \<Rightarrow> gotime \<Rightarrow> 'w sys \<Rightarrow> bool" where
  "analysis_starts E ns n s cr step t s3 \<longleftrightarrow>
     (\<exists>w1 s2 w3. get_rollout E ns n (world s) = (Inr cr, w1) \<and> settled cr step \<and>
        isCanaryReady E (Namespace cr) (TargetRef (Spec cr)) (s\<lparr>world := w1\<rparr>) = (Ret (Inr True), s2) \<and>
        time_Now E (world s2) = (t, w3) \<and> s3 = s2\<lparr>world := w3\<rparr>)"

lemma Reconcile_settled:
  assumes "analysis_starts E ns n s cr step t s3"
  shows "Reconcile E ns n s = reconcile_analysis E cr (int64_of_int32 (CurrentStep (Status cr)))
    (seconds (PauseSeconds step)) (elapsed_at cr t) s3"
  using assms
  by (auto simp: analysis_starts_def settled_def active_def current_step_def Reconcile_def reconcile_rollout_def
      reconcile_running_def reconcile_step_def call_def elapsed_at_def Let_def split: if_splits)

lemma int64_step [simp]: "sint (int64_of_int32 x) = sint x"
  by (rule sint_int64_of_int32)

text \<open>The demo rollout at its first step, weight in place, with an analysis.\<close>

definition demo_analysed :: "sprt_analysis \<Rightarrow> canary_rollout" where
  "demo_analysed a =
     demo_rollout (demo_spec\<lparr>PrometheusURL := ''http://prometheus'', Analysis := Some a\<rparr>)
       (demo_status\<lparr>CurrentWeight := 20\<rparr>)"

lemma demo_starts:
  assumes "stored_rollouts c (''default'', ''demo'') = Some (demo_analysed a)"
    and "stored_deployments c (''default'', ''app-canary'') = Some \<lparr>MatchLabels = Some [(''app'', ''canary'')]\<rparr>"
    and "stored_pods c (''default'', [(''app'', ''canary'')]) = [[\<lparr>cond_Type = ''Ready'', cond_Status = ''True''\<rparr>]]"
    and "world s = c"
  shows "analysis_starts (cluster_env\<lparr>prom_client := p\<rparr>) ''default'' ''demo'' s (demo_analysed a)
    \<lparr>Weight = 20, PauseSeconds = 30\<rparr> (clock c) s"
  using assms
  by (cases s) (simp add: analysis_starts_def settled_def active_def current_step_def isCanaryReady_def pod_ready_def
      call_def lookup_def demo_analysed_def demo_rollout_def demo_status_def demo_spec_def)

lemma demo_starts_cluster:
  "analysis_starts (cluster_env\<lparr>prom_client := p\<rparr>) ''default'' ''demo'' (demo_sys (demo_analysed a) now)
    (demo_analysed a) \<lparr>Weight = 20, PauseSeconds = 30\<rparr> now (demo_sys (demo_analysed a) now)"
  using demo_starts [of "demo_cluster (demo_analysed a) now" a "demo_sys (demo_analysed a) now" p]
  by (simp add: demo_sys_def demo_cluster_def demo_analysed_def demo_rollout_def)

lemma demo_analysed_sel [simp]:
  "analysis_enabled (demo_analysed a)" "Analysis (Spec (demo_analysed a)) = Some a"
  "PrometheusURL (Spec (demo_analysed a)) = ''http://prometheus''" "AnalysisState (Status (demo_analysed a)) = []"
  "Namespace (demo_analysed a) = ''default''" "Name (demo_analysed a) = ''demo''"
  "StableServiceRef (Spec (demo_analysed a)) = ''app-stable''"
  "CanaryServiceRef (Spec (demo_analysed a)) = ''app-canary''"
  "CurrentStep (Status (demo_analysed a)) = 0" "VirtualServiceRef (Spec (demo_analysed a)) = ''app''"
  by (simp_all add: analysis_enabled_def demo_analysed_def demo_rollout_def demo_status_def demo_spec_def)

text \<open>
  An analysis that fails (Prometheus unreachable, a query refused, a reply of another type)
  is no reason to abort: the cycle writes nothing, reports no error and comes back in 15
  seconds; the state of the test stays as it was stored.
\<close>

lemma analysis_error_is_retried:
  assumes "analysis_starts E ns n s cr step t s3" "analysis_enabled cr" "Analysis (Spec cr) = Some a"
    and "RunSPRT E (PrometheusURL (Spec cr)) (Namespace cr) (Name cr) a (AnalysisState (Status cr)) s3 = (Inl err, s4)"
  shows "Reconcile E ns n s = (Ret (seconds 15, None), s4)"
  using assms by (simp add: Reconcile_settled analysis_enabled_def reconcile_analysis_def)

text \<open>
  C18: the rollback of the test does not depend on the mesh: when \<open>RunSPRT\<close> decides a rollback,
  the cycle asks for the split 100/0 and, even if that write fails, goes on to write the phase
  \<open>Aborted\<close>, with weight 0, and no requeue. Since an aborted rollout is never looked at again,
  the traffic is then not moved back by any later cycle.
\<close>

theorem rollback_ignores_the_split_error:
  assumes "analysis_starts E ns n s cr step t s3" "analysis_enabled cr" "Analysis (Spec cr) = Some a"
    and "RunSPRT E (PrometheusURL (Spec cr)) (Namespace cr) (Name cr) a (AnalysisState (Status cr)) s3 =
      (Inr (SPRTRollback, sts, reason), s4)"
    and "set_weights E cr 100 0 s4 = (err, s5)" and "time_Now E (world s5) = (t', w6)"
  shows "let cr' = with_status PhaseAborted (CurrentStep (Status cr)) 0 t'
           (''SPRT rollback at step '' @ fmt_d (sint (CurrentStep (Status cr))) @ '': '' @ reason)
           (with_analysis sts reason cr)
    in fst (Reconcile E ns n s) = Ret (0, fst (update_status E cr' w6))"
proof -
  have w: "set_weights E (with_analysis sts reason cr) 100 0 s4 = (err, s5)"
    using assms(5) by (simp add: set_weights_def with_analysis_def)
  show ?thesis
    using assms(2-4,6) w Reconcile_settled [OF assms(1)]
    by (simp add: analysis_enabled_def reconcile_analysis_def return_status_def setStatus_def call_def Let_def
        split: prod.splits)
qed

text \<open>
  The run: boundaries that meet at 0, so the first cycle with stable traffic rolls back, and a
  cluster that refuses to update the VirtualService.
\<close>

definition demo_half :: sprt_analysis where
  "demo_half = demo_analysis\<lparr>Alpha := f64_lit 1 2, Beta := f64_lit 1 2\<rparr>"

definition demo_refusing :: "cluster sys" where
  "demo_refusing =
    \<lparr> world = (demo_cluster (demo_analysed demo_half) 1)
        \<lparr> vs_fails := True, samples := (\<lambda>q. [if q = ''st'' then f64_of_int 100 else f64_0]) \<rparr>,
      gauges_of = no_gauges \<rparr>"

lemma demo_half_run:
  "\<exists>sts reason s4. RunSPRT cluster_env ''http://prometheus'' ''default'' ''demo'' demo_half [] demo_refusing =
     (Inr (SPRTRollback, sts, reason), s4) \<and> world s4 = world demo_refusing"
proof -
  have up: "f64_le (upper_bound log_portable demo_half) f64_0" by code_simp
  have z: "\<not> f64_eq (f64_of_int 100) f64_0" "\<not> f64_lt f64_0 (f64_sub f64_0 f64_0)"
    "\<not> f64_lt (f64_sub f64_0 f64_0) f64_0" by code_simp+
  show ?thesis
    using up z
    by (simp add: RunSPRT_def Let_def demo_half_def demo_analysis_def demo_metric_def sprt_metric_def metric_decided_def
        init_state_def queryScalar_def call_def demo_refusing_def sprt_samples_def counter_reset_def accumulate_def
        sprt_publish_def)
qed

lemma demo_refusing_starts:
  "analysis_starts cluster_env ''default'' ''demo'' demo_refusing (demo_analysed demo_half)
     \<lparr>Weight = 20, PauseSeconds = 30\<rparr> 1 demo_refusing"
proof -
  have "cluster_env\<lparr>prom_client := prom_client cluster_env\<rparr> = cluster_env" by (cases cluster_env) simp
  moreover have "clock (world demo_refusing) = 1" by (simp add: demo_refusing_def demo_cluster_def)
  ultimately show ?thesis
    using demo_starts [of "world demo_refusing" demo_half demo_refusing "prom_client cluster_env"]
    by (simp add: demo_refusing_def demo_cluster_def)
qed

lemma demo_refused:
  assumes "world s = world demo_refusing"
  shows "set_weights cluster_env (demo_analysed demo_half) 100 0 s =
    (Some (Wrapped ''update VirtualService default/app'' (ApiError OtherReason ''refused'')), s)"
  using assms
  by (simp add: set_weights_def SetVirtualServiceWeights_def call_def lookup_def demo_refusing_def demo_cluster_def
      vs_with_weights_def demo_vs_def demo_route_def json_slice_def json_set_slice_def set_route_weight_def
      dest_host_def json_string_def store_vs_def Let_def)

theorem rollback_ignores_the_split_error_witness:
  "fst (set_weights cluster_env (demo_analysed demo_half) 100 0 demo_refusing) \<noteq> None \<and>
   fst (Reconcile cluster_env ''default'' ''demo'' demo_refusing) = Ret (0, None)"
proof -
  obtain sts reason s4 where run: "RunSPRT cluster_env ''http://prometheus'' ''default'' ''demo'' demo_half []
      demo_refusing = (Inr (SPRTRollback, sts, reason), s4)" and w: "world s4 = world demo_refusing"
    using demo_half_run by blast
  have "fst (Reconcile cluster_env ''default'' ''demo'' demo_refusing) = Ret (0, None)"
    using rollback_ignores_the_split_error [OF demo_refusing_starts _ _ _ demo_refused [OF w], of demo_half sts reason
        1 "world s4"] run w
    by (simp add: Let_def demo_refusing_def demo_cluster_def store_status_def with_status_def with_analysis_def)
  then show ?thesis using demo_refused [of demo_refusing] by simp
qed

section \<open>Progress\<close>

lemma sint_Second: "sint Second = 1000000000"
  unfolding Second_def i64_def by simp

text \<open>
  C15: a promote decision moves the rollout on: when the weight is in place, the pods are ready,
  \<open>RunSPRT\<close> decides \<open>SPRTPromote\<close> and the pause has elapsed, the cycle writes the next step (or
  the promotion, after the last one), with the test's state cleared, drops the metrics' series,
  publishes phase and weight, and comes back in a second (or not at all).
\<close>

theorem promote_decision_advances:
  assumes "analysis_starts E ns n s cr step t s3" "analysis_enabled cr" "Analysis (Spec cr) = Some a"
    and "RunSPRT E (PrometheusURL (Spec cr)) (Namespace cr) (Name cr) a (AnalysisState (Status cr)) s3 =
      (Inr (SPRTPromote, sts, reason), s4)"
    and "sint (PauseSeconds step) * 1000000000 \<le> t - LastTransitionTime (Status cr)"
    and "time_Now E (world s4) = (t', w5)"
  shows "let i = CurrentStep (Status cr) + 1;
             last = (int (length (Steps (Spec cr))) \<le> sint i);
             phase = (if last then PhasePromoted else PhaseRunning);
             weight = (if last then 100 else CurrentWeight (Status cr));
             msg = (if last then ''Rollout promoted, 100% traffic to canary''
                    else ''Advancing to step '' @ fmt_d (sint i));
             cr' = with_status phase i weight t' msg (without_analysis cr);
             g = recordCanaryWeight (Namespace cr) (Name cr) weight
                   (recordRolloutPhase (Namespace cr) (Name cr) phase
                     (reset_series (Namespace cr) (Name cr) (Metrics a) (gauges_of s4)))
    in Reconcile E ns n s =
      (Ret (if last then 0 else Second, fst (update_status E cr' w5)),
       s4\<lparr>world := snd (update_status E cr' w5), gauges_of := g\<rparr>)"
proof -
  have all: "all_promote sts" using RunSPRT_promote [OF assms(4)] by simp
  have late: "\<not> dur_lt (elapsed_at cr t) (seconds (PauseSeconds step))"
    unfolding elapsed_pause using assms(5) by simp
  have w: "with_status p i w tt msg (with_analysis sts reason cr\<lparr>Status := (Status (with_analysis sts reason cr))\<lparr>AnalysisState := []\<rparr>\<rparr>)
      = with_status p i w tt msg (without_analysis cr)" for p i w tt msg
    by (simp add: with_status_def with_analysis_def without_analysis_def)
  have f: "Spec (with_analysis sts reason cr) = Spec cr" "Namespace (with_analysis sts reason cr) = Namespace cr"
    "Name (with_analysis sts reason cr) = Name cr"
    "AnalysisState (Status (with_analysis sts reason cr)) = sts"
    "CurrentWeight (Status (with_analysis sts reason cr)) = CurrentWeight (Status cr)"
    by (simp_all add: with_analysis_def)
  have n: "Namespace (with_status p i w tt msg (without_analysis cr)) = Namespace cr"
    "Name (with_status p i w tt msg (without_analysis cr)) = Name cr" for p i w tt msg
    by (simp_all add: with_status_def without_analysis_def)
  have adv: "Reconcile E ns n s =
      reconcile_advance E (with_analysis sts reason cr) (int64_of_int32 (CurrentStep (Status cr))) s4"
    using assms(2-4) Reconcile_settled [OF assms(1)] all late
    by (simp add: analysis_enabled_def reconcile_analysis_def reconcile_timer_def reconcile_gate_def f Let_def)
  show ?thesis
    unfolding adv
    by (simp add: reconcile_advance_def int32_next return_status_def setStatus_def w f n call_def gauge_update_def
        reset_gauges_def assms(3,6) Let_def split: prod.splits)
qed

text \<open>A canary without a failure in a thousand requests passes the demo's test at once.\<close>

lemma demo_passing_samples:
  obtains st where
    "sprt_samples log_portable (upper_bound log_portable demo_analysis) (lower_bound log_portable demo_analysis)
       demo_metric (init_state ''http-errors'') (f64_of_int 1000) f64_0 (f64_of_int 1000) (f64_of_int 10) =
       (MetricState st, True)"
    "state_Name st = ''http-errors''" "Decision st = decision_promote"
proof -
  have "case sprt_samples log_portable (upper_bound log_portable demo_analysis) (lower_bound log_portable demo_analysis)
      demo_metric (init_state ''http-errors'') (f64_of_int 1000) f64_0 (f64_of_int 1000) (f64_of_int 10) of
     (MetricState st, b) \<Rightarrow> state_Name st = ''http-errors'' \<and> Decision st = decision_promote \<and> b
   | _ \<Rightarrow> False"
    by code_simp
  then show thesis using that by (auto split: prod.splits metric_out.splits)
qed

definition demo_promoting :: canary_rollout where
  "demo_promoting =
     demo_rollout (demo_spec\<lparr>PrometheusURL := ''http://prometheus'', Analysis := Some demo_analysis\<rparr>)
       (demo_status\<lparr>CurrentWeight := 20,
          AnalysisState := [(init_state ''http-errors'')\<lparr>Decision := decision_promote\<rparr>]\<rparr>)"

lemma demo_promoting_run:
  "\<exists>sts reason g. RunSPRT cluster_env ''http://prometheus'' ''default'' ''demo'' demo_analysis
      [(init_state ''http-errors'')\<lparr>Decision := decision_promote\<rparr>] s =
     (Inr (SPRTPromote, sts, reason), s\<lparr>gauges_of := g\<rparr>)"
  by (simp add: RunSPRT_def sprt_metric_def metric_decided_def demo_analysis_def demo_metric_def init_state_def
      all_promote_def gauge_update_def Let_def) (rule exI, rule refl)

theorem promote_decision_advances_witness:
  "fst (Reconcile cluster_env ''default'' ''demo'' (demo_sys demo_promoting 30000000000)) = Ret (Second, None)"
proof -
  let ?s = "demo_sys demo_promoting 30000000000"
  have start: "analysis_starts cluster_env ''default'' ''demo'' ?s demo_promoting
      \<lparr>Weight = 20, PauseSeconds = 30\<rparr> 30000000000 ?s"
    by (simp add: analysis_starts_def settled_def active_def current_step_def isCanaryReady_def pod_ready_def
        call_def lookup_def demo_promoting_def demo_defs)
  obtain sts reason g where run: "RunSPRT cluster_env ''http://prometheus'' ''default'' ''demo'' demo_analysis
      [(init_state ''http-errors'')\<lparr>Decision := decision_promote\<rparr>] ?s =
     (Inr (SPRTPromote, sts, reason), ?s\<lparr>gauges_of := g\<rparr>)"
    using demo_promoting_run by blast
  have enabled: "analysis_enabled demo_promoting" "Analysis (Spec demo_promoting) = Some demo_analysis"
    by (simp_all add: analysis_enabled_def demo_promoting_def demo_rollout_def)
  have *: "fst (Reconcile cluster_env ''default'' ''demo'' ?s) =
      Ret (Second, fst (store_status (with_status PhaseRunning 1 20 30000000000 (''Advancing to step '' @ fmt_d 1)
        (without_analysis demo_promoting)) (world ?s)))"
    using promote_decision_advances [OF start enabled, of sts reason "?s\<lparr>gauges_of := g\<rparr>" 30000000000 "world ?s"] run
    by (simp add: demo_promoting_def demo_rollout_def demo_status_def demo_spec_def demo_sys_def demo_cluster_def Let_def)
  show ?thesis
    unfolding * by (simp add: store_status_def without_analysis_def with_status_def demo_promoting_def demo_defs)
qed

text \<open>
  C16: while a step is waiting, the controller comes back in time: with the pause not over and
  the status stored, the cycle asks to be called again after the rest of the pause or the
  analysis interval, whichever is shorter. The delay is positive, and exact: the 64 bit
  subtraction does not wrap unless the last transition lies more than 146 years ahead.
\<close>

theorem waiting_requeues_in_time:
  assumes "dur_lt elapsed (seconds p)" "- (2 ^ 62) \<le> sint elapsed"
    and "fst (update_status E cr (world s)) = None"
  shows "\<exists>d. fst (reconcile_timer E cr i (seconds p) elapsed (analysis_interval (Spec cr)) s) = Ret (d, None) \<and>
    sint d = min (sint p * 1000000000 - sint elapsed) (sint (analysis_interval (Spec cr))) \<and> 0 < sint d"
proof -
  have p: "sint p * 1000000000 < 2 ^ 62" "sint elapsed < sint p * 1000000000"
    using sint32_bounds [of p] assms(1) by (simp_all add: dur_lt_def sint_seconds)
  have rest: "sint (seconds p - elapsed) = sint p * 1000000000 - sint elapsed"
    using p assms(2) sint_minus_64 [of "seconds p" elapsed] by (simp add: sint_seconds)
  have pos: "0 < sint (analysis_interval (Spec cr))"
    by (auto simp: analysis_interval_def sint_seconds split: option.splits)
  obtain w where upd: "update_status E cr (world s) = (None, w)" using assms(3) by (metis prod.collapse)
  have "fst (reconcile_timer E cr i (seconds p) elapsed (analysis_interval (Spec cr)) s) =
      Ret (if dur_lt (seconds p - elapsed) (analysis_interval (Spec cr)) then seconds p - elapsed
           else analysis_interval (Spec cr), None)"
    using assms(1) upd by (simp add: reconcile_timer_def return_update_def call_def Let_def)
  then show ?thesis
    using rest pos p by (auto simp: dur_lt_def)
qed

theorem waiting_requeues_in_time_witness:
  "\<exists>d. fst (reconcile_timer cluster_env (demo_at 0 20) 0 (seconds 30) (seconds 25)
       (analysis_interval (Spec (demo_at 0 20))) (demo_sys (demo_at 0 20) 0)) = Ret (d, None) \<and>
     sint d = 5000000000"
proof -
  let ?cr = "demo_at 0 20"
  have i: "sint (analysis_interval (Spec ?cr)) = 10000000000"
    by (simp add: analysis_interval_def demo_at_def demo_rollout_def demo_spec_def sint_seconds)
  have "dur_lt (seconds 25) (seconds 30)" "- (2 ^ 62) \<le> sint (seconds 25)"
    by (simp_all add: dur_lt_def sint_seconds)
  moreover have "fst (update_status cluster_env ?cr (world (demo_sys ?cr 0))) = None"
    by (simp add: store_status_def demo_sys_def demo_cluster_def)
  ultimately show ?thesis
    using waiting_requeues_in_time [of "seconds 25" 30 cluster_env ?cr "demo_sys ?cr 0" 0]
    by (auto simp: i sint_seconds)
qed

section \<open>Readiness, panics, gauges\<close>

definition returns :: "'a outcome \<times> 's \<Rightarrow> bool" where
  "returns r \<longleftrightarrow> (case fst r of Ret a \<Rightarrow> True | Panic p \<Rightarrow> False)"

lemma returns_Ret: "returns (Ret a, s)"
  by (simp add: returns_def)

lemma return_status_ret: "returns (return_status E cr d phase step weight msg s)"
  by (simp add: returns_def return_status_def split: prod.split)

lemma return_update_ret: "returns (return_update E cr d s)"
  by (simp add: returns_def return_update_def split: prod.split option.split)

lemma reconcile_timer_ret: "returns (reconcile_timer E cr i p e d s)"
  by (simp add: reconcile_timer_def reconcile_gate_def reconcile_advance_def Let_def return_status_ret
      return_update_ret)

lemma reconcile_analysis_ret: "returns (reconcile_analysis E cr i p e s)"
  by (auto simp: reconcile_analysis_def Let_def reconcile_timer_ret return_status_ret returns_Ret
      split: option.split bool.split prod.split sum.split)

lemma reconcile_step_ret: "returns (reconcile_step E cr i step s)"
  by (auto simp: reconcile_step_def Let_def reconcile_analysis_ret return_status_ret returns_Ret
      split: option.split prod.split)

lemma reconcile_not_ready_ret: "returns (reconcile_not_ready E cr s)"
  by (auto simp: reconcile_not_ready_def Let_def return_status_ret returns_Ret split: prod.split)

lemma isCanaryReady_ret:
  assumes "\<And>d w. case fst (get_deployment E ns d w) of Inl err \<Rightarrow> True | Inr dep \<Rightarrow> MatchLabels dep \<noteq> None"
  shows "returns (isCanaryReady E ns d s)"
  using assms [of d "world s"]
  by (auto simp: returns_def isCanaryReady_def call_def split: prod.splits sum.splits option.splits)

lemma reconcile_running_ret:
  assumes "\<And>d w. case fst (get_deployment E (Namespace cr) d w) of Inl err \<Rightarrow> True | Inr dep \<Rightarrow> MatchLabels dep \<noteq> None"
    and "0 \<le> sint (CurrentStep (Status cr))"
  shows "returns (reconcile_running E cr s)"
proof -
  obtain ready s1 where c: "isCanaryReady E (Namespace cr) (TargetRef (Spec cr)) s = (ready, s1)" by fastforce
  then obtain r where r: "ready = Ret r"
    using isCanaryReady_ret [OF assms(1), of "TargetRef (Spec cr)" s] by (cases ready) (simp_all add: returns_def)
  have nneg: "\<not> sint (CurrentStep (Status cr)) < 0" using assms(2) by simp
  show ?thesis
  proof (cases r)
    case (Inl err)
    then show ?thesis using c r by (simp add: reconcile_running_def Let_def return_status_ret returns_Ret)
  next
    case (Inr b)
    then show ?thesis
      using c r nneg by (cases b) (simp_all add: reconcile_running_def Let_def return_status_ret
          reconcile_not_ready_ret reconcile_step_ret)
  qed
qed



text \<open>
  Advancing drops the log-likelihood, observation and failure series of exactly the
  configured metrics of this rollout; the series of other rollouts and of metrics no longer
  configured stay, and so do the boundaries, the weight and the phase.
\<close>

lemma advance_drops_the_series:
  "let names = (case Analysis (Spec cr) of None \<Rightarrow> [] | Some a \<Rightarrow> map metric_Name (Metrics a));
       dropped = (ns = Namespace cr \<and> ro = Name cr \<and> m \<in> set names)
   in sprtLogLikelihood (reset_gauges cr g) (ns, ro, m) = (if dropped then None else sprtLogLikelihood g (ns, ro, m)) \<and>
      sprtObservations (reset_gauges cr g) (ns, ro, m) = (if dropped then None else sprtObservations g (ns, ro, m)) \<and>
      sprtFailures (reset_gauges cr g) (ns, ro, m) = (if dropped then None else sprtFailures g (ns, ro, m)) \<and>
      rolloutPhase (reset_gauges cr g) = rolloutPhase g \<and>
      canaryWeight_gauge (reset_gauges cr g) = canaryWeight_gauge g"
  by (auto simp: reset_gauges_def reset_series_value reset_series_frame Let_def split: option.split)

end
