(* ===== verification/Lifecycle.thy ===== *)
theory Lifecycle
  imports Reconciler_Props
begin

text \<open>
  The life of a rollout: any number of reconcile cycles, each in any world, between which the
  user may edit the specification. The invariants are proved by induction over this relation.
\<close>

section \<open>Histories\<close>

text \<open>
  \<open>later ok E cr cr'\<close>: the stored object became \<open>cr'\<close> from \<open>cr\<close> by status writes of \<open>Reconcile\<close> in
  the environment \<open>E\<close> and by edits that left a specification with \<open>ok\<close>. A cycle that writes
  nothing, or whose write is refused, leaves the object as it is.
\<close>

inductive later :: "(rollout_spec \<Rightarrow> bool) \<Rightarrow> 'w env \<Rightarrow> canary_rollout \<Rightarrow> canary_rollout \<Rightarrow> bool"
  for ok E cr where
  later_refl: "later ok E cr cr"
| later_cycle: "later ok E cr cr1 \<Longrightarrow> cycle_writes E ns n w g cr1 cr2 \<Longrightarrow> later ok E cr cr2"
| later_edit: "later ok E cr cr1 \<Longrightarrow> ok sp \<Longrightarrow> later ok E cr (cr1\<lparr>Spec := sp, ResourceVersion := v\<rparr>)"

definition fresh :: "canary_rollout \<Rightarrow> bool" where
  "fresh cr \<longleftrightarrow> Phase (Status cr) = '''' \<and> CurrentStep (Status cr) = 0 \<and> CurrentWeight (Status cr) = 0 \<and>
     AnalysisState (Status cr) = []"

text \<open>Every status write of a cycle is a step of the machine, for some results and instants.\<close>

lemma later_cycle_step:
  assumes "cycle_writes E ns n w g cr cr'"
  obtains V clk split where "cycle_step V clk cr split cr'"
  using assms by (rule cycle_writes_step)

lemma later_spec:
  assumes "later ok E cr cr'" "ok (Spec cr)"
  shows "ok (Spec cr')"
  using assms
proof (induction rule: later.induct)
  case (later_cycle cr1 ns n w g cr2)
  then show ?case by (metis cycle_step_frame later_cycle_step canary_rollout.select_convs(6)
      canary_rollout.surjective canary_rollout.update_convs(7))
qed simp_all

section \<open>Invariants of one step\<close>

lemma cycle_step_aborted: "cycle_step V clk cr split cr' \<Longrightarrow> Phase (Status cr) \<noteq> PhaseAborted"
  by (erule cycle_stepE) (auto simp: write_defs)

lemma cycle_step_started:
  "cycle_step V clk cr split cr' \<Longrightarrow> Phase (Status cr) \<notin> {'''', PhasePending} \<Longrightarrow>
     Phase (Status cr') \<notin> {'''', PhasePending}"
  by (erule cycle_stepE) (auto simp: write_defs split: if_splits)

definition well_formed_at :: "canary_step list \<Rightarrow> rollout_phase \<Rightarrow> int32 \<Rightarrow> int32 \<Rightarrow> bool" where
  "well_formed_at steps phase i w \<longleftrightarrow>
     phase \<in> {'''', PhasePending, PhaseRunning, PhasePaused, PhasePromoted, PhaseAborted, PhaseFailed} \<and>
     0 \<le> sint i \<and> sint i \<le> int (length steps) \<and> w \<in> {0, 100} \<union> Weight ` set steps \<and>
     (phase \<in> {PhaseAborted, PhaseFailed} \<longrightarrow> w = 0) \<and>
     (phase = PhasePromoted \<longrightarrow> w = 100 \<and> sint i = int (length steps))"

definition well_formed :: "canary_step list \<Rightarrow> canary_rollout \<Rightarrow> bool" where
  "well_formed steps cr \<longleftrightarrow>
     well_formed_at steps (Phase (Status cr)) (CurrentStep (Status cr)) (CurrentWeight (Status cr))"

lemma well_formed_writes [simp]:
  "well_formed steps (with_status p i w t msg cr) = well_formed_at steps p i w"
  "well_formed steps (with_message msg cr) = well_formed steps cr"
  "well_formed steps (cr\<lparr>Spec := sp, ResourceVersion := v\<rparr>) = well_formed steps cr"
  by (simp_all add: well_formed_def with_status_def with_message_def)

lemma analysed_well_formed: "analysed V cr cr1 \<Longrightarrow> well_formed steps cr1 = well_formed steps cr"
  by (auto simp: well_formed_def analysed_def with_analysis_def split: if_splits)

lemma well_formed_at_active:
  "well_formed_at steps p i w \<Longrightarrow> q \<in> {PhaseRunning, PhasePaused} \<Longrightarrow> well_formed_at steps q i w"
  by (auto simp: well_formed_at_def)

lemma current_step_in: "current_step cr = Some step \<Longrightarrow> step \<in> set (Steps (Spec cr))"
  by (auto simp: current_step_def Let_def split: if_splits)

lemma cycle_step_well_formed:
  assumes step: "cycle_step V clk cr split cr'" and wf: "well_formed steps cr"
    and steps: "Steps (Spec cr) = steps" "length steps < 2 ^ 31"
  shows "well_formed steps cr'"
proof -
  let ?i = "CurrentStep (Status cr)" and ?w = "CurrentWeight (Status cr)"
  have at: "well_formed_at steps (Phase (Status cr)) ?i ?w" using wf by (simp add: well_formed_def)
  then have i: "0 \<le> sint ?i" "sint ?i \<le> int (length steps)" and w: "?w \<in> {0, 100} \<union> Weight ` set steps"
    by (simp_all add: well_formed_at_def)
  note running = well_formed_at_active [OF at]
  have next_i: "sint (?i + 1) = sint ?i + 1" "sint ?i < int (length steps)" if "settled cr step" for step
  proof -
    show less: "sint ?i < int (length steps)"
      using that steps by (auto simp: settled_def current_step_def Let_def split: if_splits)
    then show "sint (?i + 1) = sint ?i + 1" using steps(2) by (intro sint32_Suc) simp
  qed
  from step show ?thesis
  proof cases
    case (step_shift st t msg)
    then have "Weight st \<in> Weight ` set steps" using current_step_in steps(1) by blast
    then show ?thesis using step_shift i by (simp add: well_formed_at_def)
  next
    case (step_advance st cr1 t0 t msg)
    then show ?thesis using next_i [OF step_advance(3)] i w steps(1) by (simp add: well_formed_at_def)
  next
    case (step_promote st cr1 t0 t msg)
    then show ?thesis using next_i [OF step_promote(3)] i w steps(1) by (simp add: well_formed_at_def)
  next
    case (step_observe st t0)
    then show ?thesis using wf analysed_well_formed by blast
  next
    case (step_wait st cr1 t0 msg)
    then show ?thesis using wf analysed_well_formed by simp
  qed (use i w running steps(1) in \<open>simp_all add: well_formed_at_def\<close>)
qed

lemma later_well_formed:
  assumes "later ok E cr cr'" "well_formed steps cr" "ok (Spec cr)" "\<And>sp. ok sp \<Longrightarrow> Steps sp = steps"
    "length steps < 2 ^ 31"
  shows "well_formed steps cr'"
  using assms
proof (induction rule: later.induct)
  case (later_cycle cr1 ns n w g cr2)
  then show ?case
    using later_spec [OF later_cycle.hyps(1)] by (metis cycle_step_well_formed later_cycle_step)
qed simp_all

section \<open>The properties\<close>

definition demo_fresh :: canary_rollout where
  "demo_fresh = demo_rollout demo_spec (demo_status\<lparr>Phase := ''''\<rparr>)"

lemma demo_start:
  "cycle_writes cluster_env ''default'' ''demo'' (demo_cluster demo_fresh 5) no_gauges demo_fresh
     (with_status PhaseRunning 0 0 5 ''Rollout started'' demo_fresh)"
  by (simp add: demo_write_eval demo_fresh_def)

lemma demo_fresh_fresh: "fresh demo_fresh" "length (Steps (Spec demo_fresh)) < 2 ^ 31"
  by (simp_all add: fresh_def demo_fresh_def demo_rollout_def demo_status_def demo_spec_def)



text \<open>
  C10: \<open>Aborted\<close> is final: no later cycle and no edit of the specification changes the status of
  an aborted rollout.
\<close>

theorem aborted_is_final:
  assumes "later ok E cr cr'" "Phase (Status cr) = PhaseAborted"
  shows "Status cr' = Status cr"
  using assms
proof (induction rule: later.induct)
  case (later_cycle cr1 ns n w g cr2)
  then show ?case by (metis cycle_step_aborted later_cycle_step)
qed simp_all

theorem aborted_is_final_witness:
  "Status (demo_aborting\<lparr>Status := demo_status\<lparr>Phase := PhaseAborted\<rparr>, Spec := demo_spec, ResourceVersion := ''9''\<rparr>)
     = demo_status\<lparr>Phase := PhaseAborted\<rparr>"
proof -
  let ?cr = "demo_aborting\<lparr>Status := demo_status\<lparr>Phase := PhaseAborted\<rparr>\<rparr>"
  have "later (\<lambda>sp. True) cluster_env ?cr (?cr\<lparr>Spec := demo_spec, ResourceVersion := ''9''\<rparr>)"
    by (rule later_edit [OF later_refl]) simp
  from aborted_is_final [OF this] show ?thesis by simp
qed

lemma cycle_step_monotone:
  assumes step: "cycle_step V clk cr split cr'" and wf: "well_formed (Steps (Spec cr)) cr"
    and started: "Phase (Status cr) \<notin> {'''', PhasePending}" and len: "length (Steps (Spec cr)) < 2 ^ 31"
  shows "sint (CurrentStep (Status cr)) \<le> sint (CurrentStep (Status cr'))"
proof (cases "CurrentStep (Status cr') = CurrentStep (Status cr)")
  case False
  from cycle_step_next [OF step False started] obtain st where
    n: "CurrentStep (Status cr') = CurrentStep (Status cr) + 1" "settled cr st" by blast
  then have "sint (CurrentStep (Status cr)) < int (length (Steps (Spec cr)))"
    by (auto simp: settled_def current_step_def Let_def split: if_splits)
  then show ?thesis using len sint32_Suc [of "CurrentStep (Status cr)"] n(1) by simp
qed simp

text \<open>
  C11: a started rollout never goes back a step, with the steps fixed and whatever else the user
  edits.
\<close>

theorem steps_never_go_back:
  assumes "later (\<lambda>sp. Steps sp = steps) E cr cr'" "Steps (Spec cr) = steps" "length steps < 2 ^ 31"
    and "well_formed steps cr" "Phase (Status cr) \<notin> {'''', PhasePending}"
  shows "sint (CurrentStep (Status cr)) \<le> sint (CurrentStep (Status cr')) \<and>
    Phase (Status cr') \<notin> {'''', PhasePending}"
  using assms
proof (induction rule: later.induct)
  case (later_cycle cr1 ns n w g cr2)
  obtain V clk split where st: "cycle_step V clk cr1 split cr2" using later_cycle.hyps(2) by (rule later_cycle_step)
  have eq: "Steps (Spec cr1) = steps"
    using later_spec [OF later_cycle.hyps(1)] later_cycle.prems(1) by simp
  have wf: "well_formed steps cr1"
    by (rule later_well_formed [OF later_cycle.hyps(1)]) (use later_cycle.prems in simp_all)
  have ih: "sint (CurrentStep (Status cr)) \<le> sint (CurrentStep (Status cr1))"
    "Phase (Status cr1) \<notin> {'''', PhasePending}" using later_cycle by simp_all
  show ?case
    using cycle_step_monotone [OF st] cycle_step_started [OF st ih(2)] ih eq wf later_cycle.prems(2) by simp
qed simp_all

theorem steps_never_go_back_witness:
  "sint (CurrentStep (Status (demo_at 0 20))) \<le>
   sint (CurrentStep (Status (with_status PhaseRunning 1 20 31000000000 ''Advancing to step 1'' (demo_at 0 20))))"
proof -
  have "well_formed (Steps demo_spec) (demo_at 0 20)"
    by (simp add: well_formed_def well_formed_at_def demo_at_def demo_rollout_def demo_status_def demo_spec_def)
  moreover have "Steps (Spec (demo_at 0 20)) = Steps demo_spec" "length (Steps demo_spec) < 2 ^ 31"
    "Phase (Status (demo_at 0 20)) \<notin> {'''', PhasePending}"
    by (simp_all add: demo_at_def demo_rollout_def demo_spec_def demo_status_def)
  ultimately show ?thesis
    using steps_never_go_back [OF later_cycle [OF later_refl demo_advance [unfolded demo_write_def]]] by blast
qed

definition unserved :: "rollout_spec \<Rightarrow> bool" where
  "unserved sp \<longleftrightarrow> Analysis sp \<noteq> None \<and> PrometheusURL sp = '''' \<and> Steps sp \<noteq> [] \<and>
     list_all (\<lambda>st. 0 < sint (PauseSeconds st)) (Steps sp)"

lemma unserved_step:
  assumes "cycle_step V clk cr split cr'" "unserved (Spec cr)" "CurrentStep (Status cr) = 0"
    "AnalysisState (Status cr) = []" "Phase (Status cr) \<noteq> PhasePromoted"
  shows "CurrentStep (Status cr') = 0 \<and> AnalysisState (Status cr') = [] \<and> Phase (Status cr') \<noteq> PhasePromoted"
proof -
  have an: "cr1 = cr" if "analysed V cr cr1" for cr1
    using that assms(2) by (simp add: analysed_def analysis_enabled_def unserved_def)
  have gate: "\<not> gate_open st cr" if "settled cr st" for st
    using that assms(2,4) current_step_in [of cr st]
    by (auto simp: gate_open_def settled_def unserved_def list_all_iff all_promote_def)
  have dis: "\<not> analysis_enabled cr" using assms(2) by (simp add: analysis_enabled_def unserved_def)
  from assms(1) show ?thesis
    by cases (use assms(2-5) an gate dis in \<open>auto simp: with_status_def with_message_def unserved_def\<close>)
qed

text \<open>
  C20: an analysis without a Prometheus URL is not skipped: when the specification has an
  analysis, no URL, and a pause at every step, the gate before the next step waits for a
  decision nobody can make, and a fresh rollout never leaves its first step.
\<close>

theorem analysis_without_url_never_advances:
  assumes "later unserved E cr cr'" "unserved (Spec cr)" "fresh cr"
  shows "CurrentStep (Status cr') = 0 \<and> AnalysisState (Status cr') = [] \<and> Phase (Status cr') \<noteq> PhasePromoted"
  using assms
proof (induction rule: later.induct)
  case (later_cycle cr1 ns n w g cr2)
  then show ?case
    using later_spec [OF later_cycle.hyps(1)] by (metis unserved_step later_cycle_step)
qed (simp_all add: fresh_def)

theorem analysis_without_url_never_advances_witness:
  "Phase (Status (with_status PhaseRunning 0 0 5 ''Rollout started''
     (demo_fresh\<lparr>Spec := demo_spec\<lparr>Analysis := Some demo_analysis, Steps := [\<lparr>Weight = 20, PauseSeconds = 30\<rparr>]\<rparr>\<rparr>)))
   \<noteq> PhasePromoted"
proof -
  let ?cr = "demo_fresh\<lparr>Spec := demo_spec\<lparr>Analysis := Some demo_analysis, Steps := [\<lparr>Weight = 20, PauseSeconds = 30\<rparr>]\<rparr>\<rparr>"
  have w: "cycle_writes cluster_env ''default'' ''demo'' (demo_cluster ?cr 5) no_gauges ?cr
      (with_status PhaseRunning 0 0 5 ''Rollout started'' ?cr)"
    by (simp add: demo_write_eval demo_fresh_def)
  have u: "unserved (Spec ?cr)" by (simp add: unserved_def demo_spec_def)
  have f: "fresh ?cr" using demo_fresh_fresh(1) by (simp add: fresh_def)
  show ?thesis using analysis_without_url_never_advances [OF later_cycle [OF later_refl w] u f] by blast
qed

end
