(* ===== verification/Tracing.thy ===== *)
theory Tracing
  imports Reconciler_Calls
begin

text \<open>
  Recording the calls does not change a run: forgetting the record of a traced run gives the
  run itself, with the same result. So what is proved of the calls of \<open>traced E\<close> holds for \<open>E\<close>.
\<close>

definition untraced :: "('w \<times> event list) sys \<Rightarrow> 'w sys" where
  "untraced s = \<lparr>world = fst (world s), gauges_of = gauges_of s\<rparr>"

definition forget :: "'a \<times> ('w \<times> event list) sys \<Rightarrow> 'a \<times> 'w sys" where
  "forget r = (fst r, untraced (snd r))"

lemma forget_pair [simp]: "forget (a, s) = (a, untraced s)"
  by (simp add: forget_def)

lemma gauge_update_untraced: "gauge_update f (untraced s) = untraced (gauge_update f s)"
  by (simp add: untraced_def gauge_update_def)

lemma call_untraced: "call f (untraced s) = forget (call (log_call ev f) s)"
  by (simp add: call_def log_call_def untraced_def split: prod.splits)

lemma time_Now_untraced: "call (time_Now E) (untraced s) = forget (call (time_Now (traced E)) s)"
  by (simp add: call_def traced_def untraced_def split: prod.splits)

lemma calls_untraced:
  "call (get_rollout E ns n) (untraced s) = forget (call (get_rollout (traced E) ns n) s)"
  "call (update_status E cr) (untraced s) = forget (call (update_status (traced E) cr) s)"
  "call (get_vs E ns n) (untraced s) = forget (call (get_vs (traced E) ns n) s)"
  "call (update_vs E v) (untraced s) = forget (call (update_vs (traced E) v) s)"
  "call (get_deployment E ns n) (untraced s) = forget (call (get_deployment (traced E) ns n) s)"
  "call (list_pods E ns ls) (untraced s) = forget (call (list_pods (traced E) ns ls) s)"
  "call (prom_query E u q t) (untraced s) = forget (call (prom_query (traced E) u q t) s)"
  unfolding traced_sel by (rule call_untraced)+

named_theorems trace "runs that do not depend on the recording"

declare calls_untraced [trace] time_Now_untraced [trace] gauge_update_untraced [trace]

lemma queryScalar_untraced [trace]:
  "queryScalar E url q (untraced s) = forget (queryScalar (traced E) url q s)"
  by (simp add: queryScalar_def trace split_def Let_def del: traced_sel) (simp add: forget_def trace del: traced_sel)

lemmas trace_pairs = split_def Let_def forget_def

lemma sprt_publish_untraced [trace]:
  "sprt_publish ns ro r (untraced s) = forget (sprt_publish ns ro r s)"
  by (auto simp: sprt_publish_def trace split: prod.split metric_out.split bool.split)

lemma sprt_metric_untraced [trace]:
  "sprt_metric E url ns ro upper lower cur m (untraced s) =
     forget (sprt_metric (traced E) url ns ro upper lower cur m s)"
  by (simp add: sprt_metric_def trace trace_pairs split: sum.split option.split)

lemma sprt_loop_untraced [trace]:
  "sprt_loop E url ns ro upper lower cur ms upd (untraced s) =
     forget (sprt_loop (traced E) url ns ro upper lower cur ms upd s)"
proof (induction ms arbitrary: upd s)
  case (Cons m ms)
  obtain r s1 where "sprt_metric (traced E) url ns ro upper lower cur m s = (r, s1)" by fastforce
  then show ?case by (cases r) (simp_all add: sprt_metric_untraced Cons.IH)
qed simp

lemma RunSPRT_untraced [trace]:
  "RunSPRT E url ns ro a cur (untraced s) = forget (RunSPRT (traced E) url ns ro a cur s)"
  by (auto simp: RunSPRT_def trace Let_def split: option.split prod.split loop_out.split)

lemma isCanaryReady_untraced [trace]:
  "isCanaryReady E ns d (untraced s) = forget (isCanaryReady (traced E) ns d s)"
  by (simp add: isCanaryReady_def trace trace_pairs del: traced_sel split: sum.split option.split)

lemma SetVirtualServiceWeights_untraced [trace]:
  "SetVirtualServiceWeights E ns n sh sw ch cw (untraced s) =
     forget (SetVirtualServiceWeights (traced E) ns n sh sw ch cw s)"
  by (simp add: SetVirtualServiceWeights_def trace trace_pairs del: traced_sel split: sum.split option.split)

lemma set_weights_untraced [trace]:
  "set_weights E cr sw cw (untraced s) = forget (set_weights (traced E) cr sw cw s)"
  by (simp add: set_weights_def trace)

lemma setStatus_untraced [trace]:
  "setStatus E cr phase step weight msg (untraced s) = forget (setStatus (traced E) cr phase step weight msg s)"
  by (simp add: setStatus_def trace trace_pairs del: traced_sel)

lemma return_status_untraced [trace]:
  "return_status E cr d phase step weight msg (untraced s) =
     forget (return_status (traced E) cr d phase step weight msg s)"
  by (simp add: return_status_def trace trace_pairs)

lemma return_update_untraced [trace]:
  "return_update E cr d (untraced s) = forget (return_update (traced E) cr d s)"
  by (simp add: return_update_def trace trace_pairs del: traced_sel split: option.split)

lemma reconcile_timer_untraced [trace]:
  "reconcile_timer E cr i p e d (untraced s) = forget (reconcile_timer (traced E) cr i p e d s)"
  by (auto simp: reconcile_timer_def reconcile_gate_def reconcile_advance_def trace Let_def)

lemma reconcile_analysis_untraced [trace]:
  "reconcile_analysis E cr i p e (untraced s) = forget (reconcile_analysis (traced E) cr i p e s)"
  by (auto simp: reconcile_analysis_def trace Let_def split: option.split bool.split prod.split sum.split)

lemma reconcile_step_untraced [trace]:
  "reconcile_step E cr i step (untraced s) = forget (reconcile_step (traced E) cr i step s)"
  by (simp add: reconcile_step_def trace trace_pairs del: traced_sel split: option.split)

lemma reconcile_not_ready_untraced [trace]:
  "reconcile_not_ready E cr (untraced s) = forget (reconcile_not_ready (traced E) cr s)"
  by (simp add: reconcile_not_ready_def trace trace_pairs del: traced_sel)

lemma reconcile_running_untraced [trace]:
  "reconcile_running E cr (untraced s) = forget (reconcile_running (traced E) cr s)"
  by (auto simp: reconcile_running_def trace Let_def split: prod.split outcome.split sum.split bool.split)

lemma reconcile_abort_untraced [trace]:
  "reconcile_abort E cr (untraced s) = forget (reconcile_abort (traced E) cr s)"
  by (simp add: reconcile_abort_def trace trace_pairs split: option.split)

lemma reconcile_rollout_untraced [trace]:
  "reconcile_rollout E cr (untraced s) = forget (reconcile_rollout (traced E) cr s)"
  by (simp add: reconcile_rollout_def trace Let_def)

text \<open>
  The recording is an observer: a reconcile cycle in the environment that records its calls
  returns the same result, leaves the same world and the same gauges as in the environment
  itself. So the properties of \<open>cycle_events\<close> are properties of the running controller.
\<close>

lemma recording_changes_nothing:
  "Reconcile E ns n \<lparr>world = w, gauges_of = g\<rparr> =
     forget (Reconcile (traced E) ns n \<lparr>world = (w, es), gauges_of = g\<rparr>)"
proof -
  have "Reconcile E ns n (untraced s) = forget (Reconcile (traced E) ns n s)" for s
    by (simp add: Reconcile_def trace trace_pairs del: traced_sel split: sum.split)
  from this [of "\<lparr>world = (w, es), gauges_of = g\<rparr>"] show ?thesis by (simp add: untraced_def)
qed

end
