(* ===== verification/Statctl_Args.thy ===== *)
theory Statctl_Args
  imports GoStd "HOL-Library.Sublist" "HOL-Library.Multiset"
begin

text \<open>
  The command line of \<open>statctl\<close>: \<open>splitArgs\<close> (\<open>cmd/statctl/main.go\<close>) separates flags from
  positional arguments, and \<open>parse\<close> (\<open>cmd/statctl/client.go\<close>) hands the flags to Go's \<open>flag\<close>
  package, whose parser for flags with a value is modelled here.
\<close>

section \<open>Separating flags from positional arguments\<close>

definition flag_like :: "string \<Rightarrow> bool" where
  "flag_like a \<longleftrightarrow> prefix ''-'' a \<and> a \<noteq> ''-''"

fun split_loop :: "string list \<Rightarrow> string list \<Rightarrow> string list \<Rightarrow> string list \<times> string list" where
  "split_loop [] flags positional = (flags, positional)"
| "split_loop (a # rest) flags positional =
     (if flag_like a
      then (if CHR ''='' \<in> set a then split_loop rest (flags @ [a]) positional
            else (case rest of
                    [] \<Rightarrow> (flags @ [a], positional)
                  | v # rest' \<Rightarrow>
                      if \<not> prefix ''-'' v \<or> v = ''-''
                      then split_loop rest' (flags @ [a, v]) positional
                      else split_loop rest (flags @ [a]) positional))
      else split_loop rest flags (positional @ [a]))"

definition splitArgs :: "string list \<Rightarrow> string list \<times> string list" where
  "splitArgs args = split_loop args [] []"

section \<open>Go's flag package\<close>

text \<open>The variables the flags of the subcommands set; \<open>n\<close> and \<open>namespace\<close> share one, \<open>f\<close> and \<open>file\<close> too.\<close>

record cli_flags =
  namespace :: string
  kubeconfig :: string
  manifest_file :: string

definition registerCommon :: cli_flags where
  "registerCommon = \<lparr> namespace = ''default'', kubeconfig = '''', manifest_file = '''' \<rparr>"

definition common_names :: "string list" where
  "common_names = [''n'', ''namespace'', ''kubeconfig'']"

definition set_flag :: "string \<Rightarrow> string \<Rightarrow> cli_flags \<Rightarrow> cli_flags" where
  "set_flag name v cf =
     (if name = ''n'' \<or> name = ''namespace'' then cf\<lparr>namespace := v\<rparr>
      else if name = ''kubeconfig'' then cf\<lparr>kubeconfig := v\<rparr>
      else if name = ''f'' \<or> name = ''file'' then cf\<lparr>manifest_file := v\<rparr> else cf)"

text \<open>One or two dashes are dropped; the value may follow the first \<open>=\<close> after the name's first letter.\<close>

definition flag_name :: "string \<Rightarrow> string" where
  "flag_name s = (if prefix ''--'' s then drop 2 s else drop 1 s)"

definition split_value :: "string \<Rightarrow> string \<times> string option" where
  "split_value s =
     (let name = takeWhile (\<lambda>c. c \<noteq> CHR ''='') s
      in if length name < length s then (name, Some (drop (length name + 1) s)) else (name, None))"

text \<open>
  \<open>set\<close> is \<open>flag.Value.Set\<close> of the flag set's variables; a string variable takes every value.
  Of a failed \<open>Parse\<close> the error is returned; what the package itself prints is left out.
\<close>

definition string_flags :: "string \<Rightarrow> string \<Rightarrow> cli_flags \<Rightarrow> go_error + cli_flags" where
  "string_flags name v cf = Inr (set_flag name v cf)"

fun flag_parse ::
    "(string \<Rightarrow> string \<Rightarrow> 'f \<Rightarrow> go_error + 'f) \<Rightarrow> string list \<Rightarrow> string list \<Rightarrow> 'f \<Rightarrow> go_error + 'f" where
  "flag_parse setf names [] cf = Inr cf"
| "flag_parse setf names (s # args) cf =
     (if length s < 2 \<or> \<not> prefix ''-'' s then Inr cf
      else if s = ''--'' then Inr cf
      else
        let body = flag_name s in
        if body = '''' \<or> prefix ''-'' body \<or> prefix ''='' body
        then Inl (PlainError (''bad flag syntax: '' @ s))
        else
          let (name, value) = split_value body in
          if name \<notin> set names
          then (if name = ''help'' \<or> name = ''h'' then Inl (PlainError ''flag: help requested'')
                else Inl (PlainError (''flag provided but not defined: -'' @ name)))
          else
            (case value of
               Some v \<Rightarrow>
                 (case setf name v cf of
                    Inl err \<Rightarrow> Inl (Wrapped (''invalid value '' @ fmt_q v @ '' for flag -'' @ name) err)
                  | Inr cf' \<Rightarrow> flag_parse setf names args cf')
             | None \<Rightarrow>
                 (case args of
                    [] \<Rightarrow> Inl (PlainError (''flag needs an argument: -'' @ name))
                  | v # args' \<Rightarrow>
                      (case setf name v cf of
                         Inl err \<Rightarrow> Inl (Wrapped (''invalid value '' @ fmt_q v @ '' for flag -'' @ name) err)
                       | Inr cf' \<Rightarrow> flag_parse setf names args' cf'))))"

definition parse ::
    "(string \<Rightarrow> string \<Rightarrow> 'f \<Rightarrow> go_error + 'f) \<Rightarrow> string list \<Rightarrow> string list \<Rightarrow> 'f \<Rightarrow> go_error + 'f \<times> string list" where
  "parse setf names args cf =
     (let (flagArgs, positional) = splitArgs args in
      case flag_parse setf names flagArgs cf of
        Inl err \<Rightarrow> Inl err
      | Inr cf' \<Rightarrow> Inr (cf', positional))"

section \<open>Properties\<close>

definition splits :: "string list \<Rightarrow> string list \<Rightarrow> string list \<Rightarrow> bool" where
  "splits args f p \<longleftrightarrow> subseq f args \<and> subseq p args \<and> mset f + mset p = mset args \<and>
     list_all (\<lambda>a. \<not> flag_like a) p"

lemma splits_Nil: "splits [] [] []"
  by (simp add: splits_def)

lemma splits_flag: "splits args f p \<Longrightarrow> splits (a # args) (a # f) p"
  by (auto simp: splits_def intro: list_emb_Cons)

lemma splits_positional: "splits args f p \<Longrightarrow> \<not> flag_like a \<Longrightarrow> splits (a # args) f (a # p)"
  by (auto simp: splits_def intro: list_emb_Cons)

lemma split_loop_spec:
  "\<exists>f p. split_loop args fs ps = (fs @ f, ps @ p) \<and> splits args f p"
proof (induction args arbitrary: fs ps rule: measure_induct_rule [of length])
  case (less args)
  show ?case
  proof (cases args)
    case Nil
    then show ?thesis using splits_Nil by force
  next
    case (Cons a rest)
    have go: "\<exists>f p. split_loop rest fs ps = (fs @ f, ps @ p) \<and> splits rest f p" for fs ps
      using less [of rest] Cons by simp
    show ?thesis
    proof (cases "flag_like a")
      case False
      obtain f p where "split_loop rest fs (ps @ [a]) = (fs @ f, (ps @ [a]) @ p)" "splits rest f p"
        using go by blast
      then show ?thesis
        using splits_positional False unfolding Cons by (intro exI [of _ f] exI [of _ "a # p"]) simp
    next
      case True
      obtain f p where fp: "split_loop rest (fs @ [a]) ps = ((fs @ [a]) @ f, ps @ p)" "splits rest f p"
        using go by blast
      show ?thesis
      proof (cases "\<exists>v rest'. rest = v # rest' \<and> CHR ''='' \<notin> set a \<and> (\<not> prefix ''-'' v \<or> v = ''-'')")
        case val: True
        then obtain v rest' where v: "rest = v # rest'" "CHR ''='' \<notin> set a" "\<not> prefix ''-'' v \<or> v = ''-''"
          by blast
        obtain f p where "split_loop rest' (fs @ [a, v]) ps = ((fs @ [a, v]) @ f, ps @ p)" "splits rest' f p"
          using less [of rest'] Cons v by fastforce
        then show ?thesis
          using True v splits_flag unfolding Cons by (intro exI [of _ "a # v # f"] exI [of _ p]) auto
      next
        case False
        then have "split_loop args fs ps = split_loop rest (fs @ [a]) ps"
          using True unfolding Cons by (cases rest) auto
        then show ?thesis
          using fp splits_flag unfolding Cons by (intro exI [of _ "a # f"] exI [of _ p]) simp
      qed
    qed
  qed
qed

text \<open>
  \<open>splitArgs\<close> loses and reorders nothing: every argument ends up in exactly one of the two
  lists, each keeps the order of the command line, and no positional argument looks like a flag
  (a single dash, for standard input, does not).
\<close>

lemma splitArgs_partition:
  "case splitArgs args of (flags, positional) \<Rightarrow>
     mset flags + mset positional = mset args \<and> subseq flags args \<and> subseq positional args \<and>
     list_all (\<lambda>a. \<not> flag_like a) positional"
  using split_loop_spec [of args "[]" "[]"] by (auto simp: splitArgs_def splits_def)

section \<open>Well-formed command lines\<close>

text \<open>
  The words of a command line: an option with its value in the next word or after \<open>=\<close>, with one
  or two dashes, and a positional argument.
\<close>

datatype word_group =
    Opt bool string string
  | OptEq bool string string
  | Positional string

definition dashes :: "bool \<Rightarrow> string" where
  "dashes long = (if long then ''--'' else ''-'')"

fun tokens :: "word_group \<Rightarrow> string list" where
  "tokens (Opt long name v) = [dashes long @ name, v]"
| "tokens (OptEq long name v) = [dashes long @ name @ ''='' @ v]"
| "tokens (Positional a) = [a]"

definition option_name :: "string list \<Rightarrow> string \<Rightarrow> bool" where
  "option_name names name \<longleftrightarrow>
     name \<in> set names \<and> name \<noteq> '''' \<and> \<not> prefix ''-'' name \<and> CHR ''='' \<notin> set name"

fun word_ok :: "string list \<Rightarrow> word_group \<Rightarrow> bool" where
  "word_ok names (Opt long name v) \<longleftrightarrow> option_name names name \<and> (\<not> prefix ''-'' v \<or> v = ''-'')"
| "word_ok names (OptEq long name v) \<longleftrightarrow> option_name names name"
| "word_ok names (Positional a) \<longleftrightarrow> \<not> flag_like a"

fun option_tokens :: "word_group \<Rightarrow> string list" where
  "option_tokens (Positional a) = []"
| "option_tokens g = tokens g"

fun positional_of :: "word_group \<Rightarrow> string list" where
  "positional_of (Positional a) = [a]"
| "positional_of g = []"

fun set_option :: "word_group \<Rightarrow> cli_flags \<Rightarrow> cli_flags" where
  "set_option (Opt long name v) cf = set_flag name v cf"
| "set_option (OptEq long name v) cf = set_flag name v cf"
| "set_option (Positional a) cf = cf"

lemma flag_like_dashes: "name \<noteq> '''' \<Longrightarrow> flag_like (dashes long @ name @ rest)"
  by (simp add: flag_like_def dashes_def)

lemma split_loop_words:
  "list_all (word_ok names) gs \<Longrightarrow>
   split_loop (concat (map tokens gs)) fs ps =
     (fs @ concat (map option_tokens gs), ps @ concat (map positional_of gs))"
proof (induction gs arbitrary: fs ps)
  case (Cons g gs)
  have ih: "split_loop (concat (map tokens gs)) fs ps =
      (fs @ concat (map option_tokens gs), ps @ concat (map positional_of gs))" for fs ps
    using Cons by simp
  show ?case
  proof (cases g)
    case (Opt long name v)
    then have "flag_like (dashes long @ name)" "CHR ''='' \<notin> set (dashes long @ name)"
      using Cons.prems flag_like_dashes [of name long "[]"] by (auto simp: option_name_def dashes_def)
    then show ?thesis using Cons.prems Opt ih by simp
  next
    case (OptEq long name v)
    then have "flag_like (dashes long @ name @ ''='' @ v)"
      using Cons.prems by (intro flag_like_dashes) (simp add: option_name_def)
    then show ?thesis using OptEq ih by simp
  next
    case (Positional a)
    then show ?thesis using Cons.prems ih by simp
  qed
qed simp

lemma takeWhile_name:
  assumes "CHR ''='' \<notin> set name"
  shows "takeWhile (\<lambda>c. c \<noteq> CHR ''='') name = name"
    "takeWhile (\<lambda>c. c \<noteq> CHR ''='') (name @ CHR ''='' # v) = name"
  using assms by (induction name) auto

lemma split_value_plain:
  assumes "CHR ''='' \<notin> set name"
  shows "split_value name = (name, None)"
  unfolding split_value_def takeWhile_name(1) [OF assms] by simp

lemma split_value_eq:
  assumes "CHR ''='' \<notin> set name"
  shows "split_value (name @ CHR ''='' # v) = (name, Some v)"
  unfolding split_value_def takeWhile_name(2) [OF assms] by simp

lemma option_name_cases:
  assumes "option_name names name"
  obtains c cs where "name = c # cs" "c \<noteq> CHR ''-''" "c \<noteq> CHR ''=''"
  using assms by (cases name) (auto simp: option_name_def)

lemma flag_name_dashes:
  assumes "option_name names name"
  shows "flag_name (dashes long @ name @ rest) = name @ rest"
  using assms by (elim option_name_cases) (simp add: flag_name_def dashes_def)

lemma flag_parse_option:
  assumes n: "option_name names name"
  shows "flag_parse string_flags names ((dashes long @ name) # v # args) cf = flag_parse string_flags names args (set_flag name v cf)"
    "flag_parse string_flags names ((dashes long @ name @ CHR ''='' # v) # args) cf = flag_parse string_flags names args (set_flag name v cf)"
proof -
  have s: "CHR ''='' \<notin> set name" "name \<in> set names" using n by (simp_all add: option_name_def)
  have fn: "flag_name (dashes long @ name) = name"
    "flag_name (dashes long @ name @ CHR ''='' # v) = name @ CHR ''='' # v"
    using flag_name_dashes [OF n, of long] by (metis append_Nil2)+
  obtain c cs where c: "name = c # cs" "c \<noteq> CHR ''-''" "c \<noteq> CHR ''=''" using n by (rule option_name_cases)
  have d: "\<not> length (dashes long @ name @ r) < 2" "prefix ''-'' (dashes long @ name @ r)"
    "dashes long @ name @ r \<noteq> ''--''" for r
    using c by (simp_all add: dashes_def)
  have ne: "dashes long \<noteq> []" by (simp add: dashes_def)
  show "flag_parse string_flags names ((dashes long @ name) # v # args) cf = flag_parse string_flags names args (set_flag name v cf)"
    using d [of "[]"] fn(1) split_value_plain [OF s(1)] s(2) c ne by (simp add: Let_def string_flags_def)
  show "flag_parse string_flags names ((dashes long @ name @ CHR ''='' # v) # args) cf = flag_parse string_flags names args (set_flag name v cf)"
    using d [of "CHR ''='' # v"] fn(2) split_value_eq [OF s(1)] s(2) c ne by (simp add: Let_def string_flags_def)
qed

lemma flag_parse_words:
  "list_all (word_ok names) gs \<Longrightarrow>
   flag_parse string_flags names (concat (map option_tokens gs)) cf = Inr (fold set_option gs cf)"
proof (induction gs arbitrary: cf)
  case (Cons g gs)
  then show ?case by (cases g) (simp_all add: flag_parse_option del: flag_parse.simps(2))
qed simp

text \<open>
  C25: a command line means the same wherever its flags stand: for any sequence of options
  (\<open>-name value\<close>, \<open>--name value\<close>, \<open>-name=value\<close> or \<open>--name=value\<close>, the names being the
  subcommand's, a value in a word of its own not starting with a dash unless it is a single one)
  and positional arguments, \<open>parse\<close> sets the options' variables in the order of the command line
  and returns the positional arguments in theirs.
\<close>

theorem parse_words:
  assumes "list_all (word_ok names) gs"
  shows "parse string_flags names (concat (map tokens gs)) cf = Inr (fold set_option gs cf, concat (map positional_of gs))"
  using assms by (simp add: parse_def splitArgs_def split_loop_words flag_parse_words)

theorem parse_words_witness:
  "parse string_flags (common_names @ [''f'', ''file'']) [''-f'', ''-'', ''demo'', ''--namespace=prod''] registerCommon =
     Inr (\<lparr>namespace = ''prod'', kubeconfig = '''', manifest_file = ''-''\<rparr>, [''demo''])"
  using parse_words [of "common_names @ [''f'', ''file'']"
      "[Opt False ''f'' ''-'', Positional ''demo'', OptEq True ''namespace'' ''prod'']" registerCommon]
  by (simp add: option_name_def common_names_def flag_like_def dashes_def registerCommon_def set_flag_def)

end
