(* ===== verification/Statctl_Render.thy ===== *)
theory Statctl_Render
  imports Types
begin

text \<open>
  The dashboard of \<open>statctl\<close> (\<open>cmd/statctl/render.go\<close>). The text written to the \<open>io.Writer\<close> is
  the returned string, in bytes; characters outside ASCII are spelt out in UTF-8. The clock time
  of \<open>now.Format\<close> depends on the time zone and is an argument, and so is \<open>math.Log\<close>.
\<close>

section \<open>Bytes and runes\<close>

definition bytes :: "int list \<Rightarrow> string" where
  "bytes bs = map char_of bs"

definition cont_byte :: "char \<Rightarrow> bool" where
  "cont_byte c \<longleftrightarrow> (of_char c :: int) div 64 = 2"

text \<open>
  \<open>[]rune(s)\<close>, each rune as its bytes. It is Go's conversion for valid UTF-8, which strings
  decoded from JSON are.
\<close>

function runes :: "string \<Rightarrow> string list" where
  "runes [] = []"
| "runes (c # cs) = (c # takeWhile cont_byte cs) # runes (dropWhile cont_byte cs)"
  by pat_completeness auto
termination
  by (relation "measure length") (auto simp: length_dropWhile_le less_Suc_eq_le)

definition pad_right :: "nat \<Rightarrow> string \<Rightarrow> string" where
  "pad_right n s = s @ replicate (n - length (runes s)) CHR '' ''"

definition pad_left :: "nat \<Rightarrow> string \<Rightarrow> string" where
  "pad_left n s = replicate (n - length (runes s)) CHR '' '' @ s"

definition newline :: string where "newline = bytes [10]"

definition em_dash :: string where "em_dash = bytes [0xE2, 0x80, 0x94]"
definition ellipsis :: string where "ellipsis = bytes [0xE2, 0x80, 0xA6]"
definition check_mark :: string where "check_mark = bytes [0xE2, 0x9C, 0x94]"
definition cross_mark :: string where "cross_mark = bytes [0xE2, 0x9C, 0x97]"
definition play_mark :: string where "play_mark = bytes [0xE2, 0x96, 0xB6]"
definition left_arrow :: string where "left_arrow = bytes [0xE2, 0x86, 0x90]"
definition right_arrow :: string where "right_arrow = bytes [0xE2, 0x86, 0x92]"
definition line_rune :: string where "line_rune = bytes [0xE2, 0x94, 0x80]"
definition cross_rune :: string where "cross_rune = bytes [0xE2, 0x94, 0xBC]"
definition edge_rune :: string where "edge_rune = bytes [0xE2, 0x94, 0x82]"
definition dot_rune :: string where "dot_rune = bytes [0xE2, 0x97, 0x8F]"
definition Alpha_sym :: string where "Alpha_sym = bytes [0xCE, 0xB1]"
definition Beta_sym :: string where "Beta_sym = bytes [0xCE, 0xB2]"
definition Lambda_sym :: string where "Lambda_sym = bytes [0xCE, 0x9B]"
definition Delta_sym :: string where "Delta_sym = bytes [0xCE, 0x94]"

definition hrule :: string where
  "hrule = concat (replicate 80 line_rune)"

section \<open>Durations and truncation\<close>

definition humanDuration :: "duration \<Rightarrow> string" where
  "humanDuration d0 =
     (let d = (if sint d0 < 0 then 0 else d0);
          int_of = (\<lambda>x. sint (int64_of_f64 x))
      in if sint d < 60000000000 then fmt_d (int_of (dur_Seconds d)) @ ''s''
         else if sint d < 3600000000000
         then fmt_d (int_of (dur_Minutes d)) @ ''m'' @ fmt_d (int_of (dur_Seconds d) mod 60) @ ''s''
         else if sint d < 24 * 3600000000000
         then fmt_d (int_of (dur_Hours d)) @ ''h'' @ fmt_d (int_of (dur_Minutes d) mod 60) @ ''m''
         else fmt_d (int_of (f64_div (dur_Hours d) (f64_of_int 24))) @ ''d'')"

definition trim_right :: "string \<Rightarrow> string" where
  "trim_right s = rev (dropWhile (\<lambda>c. c = CHR '' '') (rev s))"

definition truncate_text :: "string \<Rightarrow> int \<Rightarrow> string" where
  "truncate_text s limit =
     (if limit \<le> 0 then ''''
      else if int (length (runes s)) \<le> limit then s
      else if limit < 2 then concat (take (nat limit) (runes s))
      else trim_right (concat (take (nat (limit - 1)) (runes s))) @ ellipsis)"

section \<open>The bar\<close>

definition half :: float64 where "half = f64_lit 1 2"

definition llr_pos :: "float64 \<Rightarrow> float64 \<Rightarrow> float64 \<Rightarrow> int" where
  "llr_pos v lo hi =
     (let c1 = (if f64_lt v lo then lo else v);
          c2 = (if f64_lt hi c1 then hi else c1);
          frac = (if f64_lt lo hi then f64_div (f64_sub c2 lo) (f64_sub hi lo) else f64_0);
          p = sint (int64_of_f64 (f64_add (f64_mul frac (f64_of_int 49)) half));
          p1 = (if p < 0 then 0 else p)
      in if 49 < p1 then 49 else p1)"

definition llr_zero :: "float64 \<Rightarrow> float64 \<Rightarrow> int" where
  "llr_zero lo hi =
     (if f64_lt lo f64_0 \<and> f64_lt f64_0 hi
      then sint (int64_of_f64 (f64_add (f64_mul (f64_div (f64_neg lo) (f64_sub hi lo)) (f64_of_int 49)) half))
      else - 1)"

definition llr_cells :: "float64 \<Rightarrow> float64 \<Rightarrow> float64 \<Rightarrow> string list" where
  "llr_cells v lo hi =
     (let zero = llr_zero lo hi;
          bar0 = replicate 50 line_rune;
          bar1 = (if 0 \<le> zero \<and> zero < 50 then bar0[nat zero := cross_rune] else bar0)
      in bar1[0 := edge_rune, 49 := edge_rune, nat (llr_pos v lo hi) := dot_rune])"

definition llrBar :: "float64 \<Rightarrow> float64 \<Rightarrow> float64 \<Rightarrow> string" where
  "llrBar v lo hi = ''  promote B '' @ concat (llr_cells v lo hi) @ '' A rollback''"

section \<open>The dashboard\<close>

definition decisionBadge :: "string \<Rightarrow> string" where
  "decisionBadge d =
     (if d = ''promote'' then check_mark @ '' promote''
      else if d = ''rollback'' then cross_mark @ '' rollback''
      else ellipsis @ '' pending'')"

definition fmt_t :: "bool \<Rightarrow> string" where
  "fmt_t b = (if b then ''true'' else ''false'')"

definition terminal_phase :: "rollout_phase \<Rightarrow> bool" where
  "terminal_phase p \<longleftrightarrow> p = PhasePromoted \<or> p = PhaseAborted \<or> p = PhaseFailed"

definition step_marker :: "rollout_phase \<Rightarrow> int \<Rightarrow> int \<Rightarrow> string" where
  "step_marker phase cur i =
     (if phase = PhasePromoted then ''['' @ check_mark @ '']''
      else if terminal_phase phase then
        (if i < cur then ''['' @ check_mark @ '']''
         else if i = cur then ''['' @ cross_mark @ '']'' else ''[ ]'')
      else if i < cur then ''['' @ check_mark @ '']''
      else if i = cur then ''['' @ play_mark @ '']''
      else ''[ ]'')"

definition render_step :: "rollout_phase \<Rightarrow> int \<Rightarrow> int \<Rightarrow> canary_step \<Rightarrow> string" where
  "render_step phase cur i s =
     ''  '' @ step_marker phase cur i @ '' step '' @ fmt_d i @ ''   weight='' @
     pad_left 3 (fmt_d (sint (Weight s))) @ ''%   pause='' @ fmt_d (sint (PauseSeconds s)) @ ''s'' @
     (if \<not> terminal_phase phase \<and> i = cur then ''   '' @ left_arrow @ '' current'' else '''') @ newline"

fun render_steps_from :: "rollout_phase \<Rightarrow> int \<Rightarrow> int \<Rightarrow> canary_step list \<Rightarrow> string" where
  "render_steps_from phase cur i [] = ''''"
| "render_steps_from phase cur i (s # ss) =
     render_step phase cur i s @ render_steps_from phase cur (i + 1) ss"

definition renderSteps :: "canary_rollout \<Rightarrow> string" where
  "renderSteps cr =
     ''Steps:'' @ newline @
     render_steps_from (Phase (Status cr)) (sint (CurrentStep (Status cr))) 0 (Steps (Spec cr))"

text \<open>\<open>stateByName\<close>: the last state with a name wins.\<close>

definition state_by_name :: "sprt_metric_state list \<Rightarrow> string \<Rightarrow> sprt_metric_state option" where
  "state_by_name sts = fold (\<lambda>s m. m(state_Name s \<mapsto> s)) sts Map.empty"

definition percent :: "float64 \<Rightarrow> string" where
  "percent x = fmt_f False 2 (f64_mul x (f64_of_int 100)) @ ''%''"

definition render_metric_state ::
    "float64 \<Rightarrow> float64 \<Rightarrow> sprt_metric \<Rightarrow> sprt_metric_state \<Rightarrow> string" where
  "render_metric_state lower upper m s =
     (let obsRate = (if 0 < sint (Observations s)
                     then f64_div (f64_of_int64 (Failures s)) (f64_of_int64 (Observations s)) else f64_0);
          p = f64_add (BaselineRate s) (Delta m);
          p1 = (if f64_lt (f64_of_int 1) p then f64_of_int 1 else p)
      in ''  '' @ Lambda_sym @ '' (log-likelihood):    '' @ fmt_f True 4 (LogLikelihood s) @ newline @
         ''  '' @ llrBar (LogLikelihood s) lower upper @ newline @
         ''  boundaries:            B='' @ fmt_f True 4 lower @ ''  (promote)    A='' @ fmt_f True 4 upper @
         ''  (rollback)'' @ newline @
         ''  baseline p0 (stable):  '' @ fmt_f False 4 (BaselineRate s) @ ''  ('' @ percent (BaselineRate s) @
         '')'' @ newline @
         ''  alternative p1=p0+'' @ Delta_sym @ '':   '' @ fmt_f False 4 p1 @ ''  ('' @ Delta_sym @ ''='' @
         fmt_f False 4 (Delta m) @ '')'' @ newline @
         ''  canary observed:       '' @ fmt_d (sint (Observations s)) @ '' requests, '' @
         fmt_d (sint (Failures s)) @ '' failures ('' @ percent obsRate @ '')'' @ newline @ newline)"

definition render_metric ::
    "float64 \<Rightarrow> float64 \<Rightarrow> (string \<Rightarrow> sprt_metric_state option) \<Rightarrow> sprt_metric \<Rightarrow> string" where
  "render_metric lower upper states m =
     (let st = states (metric_Name m);
          decision = (case st of
                        None \<Rightarrow> ''pending''
                      | Some s \<Rightarrow> if Decision s \<noteq> '''' then Decision s else ''pending'')
      in ''Metric: '' @ pad_right 24 (metric_Name m) @ ''  decision: '' @ decisionBadge decision @ newline @
         (case st of
            None \<Rightarrow> ''  (no observations yet '' @ em_dash @ '' SPRT runs during pause windows)'' @ newline @ newline
          | Some s \<Rightarrow> render_metric_state lower upper m s))"

definition renderSPRT :: "(float64 \<Rightarrow> float64) \<Rightarrow> sprt_analysis \<Rightarrow> canary_rollout \<Rightarrow> string" where
  "renderSPRT lg a cr =
     (let upper = lg (f64_div (f64_sub (f64_of_int 1) (Beta a)) (Alpha a));
          lower = lg (f64_div (Beta a) (f64_sub (f64_of_int 1) (Alpha a)));
          interval = (if 0 < sint (AnalysisIntervalSeconds a) then AnalysisIntervalSeconds a else 10);
          promURL = (if PrometheusURL (Spec cr) = '''' then ''(not set '' @ em_dash @ '' SPRT disabled)''
                     else PrometheusURL (Spec cr))
      in ''SPRT configuration:'' @ newline @
         ''  '' @ Alpha_sym @ '' (false rollback)  = '' @ pad_right 10 (fmt_f False 4 (Alpha a)) @
         ''  A (reject H0)  = '' @ fmt_f True 4 upper @ newline @
         ''  '' @ Beta_sym @ '' (missed failure)  = '' @ pad_right 10 (fmt_f False 4 (Beta a)) @
         ''  B (accept H0)  = '' @ fmt_f True 4 lower @ newline @
         ''  analysis interval   = '' @ fmt_d (sint interval) @ ''s'' @ newline @
         ''  Prometheus          = '' @ promURL @ newline @ newline @
         concat (map (render_metric lower upper (state_by_name (AnalysisState (Status cr)))) (Metrics a)))"

definition renderRollout ::
    "(float64 \<Rightarrow> float64) \<Rightarrow> (gotime \<Rightarrow> string) \<Rightarrow> canary_rollout \<Rightarrow> gotime \<Rightarrow> string" where
  "renderRollout lg clock_text cr now =
     (let ns = (if Namespace cr = '''' then ''default'' else Namespace cr);
          phase = (if Phase (Status cr) = '''' then em_dash else Phase (Status cr));
          step = (if Steps (Spec cr) = [] then em_dash
                  else fmt_d (sint (int64_of_int32 (CurrentStep (Status cr)) + 1)) @ '' / '' @
                    fmt_d (int (length (Steps (Spec cr)))));
          lastChange = (if time_IsZero (LastTransitionTime (Status cr)) then em_dash
                        else humanDuration (time_Sub now (LastTransitionTime (Status cr))) @ '' ago'')
      in ''StatGate canary rollout  '' @ ns @ ''/'' @ Name cr @ ''    (as of '' @ clock_text now @ '')'' @ newline @
         hrule @ newline @
         ''  Phase        : '' @ pad_right 22 phase @ ''  Step        : '' @ step @ newline @
         ''  Weight       : '' @ pad_right 22 (fmt_d (sint (CurrentWeight (Status cr))) @ ''%'') @
         ''  Paused      : '' @ fmt_t (Paused (Spec cr)) @ newline @
         ''  Abort        : '' @ pad_right 22 (fmt_t (Abort (Spec cr))) @ ''  Last change : '' @ lastChange @ newline @
         ''  Target       : '' @ pad_right 22 (TargetRef (Spec cr)) @ ''  VS          : '' @
         VirtualServiceRef (Spec cr) @ newline @
         (if Message (Status cr) \<noteq> '''' then ''  Message      : '' @ Message (Status cr) @ newline else '''') @
         newline @
         (case Analysis (Spec cr) of
            Some a \<Rightarrow> renderSPRT lg a cr
          | None \<Rightarrow> ''SPRT analysis: not configured'' @ newline @ newline) @
         renderSteps cr)"

end
