(* ===== verification/Statctl_Commands.thy ===== *)
theory Statctl_Commands
  imports Statctl_Args Statctl_Render
begin

text \<open>
  The subcommands of \<open>statctl\<close> (\<open>cmd/statctl/commands.go\<close>, \<open>client.go\<close>) that read or change the
  stored rollouts. A command returns its error and what it printed. The Kubernetes client, the
  YAML decoder, the files and the environment are the record \<open>cli\<close> of functions over a world;
  a client is known by the kubeconfig it was built from.
\<close>

section \<open>The environment of a command\<close>

record 'w cli =
  Getenv :: "'w \<Rightarrow> string \<Rightarrow> string"
  home_config :: "'w \<Rightarrow> string option"
  file_exists :: "'w \<Rightarrow> string \<Rightarrow> bool"
  BuildConfigFromFlags :: "string \<Rightarrow> 'w \<Rightarrow> go_error option \<times> 'w"
  AddToScheme :: "go_error option"
  client_New :: "string \<Rightarrow> 'w \<Rightarrow> go_error option \<times> 'w"
  cli_get :: "string \<Rightarrow> string \<Rightarrow> string \<Rightarrow> 'w \<Rightarrow> (go_error + canary_rollout) \<times> 'w"
  cli_list :: "string \<Rightarrow> string \<Rightarrow> 'w \<Rightarrow> (go_error + canary_rollout list) \<times> 'w"
  cli_create :: "string \<Rightarrow> canary_rollout \<Rightarrow> 'w \<Rightarrow> go_error option \<times> 'w"
  cli_update :: "string \<Rightarrow> canary_rollout \<Rightarrow> 'w \<Rightarrow> go_error option \<times> 'w"
  cli_delete :: "string \<Rightarrow> string \<Rightarrow> string \<Rightarrow> 'w \<Rightarrow> go_error option \<times> 'w"
  read_all :: "string \<Rightarrow> 'w \<Rightarrow> (go_error + string) \<times> 'w"
  unmarshal :: "string \<Rightarrow> go_error + canary_rollout"
  cli_now :: "'w \<Rightarrow> gotime \<times> 'w"
  cli_Log :: "float64 \<Rightarrow> float64"
  clock_text :: "gotime \<Rightarrow> string"

type_synonym 'w command = "string list \<Rightarrow> 'w \<Rightarrow> (go_error option \<times> string) \<times> 'w"

text \<open>The candidate \<open>~/.kube/config\<close> is the home directory's, when there is one.\<close>

definition newClient :: "'w cli \<Rightarrow> string \<Rightarrow> 'w \<Rightarrow> (go_error + string) \<times> 'w" where
  "newClient C path w =
     (let p1 = (if path = '''' then Getenv C w ''KUBECONFIG'' else path);
          p2 = (if p1 = '''' then
                  (case home_config C w of
                     Some candidate \<Rightarrow> if file_exists C w candidate then candidate else p1
                   | None \<Rightarrow> p1)
                else p1);
          (cfgErr, w1) = BuildConfigFromFlags C p2 w
      in case cfgErr of
           Some err \<Rightarrow> (Inl (Wrapped ''load kubeconfig'' err), w1)
         | None \<Rightarrow>
             (case AddToScheme C of
                Some err \<Rightarrow> (Inl (Wrapped ''register scheme'' err), w1)
              | None \<Rightarrow>
                  (case client_New C p2 w1 of
                     (Some err, w2) \<Rightarrow> (Inl (Wrapped ''create client'' err), w2)
                   | (None, w2) \<Rightarrow> (Inr p2, w2))))"

definition fails :: "go_error \<Rightarrow> 'w \<Rightarrow> (go_error option \<times> string) \<times> 'w" where
  "fails err w = ((Some err, ''''), w)"

definition prints :: "string \<Rightarrow> 'w \<Rightarrow> (go_error option \<times> string) \<times> 'w" where
  "prints out w = ((None, out), w)"

text \<open>The start every subcommand on one rollout shares: flags, name, client.\<close>

definition with_named ::
    "'w cli \<Rightarrow> string \<Rightarrow> (string \<Rightarrow> string \<Rightarrow> string \<Rightarrow> 'w \<Rightarrow> (go_error option \<times> string) \<times> 'w) \<Rightarrow> 'w command" where
  "with_named C verb body args w =
     (case parse string_flags common_names args registerCommon of
        Inl err \<Rightarrow> fails err w
      | Inr (cf, []) \<Rightarrow> fails (PlainError (verb @ '': <name> required'')) w
      | Inr (cf, name # rest) \<Rightarrow>
          (case newClient C (kubeconfig cf) w of
             (Inl err, w1) \<Rightarrow> fails err w1
           | (Inr cl, w1) \<Rightarrow> body cl (namespace cf) name w1))"

section \<open>Changing a rollout\<close>

definition patchRollout ::
    "'w cli \<Rightarrow> string \<Rightarrow> string \<Rightarrow> (canary_rollout \<Rightarrow> canary_rollout) \<Rightarrow> 'w command" where
  "patchRollout C verb pastTense mutate =
     with_named C verb (\<lambda>cl ns name w.
       case cli_get C cl ns name w of
         (Inl err, w1) \<Rightarrow> fails err w1
       | (Inr cr, w1) \<Rightarrow>
           (case cli_update C cl (mutate cr) w1 of
              (Some err, w2) \<Rightarrow> fails (Wrapped ''update'' err) w2
            | (None, w2) \<Rightarrow>
                prints (''canaryrollout/'' @ Name (mutate cr) @ '' '' @ pastTense @ newline) w2))"

definition set_paused :: "canary_rollout \<Rightarrow> canary_rollout" where
  "set_paused cr = cr\<lparr>Spec := (Spec cr)\<lparr>Paused := True\<rparr>\<rparr>"

definition set_resumed :: "canary_rollout \<Rightarrow> canary_rollout" where
  "set_resumed cr = cr\<lparr>Spec := (Spec cr)\<lparr>Paused := False, Abort := False\<rparr>\<rparr>"

definition set_aborted :: "canary_rollout \<Rightarrow> canary_rollout" where
  "set_aborted cr = cr\<lparr>Spec := (Spec cr)\<lparr>Abort := True\<rparr>\<rparr>"

definition cmdPause :: "'w cli \<Rightarrow> 'w command" where
  "cmdPause C = patchRollout C ''pause'' ''paused'' set_paused"

definition cmdResume :: "'w cli \<Rightarrow> 'w command" where
  "cmdResume C = patchRollout C ''resume'' ''resumed'' set_resumed"

definition cmdAbort :: "'w cli \<Rightarrow> 'w command" where
  "cmdAbort C = patchRollout C ''abort'' (''aborted '' @ em_dash @ '' rolling back to stable'') set_aborted"

definition cmdDelete :: "'w cli \<Rightarrow> 'w command" where
  "cmdDelete C =
     with_named C ''delete'' (\<lambda>cl ns name w.
       case cli_delete C cl ns name w of
         (Some err, w1) \<Rightarrow> fails err w1
       | (None, w1) \<Rightarrow> prints (''canaryrollout/'' @ name @ '' deleted'' @ newline) w1)"

section \<open>Reading\<close>

definition cmdGet :: "'w cli \<Rightarrow> 'w command" where
  "cmdGet C =
     with_named C ''get'' (\<lambda>cl ns name w.
       case cli_get C cl ns name w of
         (Inl err, w1) \<Rightarrow> fails err w1
       | (Inr cr, w1) \<Rightarrow>
           (let (now, w2) = cli_now C w1 in prints (renderRollout (cli_Log C) (clock_text C) cr now) w2))"

definition list_header :: string where
  "list_header =
     pad_right 28 ''NAME'' @ '' '' @ pad_right 10 ''PHASE'' @ '' '' @ pad_right 8 ''WEIGHT'' @ '' '' @
     pad_right 8 ''STEP'' @ '' '' @ pad_right 12 ''AGE'' @ '' '' @ ''MESSAGE'' @ newline"

definition list_row :: "canary_rollout \<Rightarrow> gotime \<Rightarrow> string" where
  "list_row cr now =
     (let age = humanDuration (time_Sub now (CreationTimestamp cr));
          step = fmt_d (sint (int64_of_int32 (CurrentStep (Status cr)) + 1)) @ ''/'' @
                 fmt_d (int (length (Steps (Spec cr))));
          phase = (if Phase (Status cr) = '''' then ''-'' else Phase (Status cr))
      in pad_right 28 (Name cr) @ '' '' @ pad_right 10 phase @ '' '' @
         pad_right 8 (fmt_d (sint (CurrentWeight (Status cr))) @ ''%'') @ '' '' @ pad_right 8 step @ '' '' @
         pad_right 12 age @ '' '' @ truncate_text (Message (Status cr)) 60 @ newline)"

fun list_rows :: "'w cli \<Rightarrow> canary_rollout list \<Rightarrow> 'w \<Rightarrow> string \<times> 'w" where
  "list_rows C [] w = ('''', w)"
| "list_rows C (cr # crs) w =
     (let (now, w1) = cli_now C w; (out, w2) = list_rows C crs w1 in (list_row cr now @ out, w2))"

definition cmdList :: "'w cli \<Rightarrow> 'w command" where
  "cmdList C args w =
     (case parse string_flags common_names args registerCommon of
        Inl err \<Rightarrow> fails err w
      | Inr (cf, positional) \<Rightarrow>
          (case newClient C (kubeconfig cf) w of
             (Inl err, w1) \<Rightarrow> fails err w1
           | (Inr cl, w1) \<Rightarrow>
               (case cli_list C cl (namespace cf) w1 of
                  (Inl err, w2) \<Rightarrow> fails err w2
                | (Inr [], w2) \<Rightarrow> prints (''no canary rollouts in namespace '' @ fmt_q (namespace cf) @ newline) w2
                | (Inr crs, w2) \<Rightarrow>
                    (let (rows, w3) = list_rows C crs w2 in prints (list_header @ rows) w3))))"

section \<open>Applying a manifest\<close>

definition check_manifest :: "cli_flags \<Rightarrow> canary_rollout \<Rightarrow> go_error + canary_rollout" where
  "check_manifest cf cr =
     (if Kind cr \<noteq> '''' \<and> Kind cr \<noteq> ''CanaryRollout''
      then Inl (PlainError (''apply: expected kind CanaryRollout, got '' @ fmt_q (Kind cr)))
      else if Name cr = '''' then Inl (PlainError ''apply: metadata.name is required'')
      else Inr (if Namespace cr = '''' then cr\<lparr>Namespace := namespace cf\<rparr> else cr))"

definition apply_rollout :: "'w cli \<Rightarrow> string \<Rightarrow> canary_rollout \<Rightarrow> 'w \<Rightarrow> (go_error option \<times> string) \<times> 'w" where
  "apply_rollout C cl cr w =
     (case cli_get C cl (Namespace cr) (Name cr) w of
        (Inl getErr, w1) \<Rightarrow>
          if is_not_found getErr
          then (case cli_create C cl cr w1 of
                  (Some err, w2) \<Rightarrow> fails (Wrapped ''create'' err) w2
                | (None, w2) \<Rightarrow> prints (''canaryrollout/'' @ Name cr @ '' created in namespace '' @
                                  Namespace cr @ newline) w2)
          else fails getErr w1
      | (Inr existing, w1) \<Rightarrow>
          (case cli_update C cl (existing\<lparr>Spec := Spec cr\<rparr>) w1 of
             (Some err, w2) \<Rightarrow> fails (Wrapped ''update'' err) w2
           | (None, w2) \<Rightarrow> prints (''canaryrollout/'' @ Name cr @ '' configured in namespace '' @
                             Namespace cr @ newline) w2))"

definition cmdApply :: "'w cli \<Rightarrow> 'w command" where
  "cmdApply C args w =
     (case parse string_flags (common_names @ [''f'', ''file'']) args registerCommon of
        Inl err \<Rightarrow> fails err w
      | Inr (cf, positional) \<Rightarrow>
          if manifest_file cf = '''' then fails (PlainError ''apply: -f <file> required'') w
          else
            (case read_all C (manifest_file cf) w of
               (Inl err, w1) \<Rightarrow> fails (Wrapped (''read '' @ manifest_file cf) err) w1
             | (Inr data, w1) \<Rightarrow>
                 (case unmarshal C data of
                    Inl err \<Rightarrow> fails (Wrapped (''parse '' @ manifest_file cf) err) w1
                  | Inr cr0 \<Rightarrow>
                      (case check_manifest cf cr0 of
                         Inl err \<Rightarrow> fails err w1
                       | Inr cr \<Rightarrow>
                           (case newClient C (kubeconfig cf) w1 of
                              (Inl err, w2) \<Rightarrow> fails err w2
                            | (Inr cl, w2) \<Rightarrow> apply_rollout C cl cr w2)))))"

end
