(* ===== verification/Durations.thy ===== *)
theory Durations
  imports GoStd Float64_Bounds
begin

text \<open>
  Go's \<open>Duration.Seconds\<close>, \<open>Minutes\<close> and \<open>Hours\<close> in binary64: for durations that are not negative
  they are monotone, and their integer parts are those of exact integer division.
\<close>

text \<open>The integer part of a number that is not negative.\<close>

lemma f64_trunc_floor:
  assumes x: "f64_num x" and v: "real_of_int q \<le> fval x" "fval x < real_of_int q + 1" "0 \<le> q"
  shows "f64_trunc x = Some q"
proof -
  obtain s m e where f: "x = F64_Fin s m e" "0 \<le> m" using x by (rule f64_numE)
  have sgn: "signed_int s m = m"
  proof (cases s)
    case True
    have "0 \<le> fval x" using v by linarith
    then have "m * 1 \<le> 0" using True f by (auto simp: rsign_def mult_le_0_iff)
    then show ?thesis using f(2) by (simp add: signed_int_def)
  qed (simp add: signed_int_def)
  have val: "fval x = real_of_int m * pow2 e" using fval_signed [of s m e] sgn f(1) by simp
  show ?thesis
  proof (cases "0 \<le> e")
    case True
    have "fval x = real_of_int (m * 2 ^ nat e)" using val True by simp
    then have "m * 2 ^ nat e = q" using v by linarith
    then show ?thesis using True sgn by (simp add: f(1) signed_int_def split: if_splits)
  next
    case False
    have "fval x = real_of_int m / real_of_int (2 ^ nat (- e))"
      using val False by (simp add: pow2_uminus [of "- e", simplified])
    then have "\<lfloor>real_of_int m / real_of_int (2 ^ nat (- e))\<rfloor> = q" using v by (intro floor_unique) simp_all
    then have "m div 2 ^ nat (- e) = q" unfolding floor_divide_of_int_eq .
    then show ?thesis using False sgn f(2) by (cases s) (auto simp: f(1) signed_int_def)
  qed
qed

lemma int_num:
  assumes "0 \<le> n" "n \<le> 2 ^ k" "k \<le> 53"
  shows "f64_num (f64_of_int n)" "fval (f64_of_int n) = real_of_int n"
proof -
  have "(2 :: int) ^ k \<le> 2 ^ 53" using assms(3) by (intro power_increasing) simp_all
  then have "\<bar>n\<bar> \<le> 2 ^ 53" using assms(1,2) by linarith
  then show "f64_num (f64_of_int n)" "fval (f64_of_int n) = real_of_int n" using fval_of_int by blast+
qed

text \<open>\<open>below k\<close> is the largest multiple of \<open>2^-k\<close> below 1.\<close>

definition below :: "nat \<Rightarrow> real" where
  "below k = real_of_int (2 ^ k - 1) * pow2 (- int k)"

lemma below_eq: "below k = 1 - 1 / 2 ^ k"
  by (simp add: below_def pow2_uminus pow2_nat diff_divide_distrib)

lemma fround_below: "k \<le> 53 \<Longrightarrow> fround (real_of_int q + below k) = real_of_int q + below k"
  if "0 \<le> q" "q + 1 \<le> 2 ^ (53 - k)"
proof -
  assume k: "k \<le> 53"
  let ?m = "(q + 1) * 2 ^ k - 1"
  have eq: "real_of_int q + below k = real_of_int ?m * pow2 (- int k)"
    by (simp add: below_eq pow2_uminus pow2_nat field_simps)
  have "1 * 1 \<le> (q + 1) * (2 :: int) ^ k" using that(1) by (intro mult_mono) simp_all
  moreover have "(q + 1) * (2 :: int) ^ k \<le> 2 ^ (53 - k) * 2 ^ k" using that by (intro mult_right_mono) simp_all
  moreover have "(2 :: int) ^ (53 - k) * 2 ^ k = 2 ^ 53" using k by (simp add: power_add [symmetric])
  ultimately have "\<bar>?m\<bar> \<le> 2 ^ 53" by linarith
  moreover have "- 1074 \<le> - int k" using k by simp
  ultimately show ?thesis unfolding eq by (rule fround_exact)
qed

lemma fraction_num:
  assumes r: "0 \<le> r" "r < u" and u: "u \<le> 2 ^ k" "k \<le> 52"
  shows "f64_num (f64_div (f64_of_int r) (f64_of_int u))"
    "0 \<le> fval (f64_div (f64_of_int r) (f64_of_int u))" "fval (f64_div (f64_of_int r) (f64_of_int u)) \<le> below k"
proof -
  have k: "k \<le> 53" using u(2) by simp
  have ri: "real_of_int r \<le> real_of_int u - 1" using r(2) by linarith
  have ui: "real_of_int u \<le> 2 ^ k" using u(1) by (metis of_int_le_iff of_int_numeral of_int_power)
  have pos: "0 < real_of_int u" using r by linarith
  note nr = int_num [OF r(1) _ k] and nu = int_num [OF _ u(1) k]
  have "real_of_int r / real_of_int u \<le> (real_of_int u - 1) / real_of_int u"
    using pos by (intro divide_right_mono [OF ri]) simp
  also have "\<dots> = 1 - 1 / real_of_int u" using pos by (simp add: diff_divide_distrib)
  also have "\<dots> \<le> 1 - 1 / 2 ^ k" using pos by (intro diff_left_mono divide_left_mono [OF ui]) simp_all
  finally have top: "real_of_int r / real_of_int u \<le> below k" by (simp add: below_eq)
  have nn: "0 \<le> real_of_int r / real_of_int u" using r pos by simp
  have "below k \<le> 1" by (simp add: below_eq)
  then have le1: "real_of_int r / real_of_int u \<le> pow2 0" using top by simp
  have "represents (f64_div (f64_of_int r) (f64_of_int u)) (real_of_int r / real_of_int u)"
    using f64_div_represents [OF nr(1) nu(1)] nr(2) nu(2) r u by simp
  note d = represents_between [OF this nn le1]
  show "f64_num (f64_div (f64_of_int r) (f64_of_int u))" using d by simp
  have "fround (below k) = below k" using fround_below [of 0 k] k by simp
  then show "0 \<le> fval (f64_div (f64_of_int r) (f64_of_int u))"
      "fval (f64_div (f64_of_int r) (f64_of_int u)) \<le> below k"
    using d fround_sign(1) [OF nn] fround_mono [OF top] by simp_all
qed

lemma sum_num:
  assumes q: "0 \<le> q" "q + 1 \<le> 2 ^ (53 - k)" "k \<le> 52" and x: "f64_num x" "0 \<le> fval x" "fval x \<le> below k"
  shows "f64_trunc (f64_add (f64_of_int q) x) = Some q"
proof -
  have qk: "q \<le> 2 ^ (53 - k)" using q(2) by simp
  note nq = int_num [OF q(1) qk diff_le_self]
  have qr: "fround (real_of_int q) = real_of_int q" using fround_exact [of q 0] qk q(1)
    power_increasing [of "53 - k" 53 "2 :: int"] by simp
  have "represents (f64_add (f64_of_int q) x) (real_of_int q + fval x)"
    using f64_add_represents [OF nq(1) x(1)] nq(2) by simp
  moreover have "real_of_int q + 1 \<le> pow2 53"
  proof -
    have "q + 1 \<le> 2 ^ 53" using q(2) power_increasing [of "53 - k" 53 "2 :: int"] by simp
    then have "real_of_int (q + 1) \<le> real_of_int (2 ^ 53)" by (simp only: of_int_le_iff)
    then show ?thesis unfolding pow2_numeral by simp
  qed
  moreover have "below k < 1" by (simp add: below_eq)
  ultimately have s: "f64_num (f64_add (f64_of_int q) x)"
      "fval (f64_add (f64_of_int q) x) = fround (real_of_int q + fval x)"
    using represents_between [of _ "real_of_int q + fval x" 53] q(1) x(2,3) by simp_all
  have "real_of_int q \<le> fround (real_of_int q + fval x)"
    using fround_mono [of "real_of_int q" "real_of_int q + fval x"] qr x(2) by simp
  moreover have "fround (real_of_int q + fval x) \<le> real_of_int q + below k"
    using fround_mono [of "real_of_int q + fval x" "real_of_int q + below k"] fround_below [OF q(1,2)] q(3) x(3) by simp
  ultimately show ?thesis using f64_trunc_floor [OF s(1), of q] s(2) q(1) \<open>below k < 1\<close> by simp
qed

lemma dur_in_trunc:
  assumes d: "0 \<le> sint d" "sint d < 2 ^ (53 - k) * u" and u: "0 < u" "u \<le> 2 ^ k" "k \<le> 52"
  shows "sint (int64_of_f64 (dur_in u d)) = sint d div u"
proof -
  let ?q = "sint d div u" and ?r = "sint d mod u"
  have r: "0 \<le> ?r" "?r < u" using u(1) by simp_all
  have q0: "0 \<le> ?q" using d(1) u(1) by (simp add: pos_imp_zdiv_nonneg_iff)
  have "?q < 2 ^ (53 - k)"
  proof (rule ccontr)
    assume "\<not> ?q < 2 ^ (53 - k)"
    then have "2 ^ (53 - k) * u \<le> ?q * u" using u(1) by (intro mult_right_mono) simp_all
    moreover have "?q * u \<le> sint d" using div_mult_mod_eq [of "sint d" u] r(1) by linarith
    ultimately show False using d(2) by linarith
  qed
  then have q1: "?q + 1 \<le> 2 ^ (53 - k)" by simp
  have "dur_in u d = f64_add (f64_of_int ?q) (f64_div (f64_of_int ?r) (f64_of_int u))"
    using d(1) by (cases "sint d = 0") (simp_all add: dur_in_def Let_def)
  then have t: "f64_trunc (dur_in u d) = Some ?q"
    using sum_num [OF q0 q1 u(3) fraction_num [OF r u(2,3)]] by simp
  have "(2 :: int) ^ (53 - k) \<le> 2 ^ 53" by (intro power_increasing) simp_all
  then have "?q < 2 ^ 63" using q1 by simp
  then show ?thesis using q0 t by (simp add: int64_of_f64_def sint_i64)
qed

section \<open>Monotony\<close>

lemma dur_in_num:
  assumes d: "0 \<le> sint d" and u: "1024 \<le> u" "u \<le> 2 ^ 52"
  shows "f64_num (dur_in u d)"
    "fval (dur_in u d) = fround (real_of_int (sint d div u) + fround (real_of_int (sint d mod u) / real_of_int u))"
    "0 \<le> fval (dur_in u d)"
proof -
  let ?q = "sint d div u" and ?r = "sint d mod u"
  have q0: "0 \<le> ?q" using d u(1) by (simp add: pos_imp_zdiv_nonneg_iff)
  have "?q * u \<le> sint d" using div_mult_mod_eq [of "sint d" u] pos_mod_sign [of u "sint d"] u(1) by linarith
  moreover have "?q * 1024 \<le> ?q * u" using q0 u(1) by (intro mult_left_mono) simp_all
  ultimately have q1: "?q \<le> 2 ^ 53" using sint64_bounds(2) [of d] by simp
  have r: "0 \<le> ?r" "?r < u" using u(1) by simp_all
  have eq: "dur_in u d = f64_add (f64_of_int ?q) (f64_div (f64_of_int ?r) (f64_of_int u))"
    using d by (cases "sint d = 0") (simp_all add: dur_in_def Let_def)
  note nq = int_num [OF q0 q1 le_refl]
  note f = fraction_num [OF r u(2) le_refl]
  have ri: "real_of_int ?r / real_of_int u \<le> pow2 0" using r u(1) by (simp add: less_imp_le)
  have rn: "0 \<le> real_of_int ?r / real_of_int u" using r u(1) by simp
  have u53: "u \<le> 2 ^ 53" using u(2) by simp
  have r53: "?r \<le> 2 ^ 53" using r(2) u53 by linarith
  have u0: "0 \<le> u" using u(1) by simp
  note nr = int_num [OF r(1) r53 le_refl] and nu = int_num [OF u0 u53 le_refl]
  have "represents (f64_div (f64_of_int ?r) (f64_of_int u)) (real_of_int ?r / real_of_int u)"
    using f64_div_represents [OF nr(1) nu(1)] nr(2) nu(2) u(1) by simp
  then have fr: "fval (f64_div (f64_of_int ?r) (f64_of_int u)) = fround (real_of_int ?r / real_of_int u)"
    by (rule represents_between(2) [OF _ rn ri]) simp_all
  have "below 52 < 1" by (simp add: below_eq)
  moreover have "real_of_int ?q \<le> 2 ^ 53" using q1 by (metis of_int_le_iff of_int_numeral of_int_power)
  moreover have "pow2 54 = 2 ^ 54" by (rule pow2_numeral)
  ultimately have hi: "real_of_int ?q + fval (f64_div (f64_of_int ?r) (f64_of_int u)) \<le> pow2 54" using f(3) by simp
  have lo: "0 \<le> real_of_int ?q + fval (f64_div (f64_of_int ?r) (f64_of_int u))" using q0 f(2) by simp
  have rep: "represents (dur_in u d) (real_of_int ?q + fval (f64_div (f64_of_int ?r) (f64_of_int u)))"
    unfolding eq using f64_add_represents [OF nq(1) f(1)] nq(2) by simp
  note b = represents_between [OF rep lo hi]
  show "f64_num (dur_in u d)" using b by simp
  show "fval (dur_in u d) = fround (real_of_int ?q + fround (real_of_int ?r / real_of_int u))"
    using b fr by simp
  then show "0 \<le> fval (dur_in u d)" using fround_sign(1) [OF lo] fr by simp
qed

lemma dur_in_mono:
  assumes "0 \<le> sint d" "sint d \<le> sint d'" and u: "1024 \<le> u" "u \<le> 2 ^ 52"
  shows "fval (dur_in u d) \<le> fval (dur_in u d')"
proof -
  have d': "0 \<le> sint d'" using assms by simp
  have u0: "0 < u" using u(1) by simp
  have q: "sint d div u \<le> sint d' div u" by (rule zdiv_mono1 [OF assms(2) u0])
  have unit: "fround x \<le> 1" if "x \<le> 1" for x
    using fround_le_pow2 [of x 0] that by simp
  have nn: "0 \<le> fround (real_of_int (sint d' mod u) / real_of_int u)" using u0 by (intro fround_sign(1)) simp
  have "real_of_int (sint d div u) + fround (real_of_int (sint d mod u) / real_of_int u) \<le>
      real_of_int (sint d' div u) + fround (real_of_int (sint d' mod u) / real_of_int u)"
  proof (cases "sint d div u = sint d' div u")
    case True
    then have "sint d mod u \<le> sint d' mod u"
      using assms(2) minus_div_mult_eq_mod [of "sint d" u] minus_div_mult_eq_mod [of "sint d'" u] by simp
    then have "real_of_int (sint d mod u) / real_of_int u \<le> real_of_int (sint d' mod u) / real_of_int u"
      using u0 by (intro divide_right_mono) simp_all
    then show ?thesis using True fround_mono by simp
  next
    case False
    have "sint d mod u < u" using u0 by simp
    then have "real_of_int (sint d mod u) / real_of_int u \<le> 1" using u0 by (simp add: less_imp_le)
    then have "fround (real_of_int (sint d mod u) / real_of_int u) \<le> 1" by (rule unit)
    moreover have "sint d div u + 1 \<le> sint d' div u" using False q by simp
    ultimately show ?thesis using nn by linarith
  qed
  then show ?thesis
    unfolding dur_in_num(2) [OF assms(1) u] dur_in_num(2) [OF d' u] by (rule fround_mono)
qed

end
