(* ===== verification/Statctl_Props.thy ===== *)
theory Statctl_Props
  imports Statctl_Commands Durations
begin

text \<open>
  What the dashboard shows: durations by exact integer division, texts within their limit, and a
  bar that is always complete.
\<close>

section \<open>The bar\<close>

lemma llr_pos_range: "0 \<le> llr_pos v lo hi" "llr_pos v lo hi \<le> 49"
  by (auto simp: llr_pos_def Let_def)

text \<open>
  The bar is drawn without an index out of range whatever the three numbers are (infinite,
  NaN, boundaries in the wrong order): it has 50 cells, the dot is at a position between 0 and
  49, and the two edges are in place unless the dot is on them.
\<close>

lemma bar_is_complete:
  "length (llr_cells v lo hi) = 50 \<and> 0 \<le> llr_pos v lo hi \<and> llr_pos v lo hi \<le> 49 \<and>
   llr_cells v lo hi ! nat (llr_pos v lo hi) = dot_rune \<and>
   llr_cells v lo hi ! 0 = (if llr_pos v lo hi = 0 then dot_rune else edge_rune) \<and>
   llr_cells v lo hi ! 49 = (if llr_pos v lo hi = 49 then dot_rune else edge_rune)"
  using llr_pos_range [of v lo hi]
  by (auto simp: llr_cells_def Let_def nth_list_update nat_eq_iff nat_less_iff)

section \<open>Truncation\<close>

lemma runes_concat: "concat (runes s) = s"
  by (induction s rule: runes.induct) simp_all

lemma runes_rune: "r \<in> set (runes s) \<Longrightarrow> \<exists>c cs. r = c # cs \<and> list_all cont_byte cs"
  by (induction s rule: runes.induct) (auto simp: list_all_iff dest: set_takeWhileD)

lemma runes_dropWhile: "length (runes (dropWhile cont_byte t)) \<le> length (runes t)"
proof (cases t)
  case (Cons c cs)
  show ?thesis
  proof (cases "cont_byte c")
    case True
    then show ?thesis using Cons by simp
  qed (use Cons in simp)
qed simp

lemma runes_append:
  shows runes_length_le: "length (runes (s @ t)) \<le> length (runes s) + length (runes t)"
    and runes_length_prefix: "length (runes s) \<le> length (runes (s @ t))"
proof -
  have "length (runes (s @ t)) \<le> length (runes s) + length (runes t) \<and> length (runes s) \<le> length (runes (s @ t))"
  proof (induction s rule: runes.induct)
    case (2 c cs)
    show ?case
    proof (cases "list_all cont_byte cs")
      case True
      then have "dropWhile cont_byte cs = []" by (simp add: list_all_iff dropWhile_eq_Nil_conv)
      moreover have "dropWhile cont_byte (cs @ t) = dropWhile cont_byte t"
        using True by (simp add: list_all_iff dropWhile_append2)
      ultimately show ?thesis using runes_dropWhile [of t] by (simp del: dropWhile_eq_Nil_conv)
    next
      case False
      then obtain x where "x \<in> set cs" "\<not> cont_byte x" by (auto simp: list_all_iff)
      then show ?thesis using 2 by (simp add: dropWhile_append1)
    qed
  qed simp
  then show "length (runes (s @ t)) \<le> length (runes s) + length (runes t)"
    "length (runes s) \<le> length (runes (s @ t))" by simp_all
qed

lemma runes_single: "list_all cont_byte cs \<Longrightarrow> length (runes (c # cs)) = 1"
  by (simp add: list_all_iff dropWhile_eq_Nil_conv [THEN iffD2])

lemma runes_concat_le:
  "(\<And>r. r \<in> set rs \<Longrightarrow> \<exists>c cs. r = c # cs \<and> list_all cont_byte cs) \<Longrightarrow> length (runes (concat rs)) \<le> length rs"
proof (induction rs)
  case (Cons r rs)
  then obtain c cs where r: "r = c # cs" "list_all cont_byte cs" by (meson list.set_intros(1))
  have "length (runes (r @ concat rs)) \<le> length (runes r) + length (runes (concat rs))"
    by (rule runes_length_le)
  moreover have "length (runes r) = 1" unfolding r(1) by (rule runes_single [OF r(2)])
  ultimately show ?case using Cons by simp
qed simp

lemma runes_take: "length (runes (concat (take k (runes s)))) \<le> k"
proof -
  have "length (runes (concat (take k (runes s)))) \<le> length (take k (runes s))"
    by (rule runes_concat_le) (blast dest: in_set_takeD runes_rune)
  then show ?thesis by simp
qed

lemma trim_right_prefix: "\<exists>t. s = trim_right s @ t"
proof -
  have "rev s = takeWhile (\<lambda>c. c = CHR '' '') (rev s) @ dropWhile (\<lambda>c. c = CHR '' '') (rev s)" by simp
  then have "s = rev (dropWhile (\<lambda>c. c = CHR '' '') (rev s)) @ rev (takeWhile (\<lambda>c. c = CHR '' '') (rev s))"
    by (metis rev_append rev_rev_ident)
  then show ?thesis unfolding trim_right_def by blast
qed

lemma concat_take_prefix: "prefix (concat (take k (runes s))) s"
proof -
  have "concat (runes s) = concat (take k (runes s)) @ concat (drop k (runes s))"
    by (metis append_take_drop_id concat_append)
  then show ?thesis unfolding runes_concat by (rule prefixI)
qed

text \<open>
  A truncated text fits: it has at most as many characters (runes) as the limit, the
  ellipsis and the removal of trailing spaces included; a text that fits is shown as it is, and
  of any other a beginning is shown.
\<close>

lemma truncated_text_fits:
  "int (length (runes (truncate_text s n))) \<le> max 0 n \<and>
   (if n \<le> 0 then truncate_text s n = ''''
    else if int (length (runes s)) \<le> n then truncate_text s n = s
    else \<exists>p. prefix p s \<and> truncate_text s n = p @ (if n < 2 then '''' else ellipsis))"
proof -
  let ?s = "concat (take (nat (n - 1)) (runes s))"
  have e: "length (runes ellipsis) = 1" by code_simp
  obtain t where t: "?s = trim_right ?s @ t" using trim_right_prefix by blast
  then have "length (runes (trim_right ?s)) \<le> length (runes ?s)" using runes_length_prefix by metis
  also have "\<dots> \<le> nat (n - 1)" by (rule runes_take)
  finally have "length (runes (trim_right ?s @ ellipsis)) \<le> nat (n - 1) + 1"
    using runes_length_le [of "trim_right ?s" ellipsis] e by linarith
  moreover have "length (runes (concat (take (nat n) (runes s)))) \<le> nat n" by (rule runes_take)
  moreover have "prefix (trim_right ?s) s"
    using t concat_take_prefix [of "nat (n - 1)" s] by (metis prefixI prefix_order.order_trans)
  moreover have "prefix (concat (take (nat n) (runes s))) s" by (rule concat_take_prefix)
  ultimately show ?thesis by (auto simp: truncate_text_def)
qed

section \<open>Durations\<close>

text \<open>
  C31: below a day the durations of the dashboard, which the code computes with floating-point
  seconds, minutes and hours, are those of exact integer division: no rounding of \<open>Seconds()\<close>,
  \<open>Minutes()\<close> or \<open>Hours()\<close> ever moves the number shown to the next unit.
\<close>

theorem durations_are_exact:
  assumes "0 \<le> sint d" "sint d < 86400000000000"
  shows "humanDuration d =
    (let s = sint d div 1000000000; m = sint d div 60000000000; h = sint d div 3600000000000
     in if m = 0 then fmt_d s @ ''s''
        else if h = 0 then fmt_d m @ ''m'' @ fmt_d (s mod 60) @ ''s''
        else fmt_d h @ ''h'' @ fmt_d (m mod 60) @ ''m'')"
proof -
  have s: "sint (int64_of_f64 (dur_Seconds d)) = sint d div 1000000000"
    using dur_in_trunc [of d 30 1000000000] assms by (simp add: dur_Seconds_def)
  have m: "sint (int64_of_f64 (dur_Minutes d)) = sint d div 60000000000"
    using dur_in_trunc [of d 36 60000000000] assms by (simp add: dur_Minutes_def)
  have h: "sint (int64_of_f64 (dur_Hours d)) = sint d div 3600000000000"
    using dur_in_trunc [of d 42 3600000000000] assms by (simp add: dur_Hours_def)
  have "sint d div 60000000000 = 0 \<longleftrightarrow> sint d < 60000000000"
    "sint d div 3600000000000 = 0 \<longleftrightarrow> sint d < 3600000000000" using assms(1) by linarith+
  then show ?thesis using assms s m h by (simp add: humanDuration_def Let_def)
qed

theorem durations_are_exact_witness:
  "humanDuration (i64 3725999999999) = ''1h2m'' \<and> humanDuration (i64 59999999999) = ''59s''"
  using durations_are_exact [of "i64 3725999999999"] durations_are_exact [of "i64 59999999999"]
  by (simp add: Let_def sint_i64 fmt_d_def digits.simps char_of_eq_iff)

end
