(* ===== verification/Statctl_Main.thy ===== *)
theory Statctl_Main
  imports Statctl_Commands
begin

text \<open>
  The live dashboard (\<open>cmd/statctl/watch.go\<close>) and the dispatch of the subcommands
  (\<open>cmd/statctl/main.go\<close>). What the ticker and the cancelled context deliver to the loop is a
  list of events; the loop runs until the first \<open>Cancelled\<close>.
\<close>

section \<open>Numbers of flags: strconv.ParseInt(s, 0, 64)\<close>

definition lower :: "char \<Rightarrow> char" where
  "lower c = (let n = (of_char c :: int) in if 65 \<le> n \<and> n \<le> 90 then char_of (n + 32) else c)"

definition digit_value :: "char \<Rightarrow> int option" where
  "digit_value c =
     (let n = (of_char c :: int); l = (of_char (lower c) :: int)
      in if 48 \<le> n \<and> n \<le> 57 then Some (n - 48)
         else if 97 \<le> l \<and> l \<le> 122 then Some (l - 87) else None)"

definition parse_error :: go_error where "parse_error = PlainError ''parse error''"
definition range_error :: go_error where "range_error = PlainError ''value out of range''"

text \<open>Underscores may only stand between digits, or between the prefix and a digit.\<close>

fun underscores_ok :: "bool \<Rightarrow> char \<Rightarrow> string \<Rightarrow> bool" where
  "underscores_ok hex i [] \<longleftrightarrow> i \<noteq> CHR ''_''"
| "underscores_ok hex i (c # cs) \<longleftrightarrow>
     (let l = (of_char (lower c) :: int) in
      if 48 \<le> (of_char c :: int) \<and> (of_char c :: int) \<le> 57 \<or> hex \<and> 97 \<le> l \<and> l \<le> 102
      then underscores_ok hex CHR ''0'' cs
      else if c = CHR ''_'' then i = CHR ''0'' \<and> underscores_ok hex CHR ''_'' cs
      else i \<noteq> CHR ''_'' \<and> underscores_ok hex CHR ''!'' cs)"

definition underscoreOK :: "string \<Rightarrow> bool" where
  "underscoreOK s =
     (case s of
        z # p # rest \<Rightarrow>
          if z = CHR ''0'' \<and> lower p \<in> {CHR ''b'', CHR ''o'', CHR ''x''}
          then underscores_ok (lower p = CHR ''x'') CHR ''0'' rest
          else underscores_ok False CHR ''^'' s
      | _ \<Rightarrow> underscores_ok False CHR ''^'' s)"

fun uint_loop :: "int \<Rightarrow> int \<Rightarrow> string \<Rightarrow> go_error + int" where
  "uint_loop base n [] = Inr n"
| "uint_loop base n (c # cs) =
     (if c = CHR ''_'' then uint_loop base n cs
      else
        (case digit_value c of
           None \<Rightarrow> Inl parse_error
         | Some d \<Rightarrow>
             if base \<le> d then Inl parse_error
             else if 2 ^ 64 \<le> n * base + d then Inl range_error
             else uint_loop base (n * base + d) cs))"

definition ParseUint0 :: "string \<Rightarrow> go_error + int" where
  "ParseUint0 s =
     (let (base, ds) =
        (case s of
           z # p # d # rest \<Rightarrow>
             if z \<noteq> CHR ''0'' then (10, s)
             else if lower p = CHR ''b'' then (2, d # rest)
             else if lower p = CHR ''o'' then (8, d # rest)
             else if lower p = CHR ''x'' then (16, d # rest)
             else (8, p # d # rest)
         | z # rest \<Rightarrow> if z = CHR ''0'' then (8, rest) else (10, s)
         | [] \<Rightarrow> (10, []))
      in if s = '''' then Inl parse_error
         else
           (case uint_loop base 0 ds of
              Inl err \<Rightarrow> Inl err
            | Inr n \<Rightarrow> if CHR ''_'' \<in> set s \<and> \<not> underscoreOK s then Inl parse_error else Inr n))"

definition ParseInt0 :: "string \<Rightarrow> go_error + int" where
  "ParseInt0 s =
     (let (neg, us) = (case s of
            [] \<Rightarrow> (False, [])
          | c # cs \<Rightarrow> if c = CHR ''-'' then (True, cs) else if c = CHR ''+'' then (False, cs) else (False, s))
      in case ParseUint0 us of
           Inl err \<Rightarrow> Inl err
         | Inr n \<Rightarrow>
             if \<not> neg \<and> 2 ^ 63 \<le> n then Inl range_error
             else if neg \<and> 2 ^ 63 < n then Inl range_error
             else Inr (if neg then - n else n))"

section \<open>watch\<close>

text \<open>The flags of \<open>watch\<close>: the common ones and the interval.\<close>

definition watch_flags :: "string \<Rightarrow> string \<Rightarrow> cli_flags \<times> int \<Rightarrow> go_error + cli_flags \<times> int" where
  "watch_flags name v st =
     (if name = ''interval'' then
        (case ParseInt0 v of Inl err \<Rightarrow> Inl err | Inr n \<Rightarrow> Inr (fst st, n))
      else Inr (set_flag name v (fst st), snd st))"

definition watch_refresh :: "int \<Rightarrow> duration" where
  "watch_refresh intervalSec =
     (let refresh = i64 intervalSec * Second in if dur_lt refresh Second then Second else refresh)"

text \<open>\<open>Duration.String\<close> of a duration of at least a second\<close>

definition trim_zeros :: "string \<Rightarrow> string" where
  "trim_zeros s = rev (dropWhile (\<lambda>c. c = CHR ''0'') (rev s))"

definition dur_String :: "duration \<Rightarrow> string" where
  "dur_String d =
     (let n = sint d; s = n div 1000000000; f = n mod 1000000000; m = s div 60; h = m div 60
      in (if 0 < h then fmt_d h @ ''h'' else '''') @ (if 0 < m then fmt_d (m mod 60) @ ''m'' else '''') @
         fmt_d (s mod 60) @ (if f = 0 then '''' else ''.'' @ trim_zeros (pad_zeros 9 (digits f))) @ ''s'')"

definition csi :: "string \<Rightarrow> string" where
  "csi s = bytes [27] @ ''['' @ s"

definition watch_frame :: "'w cli \<Rightarrow> string \<Rightarrow> string \<Rightarrow> string \<Rightarrow> duration \<Rightarrow> 'w \<Rightarrow> string \<times> 'w" where
  "watch_frame C cl ns name refresh w =
     (let (got, w1) = cli_get C cl ns name w;
          (body, w2) =
            (case got of
               Inl err \<Rightarrow> (''error fetching '' @ ns @ ''/'' @ name @ '': '' @ error_text err @ newline, w1)
             | Inr cr \<Rightarrow> (let (now, w2) = cli_now C w1 in (renderRollout (cli_Log C) (clock_text C) cr now, w2)))
      in (csi ''H'' @ body @ newline @ ''(refreshing every '' @ dur_String refresh @ '' '' @ em_dash @
          '' press Ctrl+C to exit)'' @ newline @ csi ''J'', w2))"

datatype watch_event = Tick | Cancelled

text \<open>\<open>None\<close>: the loop has not ended with the events given.\<close>

fun watch_loop ::
    "('w \<Rightarrow> string \<times> 'w) \<Rightarrow> watch_event list \<Rightarrow> 'w \<Rightarrow> (go_error option option \<times> string) \<times> 'w" where
  "watch_loop frame [] w = ((None, ''''), w)"
| "watch_loop frame (Cancelled # es) w = ((Some None, csi ''?25h''), w)"
| "watch_loop frame (Tick # es) w =
     (let (out, w1) = frame w; ((res, rest), w2) = watch_loop frame es w1 in ((res, out @ rest), w2))"

definition cmdWatch ::
    "'w cli \<Rightarrow> watch_event list \<Rightarrow> string list \<Rightarrow> 'w \<Rightarrow> (go_error option option \<times> string) \<times> 'w" where
  "cmdWatch C events args w =
     (case parse watch_flags (common_names @ [''interval'']) args (registerCommon, 2) of
        Inl err \<Rightarrow> ((Some (Some err), ''''), w)
      | Inr ((cf, intervalSec), []) \<Rightarrow> ((Some (Some (PlainError ''watch: <name> required'')), ''''), w)
      | Inr ((cf, intervalSec), name # rest) \<Rightarrow>
          (case newClient C (kubeconfig cf) w of
             (Inl err, w1) \<Rightarrow> ((Some (Some err), ''''), w1)
           | (Inr cl, w1) \<Rightarrow>
               let frame = watch_frame C cl (namespace cf) name (watch_refresh intervalSec);
                   (out, w2) = frame w1;
                   ((res, rest'), w3) = watch_loop frame events w2
               in ((res, csi ''2J'' @ out @ rest'), w3)))"

section \<open>main\<close>

definition lines_of :: "string list \<Rightarrow> string" where
  "lines_of ls = concat (map (\<lambda>l. l @ newline) ls)"

definition usage :: string where
  "usage = lines_of
    [''statctl '' @ em_dash @ '' manage StatGate canary rollouts'',
     '''',
     ''Usage:'',
     ''  statctl <command> [args] [flags]'',
     '''',
     ''Commands:'',
     ''  list                 List canary rollouts in a namespace'',
     ''  get <name>           Show details of a single rollout'',
     ''  apply -f <file>      Create or update a rollout from a YAML manifest'',
     ''  pause <name>         Halt progression (sets spec.paused=true)'',
     ''  resume <name>        Resume progression (clears paused/abort)'',
     ''  abort <name>         Trigger immediate rollback (sets spec.abort=true)'',
     ''  delete <name>        Delete a rollout'',
     ''  watch <name>         Live dashboard with SPRT state and metrics'',
     ''  version              Print client version'',
     ''  help                 Show this help'',
     '''',
     ''Global flags (accepted on every subcommand):'',
     ''  -n, --namespace <ns>    Target namespace (default \"default\")'',
     ''  --kubeconfig <path>     Path to kubeconfig (default $KUBECONFIG or ~/.kube/config)'',
     '''',
     ''Watch-only flags:'',
     ''  --interval <seconds>    Refresh cadence (default 2)'',
     '''',
     ''Examples:'',
     ''  statctl apply -f demo/manifests/optional/05-rollout.yaml'',
     ''  statctl list -n statgate-demo'',
     ''  statctl watch demo-rollout -n statgate-demo'',
     ''  statctl pause demo-rollout -n statgate-demo'',
     ''  statctl abort demo-rollout -n statgate-demo'']"

definition client_version :: string where
  "client_version = ''v0.1.0''"

text \<open>
  The end of the process: exit code, standard output, and what \<open>main\<close> writes to standard error.
  \<open>None\<close> is a process still running (\<open>watch\<close> without a cancellation). \<open>interrupted\<close> is
  \<open>ctx.Err() != nil\<close> after the command.
\<close>

type_synonym exit = "(int \<times> string \<times> string) option"

definition finish :: "('w \<Rightarrow> bool) \<Rightarrow> (go_error option \<times> string) \<times> 'w \<Rightarrow> exit \<times> 'w" where
  "finish interrupted r =
     (case r of ((err, out), w) \<Rightarrow>
        (case err of
           None \<Rightarrow> (Some (0, out, ''''), w)
         | Some e \<Rightarrow>
             if interrupted w then (Some (0, out, ''''), w)
             else (Some (1, out, ''error: '' @ error_text e @ newline), w)))"

definition statctl :: "'w cli \<Rightarrow> ('w \<Rightarrow> bool) \<Rightarrow> watch_event list \<Rightarrow> string list \<Rightarrow> 'w \<Rightarrow> exit \<times> 'w" where
  "statctl C interrupted events argv w =
     (case argv of
        [] \<Rightarrow> (Some (2, usage, ''''), w)
      | sub # args \<Rightarrow>
          if sub = ''list'' \<or> sub = ''ls'' then finish interrupted (cmdList C args w)
          else if sub = ''get'' \<or> sub = ''status'' then finish interrupted (cmdGet C args w)
          else if sub = ''apply'' \<or> sub = ''create'' then finish interrupted (cmdApply C args w)
          else if sub = ''pause'' then finish interrupted (cmdPause C args w)
          else if sub = ''resume'' \<or> sub = ''start'' then finish interrupted (cmdResume C args w)
          else if sub = ''abort'' \<or> sub = ''rollback'' then finish interrupted (cmdAbort C args w)
          else if sub = ''delete'' \<or> sub = ''rm'' then finish interrupted (cmdDelete C args w)
          else if sub = ''watch'' then
            (case cmdWatch C events args w of
               ((None, out), w1) \<Rightarrow> (None, w1)
             | ((Some err, out), w1) \<Rightarrow> finish interrupted ((err, out), w1))
          else if sub = ''version'' \<or> sub = ''--version'' \<or> sub = ''-v''
          then (Some (0, ''statctl '' @ client_version @ newline, ''''), w)
          else if sub = ''help'' \<or> sub = ''--help'' \<or> sub = ''-h'' then (Some (0, usage, ''''), w)
          else (Some (2, usage, ''unknown subcommand: '' @ fmt_q sub @ newline @ newline), w))"

end
