(* ===== verification/Statctl_Store.thy ===== *)
theory Statctl_Store
  imports Statctl_Commands Cluster
begin

text \<open>
  What the commands of \<open>statctl\<close> do to the stored rollouts. The contract of the API server's
  client is the locale \<open>rollout_store\<close>: reads return what is stored and change nothing, an update
  replaces the specification of one object and nothing else (the status is a subresource), a
  write that fails changes nothing. The commands' effects are proved from the contract, which is
  interpreted on the cluster in memory.
\<close>

section \<open>The contract of the client\<close>

locale rollout_store =
  fixes C :: "'w cli" and view :: "'w \<Rightarrow> string \<times> string \<Rightarrow> canary_rollout option"
  assumes build_view: "view (snd (BuildConfigFromFlags C p w)) = view w"
    and new_view: "view (snd (client_New C p w)) = view w"
    and read_view: "view (snd (read_all C p w)) = view w"
    and get_view: "view (snd (cli_get C cl ns n w)) = view w"
    and get_found: "fst (cli_get C cl ns n w) = Inr cr \<Longrightarrow> view w (ns, n) = Some cr \<and> Namespace cr = ns \<and> Name cr = n"
    and get_missing: "fst (cli_get C cl ns n w) = Inl err \<Longrightarrow> is_not_found err \<Longrightarrow> view w (ns, n) = None"
    and update_failed: "cli_update C cl cr w = (Some err, w') \<Longrightarrow> view w' = view w"
    and update_done: "cli_update C cl cr w = (None, w') \<Longrightarrow>
      \<exists>old v. view w (Namespace cr, Name cr) = Some old \<and>
        view w' = (view w)((Namespace cr, Name cr) \<mapsto> old\<lparr>Spec := Spec cr, ResourceVersion := v\<rparr>)"
    and create_failed: "cli_create C cl cr w = (Some err, w') \<Longrightarrow> view w' = view w"
    and create_done: "cli_create C cl cr w = (None, w') \<Longrightarrow>
      view w (Namespace cr, Name cr) = None \<and>
      (\<exists>new. view w' = (view w)((Namespace cr, Name cr) \<mapsto> new) \<and> Spec new = Spec cr)"
begin

lemma newClient_view: "view (snd (newClient C path w)) = view w"
proof -
  let ?p1 = "if path = '''' then Getenv C w ''KUBECONFIG'' else path"
  let ?p2 = "if ?p1 = '''' then (case home_config C w of
      Some candidate \<Rightarrow> if file_exists C w candidate then candidate else ?p1 | None \<Rightarrow> ?p1) else ?p1"
  obtain e w1 where b: "BuildConfigFromFlags C ?p2 w = (e, w1)" by fastforce
  obtain e' w2 where n: "client_New C ?p2 w1 = (e', w2)" by fastforce
  have "view w1 = view w" "view w2 = view w" using build_view [of ?p2 w] new_view [of ?p2 w1] b n by simp_all
  then show ?thesis using b n unfolding newClient_def Let_def
    by (cases e; cases "AddToScheme C"; cases e') (simp_all only: prod.case option.case snd_conv)
qed

lemma with_named_cases:
  assumes "with_named C verb body args w = ((err, out), w')"
  shows "(err \<noteq> None \<and> view w' = view w) \<or>
    (\<exists>cf name rest cl w1. parse string_flags common_names args registerCommon = Inr (cf, name # rest) \<and> view w1 = view w \<and>
       body cl (namespace cf) name w1 = ((err, out), w'))"
proof (cases "parse string_flags common_names args registerCommon")
  case (Inl e)
  then show ?thesis using assms by (auto simp: with_named_def fails_def)
next
  case (Inr r)
  then obtain cf ps where p: "parse string_flags common_names args registerCommon = Inr (cf, ps)" by (cases r) simp
  show ?thesis
  proof (cases ps)
    case Nil
    then show ?thesis using assms p by (auto simp: with_named_def fails_def)
  next
    case (Cons name rest)
    obtain r w1 where nc: "newClient C (kubeconfig cf) w = (r, w1)" by fastforce
    then have v: "view w1 = view w" using newClient_view by (metis snd_conv)
    show ?thesis using assms p Cons nc v by (cases r) (auto simp: with_named_def fails_def)
  qed
qed

lemma patchRollout_outcome:
  assumes run: "patchRollout C verb past f args w = ((err, out), w')"
    and f: "\<And>cr. Namespace (f cr) = Namespace cr" "\<And>cr. Name (f cr) = Name cr"
  shows "case err of
      Some e \<Rightarrow> view w' = view w
    | None \<Rightarrow> \<exists>cf name rest old v. parse string_flags common_names args registerCommon = Inr (cf, name # rest) \<and>
        view w (namespace cf, name) = Some old \<and>
        view w' = (view w)((namespace cf, name) \<mapsto> old\<lparr>Spec := Spec (f old), ResourceVersion := v\<rparr>)"
  using with_named_cases [OF run [unfolded patchRollout_def]]
proof (elim disjE exE conjE)
  fix cf name rest cl w1
  assume p: "parse string_flags common_names args registerCommon = Inr (cf, name # rest)" and v1: "view w1 = view w"
    and body: "(case cli_get C cl (namespace cf) name w1 of (Inl err, w1) \<Rightarrow> fails err w1
       | (Inr cr, w1) \<Rightarrow> (case cli_update C cl (f cr) w1 of (Some err, w2) \<Rightarrow> fails (Wrapped ''update'' err) w2
            | (None, w2) \<Rightarrow> prints (''canaryrollout/'' @ Name (f cr) @ '' '' @ past @ newline) w2)) = ((err, out), w')"
  obtain r w2 where g: "cli_get C cl (namespace cf) name w1 = (r, w2)" by fastforce
  have v2: "view w2 = view w" using get_view [of cl "namespace cf" name w1] g v1 by simp
  show ?thesis
  proof (cases r)
    case (Inl e)
    then show ?thesis using body g v2 by (auto simp: fails_def)
  next
    case (Inr cr)
    then have st: "view w (namespace cf, name) = Some cr" "Namespace cr = namespace cf" "Name cr = name"
      using get_found [of cl "namespace cf" name w1 cr] g v1 by simp_all
    obtain e w3 where u: "cli_update C cl (f cr) w2 = (e, w3)" by fastforce
    show ?thesis
    proof (cases e)
      case (Some e')
      then show ?thesis using body g Inr u update_failed v2 by (auto simp: fails_def)
    next
      case None
      obtain v where "view w3 = (view w)((namespace cf, name) \<mapsto> cr\<lparr>Spec := Spec (f cr), ResourceVersion := v\<rparr>)"
        using update_done [of cl "f cr" w2 w3] u None v2 st f by auto
      then show ?thesis using body g Inr u None p st by (auto simp: prints_def)
    qed
  qed
qed (auto split: option.split)

lemma apply_rollout_outcome:
  assumes run: "apply_rollout C cl cr w = ((err, out), w')"
  shows "case err of
      Some e \<Rightarrow> view w' = view w
    | None \<Rightarrow> (case view w (Namespace cr, Name cr) of
        None \<Rightarrow> \<exists>new. view w' = (view w)((Namespace cr, Name cr) \<mapsto> new) \<and> Spec new = Spec cr
      | Some old \<Rightarrow> \<exists>v. view w' = (view w)((Namespace cr, Name cr) \<mapsto> old\<lparr>Spec := Spec cr, ResourceVersion := v\<rparr>))"
proof -
  obtain r w1 where g: "cli_get C cl (Namespace cr) (Name cr) w = (r, w1)" by fastforce
  have v1: "view w1 = view w" using get_view [of cl "Namespace cr" "Name cr" w] g by simp
  show ?thesis
  proof (cases r)
    case (Inl e)
    show ?thesis
    proof (cases "is_not_found e")
      case True
      then have no: "view w (Namespace cr, Name cr) = None" using get_missing g Inl by (metis fst_conv)
      obtain e' w2 where c: "cli_create C cl cr w1 = (e', w2)" by fastforce
      show ?thesis
        using run g Inl True c no v1 create_failed [of cl cr w1 _ w2] create_done [of cl cr w1 w2]
        by (cases e') (auto simp: apply_rollout_def fails_def prints_def)
    next
      case False
      then show ?thesis using run g Inl v1 by (auto simp: apply_rollout_def fails_def)
    qed
  next
    case (Inr ex)
    then have st: "view w (Namespace cr, Name cr) = Some ex" "Namespace ex = Namespace cr" "Name ex = Name cr"
      using get_found [of cl "Namespace cr" "Name cr" w ex] g by simp_all
    obtain e' w2 where u: "cli_update C cl (ex\<lparr>Spec := Spec cr\<rparr>) w1 = (e', w2)" by fastforce
    show ?thesis
      using run g Inr u st v1 update_failed [of cl "ex\<lparr>Spec := Spec cr\<rparr>" w1 _ w2]
        update_done [of cl "ex\<lparr>Spec := Spec cr\<rparr>" w1 w2]
      by (cases e') (auto simp: apply_rollout_def fails_def prints_def)
  qed
qed

lemma cmdApply_outcome:
  assumes run: "cmdApply C args w = ((err, out), w')"
  shows "case err of
      Some e \<Rightarrow> view w' = view w
    | None \<Rightarrow> \<exists>cf ps data cr0 cr.
        parse string_flags (common_names @ [''f'', ''file'']) args registerCommon = Inr (cf, ps) \<and>
        fst (read_all C (manifest_file cf) w) = Inr data \<and> unmarshal C data = Inr cr0 \<and>
        check_manifest cf cr0 = Inr cr \<and>
        (case view w (Namespace cr, Name cr) of
           None \<Rightarrow> \<exists>new. view w' = (view w)((Namespace cr, Name cr) \<mapsto> new) \<and> Spec new = Spec cr
         | Some old \<Rightarrow>
             \<exists>v. view w' = (view w)((Namespace cr, Name cr) \<mapsto> old\<lparr>Spec := Spec cr, ResourceVersion := v\<rparr>))"
proof (cases "parse string_flags (common_names @ [''f'', ''file'']) args registerCommon")
  case (Inl e)
  then show ?thesis using run by (auto simp: cmdApply_def fails_def)
next
  case (Inr r)
  then obtain cf ps where p: "parse string_flags (common_names @ [''f'', ''file'']) args registerCommon = Inr (cf, ps)"
    by (cases r) simp
  obtain d w1 where rd: "read_all C (manifest_file cf) w = (d, w1)" by fastforce
  then have v1: "view w1 = view w" using read_view [of "manifest_file cf" w] by simp
  obtain nc w2 where nc: "newClient C (kubeconfig cf) w1 = (nc, w2)" by fastforce
  then have v2: "view w2 = view w" using newClient_view [of "kubeconfig cf" w1] v1 by simp
  show ?thesis
  proof (cases err)
    case (Some e)
    then show ?thesis
      using run p rd v1 nc v2 apply_rollout_outcome [of _ _ w2 err out w']
      by (auto simp: cmdApply_def fails_def split: if_splits sum.splits)
  next
    case None
    then obtain data cr0 cr cl where *: "d = Inr data" "unmarshal C data = Inr cr0" "check_manifest cf cr0 = Inr cr"
        "nc = Inr cl" "apply_rollout C cl cr w2 = ((None, out), w')"
      using run p rd nc by (auto simp: cmdApply_def fails_def split: if_splits sum.splits)
    show ?thesis using None p rd * apply_rollout_outcome [OF *(5), unfolded v2] by auto
  qed
qed

end

section \<open>The cluster in memory as a store\<close>

text \<open>An update is refused with a conflict when the resource version is not the stored one.\<close>

definition store_spec :: "canary_rollout \<Rightarrow> cluster \<Rightarrow> go_error option \<times> cluster" where
  "store_spec cr c =
     (case stored_rollouts c (Namespace cr, Name cr) of
        None \<Rightarrow> (Some missing, c)
      | Some old \<Rightarrow>
          if ResourceVersion old \<noteq> ResourceVersion cr
          then (Some (ApiError Conflict ''the object has been modified''), c)
          else (None, c\<lparr> stored_rollouts :=
                  (stored_rollouts c)((Namespace cr, Name cr) \<mapsto>
                     old\<lparr> Spec := Spec cr, ResourceVersion := ResourceVersion old @ ''+'' \<rparr>) \<rparr>))"

definition store_new :: "canary_rollout \<Rightarrow> cluster \<Rightarrow> go_error option \<times> cluster" where
  "store_new cr c =
     (if stored_rollouts c (Namespace cr, Name cr) = None
      then (None, c\<lparr> stored_rollouts := (stored_rollouts c)((Namespace cr, Name cr) \<mapsto>
              cr\<lparr> Status := demo_status\<lparr>Phase := ''''\<rparr>, ResourceVersion := ''1'' \<rparr>) \<rparr>)
      else (Some (ApiError OtherReason ''already exists''), c))"

text \<open>The objects are stored under their own keys, as the API server stores them.\<close>

definition keyed :: "cluster \<Rightarrow> string \<times> string \<Rightarrow> canary_rollout option" where
  "keyed c k =
     (case stored_rollouts c k of
        Some cr \<Rightarrow> if (Namespace cr, Name cr) = k then Some cr else None
      | None \<Rightarrow> None)"

definition cluster_cli :: "canary_rollout \<Rightarrow> cluster cli" where
  "cluster_cli manifest =
    \<lparr> Getenv = (\<lambda>c v. ''''), home_config = (\<lambda>c. None), file_exists = (\<lambda>c p. False),
      BuildConfigFromFlags = (\<lambda>p c. (None, c)), AddToScheme = None, client_New = (\<lambda>p c. (None, c)),
      cli_get = (\<lambda>cl ns n c. (case keyed c (ns, n) of None \<Rightarrow> Inl missing | Some cr \<Rightarrow> Inr cr, c)),
      cli_list = (\<lambda>cl ns c. (Inr [], c)),
      cli_create = (\<lambda>cl cr c. if keyed c (Namespace cr, Name cr) = None then store_new cr c else (Some missing, c)),
      cli_update = (\<lambda>cl cr c. if keyed c (Namespace cr, Name cr) = None then (Some missing, c) else store_spec cr c),
      cli_delete = (\<lambda>cl ns n c. (None, c\<lparr> stored_rollouts := (stored_rollouts c)((ns, n) := None) \<rparr>)),
      read_all = (\<lambda>p c. (Inr p, c)), unmarshal = (\<lambda>data. Inr manifest),
      cli_now = (\<lambda>c. (clock c, c)), cli_Log = log_portable, clock_text = (\<lambda>t. fmt_d t) \<rparr>"

lemma cluster_cli_sel [simp]:
  "cli_get (cluster_cli m) cl ns n c = (case keyed c (ns, n) of None \<Rightarrow> Inl missing | Some cr \<Rightarrow> Inr cr, c)"
  "cli_update (cluster_cli m) cl cr c = (if keyed c (Namespace cr, Name cr) = None then (Some missing, c) else store_spec cr c)"
  "read_all (cluster_cli m) p c = (Inr p, c)" "unmarshal (cluster_cli m) d = Inr m"
  by (simp_all add: cluster_cli_def)

lemma keyed_upd:
  "Namespace cr = fst k \<Longrightarrow> Name cr = snd k \<Longrightarrow>
   keyed (c\<lparr>stored_rollouts := (stored_rollouts c)(k \<mapsto> cr)\<rparr>) = (keyed c)(k \<mapsto> cr)"
  by (rule ext) (simp add: keyed_def)

lemma keyed_Some: "keyed c k = Some cr \<longleftrightarrow> stored_rollouts c k = Some cr \<and> (Namespace cr, Name cr) = k"
  by (auto simp: keyed_def split: option.splits if_splits)

interpretation mem: rollout_store "cluster_cli m" keyed for m
proof unfold_locales
  fix cl :: string and cr :: canary_rollout and w w' :: cluster
  assume "cli_update (cluster_cli m) cl cr w = (None, w')"
  then obtain old where old: "keyed w (Namespace cr, Name cr) = Some old" and st: "store_spec cr w = (None, w')"
    by (auto simp: cluster_cli_def split: if_splits)
  then have "keyed w' = (keyed w)((Namespace cr, Name cr) \<mapsto>
      old\<lparr>Spec := Spec cr, ResourceVersion := ResourceVersion old @ ''+''\<rparr>)"
    by (auto simp: keyed_Some store_spec_def keyed_upd split: if_splits)
  then show "\<exists>old v. keyed w (Namespace cr, Name cr) = Some old \<and>
        keyed w' = (keyed w)((Namespace cr, Name cr) \<mapsto> old\<lparr>Spec := Spec cr, ResourceVersion := v\<rparr>)"
    using old by blast
next
  fix cl :: string and cr :: canary_rollout and w w' :: cluster
  assume "cli_create (cluster_cli m) cl cr w = (None, w')"
  then have "keyed w (Namespace cr, Name cr) = None" "store_new cr w = (None, w')"
    by (auto simp: cluster_cli_def split: if_splits)
  then show "keyed w (Namespace cr, Name cr) = None \<and>
      (\<exists>new. keyed w' = (keyed w)((Namespace cr, Name cr) \<mapsto> new) \<and> Spec new = Spec cr)"
    by (auto simp: store_new_def keyed_upd split: if_splits)
qed (auto simp: cluster_cli_def keyed_Some missing_def store_spec_def store_new_def
    split: if_splits option.splits)

end
