(* ===== verification/Statctl_Effects.thy ===== *)
theory Statctl_Effects
  imports Statctl_Store VirtualService_Props
begin

text \<open>
  The effects of the commands that edit a rollout, for every client that keeps the contract
  \<open>rollout_store\<close>, and what the reconciler makes of them.
\<close>

section \<open>Pause, resume, abort\<close>

definition pause_spec :: "rollout_spec \<Rightarrow> rollout_spec" where
  "pause_spec sp = sp\<lparr>Paused := True\<rparr>"

definition resume_spec :: "rollout_spec \<Rightarrow> rollout_spec" where
  "resume_spec sp = sp\<lparr>Paused := False, Abort := False\<rparr>"

definition abort_spec :: "rollout_spec \<Rightarrow> rollout_spec" where
  "abort_spec sp = sp\<lparr>Abort := True\<rparr>"

lemma edit_outcome:
  assumes store: "rollout_store C view"
    and cmd: "cmd = cmdPause C \<and> f = pause_spec \<or> cmd = cmdResume C \<and> f = resume_spec \<or>
      cmd = cmdAbort C \<and> f = abort_spec"
    and run: "cmd args w = ((err, out), w')"
  shows "case err of
      Some e \<Rightarrow> view w' = view w
    | None \<Rightarrow> \<exists>cf name rest old v. parse string_flags common_names args registerCommon = Inr (cf, name # rest) \<and>
        view w (namespace cf, name) = Some old \<and>
        view w' = (view w)((namespace cf, name) \<mapsto> old\<lparr>Spec := f (Spec old), ResourceVersion := v\<rparr>)"
proof -
  have eqs: "set_paused = (\<lambda>cr. cr\<lparr>Spec := pause_spec (Spec cr)\<rparr>)"
    "set_resumed = (\<lambda>cr. cr\<lparr>Spec := resume_spec (Spec cr)\<rparr>)"
    "set_aborted = (\<lambda>cr. cr\<lparr>Spec := abort_spec (Spec cr)\<rparr>)"
    by (simp_all add: fun_eq_iff set_paused_def set_resumed_def set_aborted_def pause_spec_def resume_spec_def
        abort_spec_def)
  have "\<exists>verb past. cmd = patchRollout C verb past (\<lambda>cr. cr\<lparr>Spec := f (Spec cr)\<rparr>)"
    using cmd by (elim disjE conjE; simp only: cmdPause_def cmdResume_def cmdAbort_def eqs; blast)
  then obtain verb past where p: "cmd = patchRollout C verb past (\<lambda>cr. cr\<lparr>Spec := f (Spec cr)\<rparr>)" by blast
  from rollout_store.patchRollout_outcome [OF store run [unfolded p]] show ?thesis by (cases err) simp_all
qed

text \<open>
  C26: \<open>pause\<close>, \<open>resume\<close> and \<open>abort\<close> against any client that keeps its contract: a command that
  reports an error has changed no stored rollout, and one that succeeds has changed exactly the
  named rollout of the chosen namespace, there exactly the flags it is for (its steps, its
  analysis and its whole status stay).
\<close>

theorem edit_commands_touch_one_spec:
  assumes "rollout_store C view"
    and "cmd = cmdPause C \<and> f = pause_spec \<or> cmd = cmdResume C \<and> f = resume_spec \<or>
      cmd = cmdAbort C \<and> f = abort_spec"
    and "cmd args w = ((err, out), w')"
  shows "case err of
      Some e \<Rightarrow> view w' = view w
    | None \<Rightarrow> \<exists>cf name rest old v. parse string_flags common_names args registerCommon = Inr (cf, name # rest) \<and>
        view w (namespace cf, name) = Some old \<and>
        view w' = (view w)((namespace cf, name) \<mapsto> old\<lparr>Spec := f (Spec old), ResourceVersion := v\<rparr>)"
  by (rule edit_outcome [OF assms])

definition demo_args :: "string list" where
  "demo_args = [''demo'', ''-n'', ''default'']"

lemma demo_args_parse:
  "parse string_flags common_names demo_args registerCommon =
     Inr (\<lparr>namespace = ''default'', kubeconfig = '''', manifest_file = ''''\<rparr>, [''demo''])"
  by (simp add: demo_args_def parse_def splitArgs_def flag_like_def flag_name_def split_value_def common_names_def
      registerCommon_def set_flag_def string_flags_def Let_def)

lemma demo_keyed: "keyed (demo_cluster (demo_at 0 20) 0) (''default'', ''demo'') = Some (demo_at 0 20)"
  by (simp add: keyed_def demo_cluster_def demo_at_def demo_rollout_def)

lemma demo_edit_runs:
  assumes "stored_rollouts c (''default'', ''demo'') = Some cr" "Namespace cr = ''default''" "Name cr = ''demo''"
    and g: "\<And>cr. Namespace (g cr) = Namespace cr \<and> Name (g cr) = Name cr \<and> ResourceVersion (g cr) = ResourceVersion cr"
  shows "patchRollout (cluster_cli m) verb past g demo_args c =
    ((None, ''canaryrollout/demo '' @ past @ newline), snd (store_spec (g cr) c))"
proof -
  have "newClient (cluster_cli m) '''' c = (Inr '''', c)" by (simp add: newClient_def cluster_cli_def)
  moreover have "cli_get (cluster_cli m) '''' ''default'' ''demo'' c = (Inr cr, c)"
    using assms by (simp add: cluster_cli_def keyed_def)
  moreover have "cli_update (cluster_cli m) '''' (g cr) c = (None, snd (store_spec (g cr) c))"
    using assms by (simp add: cluster_cli_def keyed_def store_spec_def)
  ultimately show ?thesis
    using g assms(2,3) by (simp add: patchRollout_def with_named_def demo_args_parse prints_def)
qed

theorem edit_commands_touch_one_spec_witness:
  "\<exists>v. keyed (snd (cmdAbort (cluster_cli (demo_at 0 0)) demo_args (demo_cluster (demo_at 0 20) 0))) (''default'', ''demo'') =
     Some ((demo_at 0 20)\<lparr>Spec := demo_spec\<lparr>Abort := True\<rparr>, ResourceVersion := v\<rparr>)"
proof -
  let ?C = "cluster_cli (demo_at 0 0)" and ?c = "demo_cluster (demo_at 0 20) 0"
  have run: "\<exists>out w'. cmdAbort ?C demo_args ?c = ((None, out), w')"
    unfolding cmdAbort_def by (subst demo_edit_runs [of _ "demo_at 0 20"])
      (simp_all add: demo_cluster_def demo_at_def demo_rollout_def set_aborted_def)
  then obtain out w' where w': "cmdAbort ?C demo_args ?c = ((None, out), w')" by blast
  show ?thesis
    using edit_commands_touch_one_spec [OF mem.rollout_store_axioms [of "demo_at 0 0"], where cmd = "cmdAbort ?C" and
        f = abort_spec, OF _ w'] w' demo_keyed
    by (auto simp: demo_args_parse abort_spec_def demo_at_def demo_rollout_def)
qed

section \<open>Apply\<close>

text \<open>
  C28: \<open>apply\<close> against any client that keeps its contract: when it reports an error (bad flags, an
  unreadable or unusable manifest, a refused request) no stored rollout has changed; when it
  succeeds, exactly the manifest's rollout is stored with the manifest's specification, in the
  manifest's namespace or else the flag's, and if it existed its status is kept: a rollout in
  progress goes on from its step and weight.
\<close>

theorem apply_keeps_progress:
  assumes "rollout_store C view" "cmdApply C args w = ((err, out), w')"
  shows "case err of
      Some e \<Rightarrow> view w' = view w
    | None \<Rightarrow> \<exists>cf ps data cr0 cr.
        parse string_flags (common_names @ [''f'', ''file'']) args registerCommon = Inr (cf, ps) \<and>
        fst (read_all C (manifest_file cf) w) = Inr data \<and> unmarshal C data = Inr cr0 \<and>
        check_manifest cf cr0 = Inr cr \<and>
        (case view w (Namespace cr, Name cr) of
           None \<Rightarrow> \<exists>new. view w' = (view w)((Namespace cr, Name cr) \<mapsto> new) \<and> Spec new = Spec cr
         | Some old \<Rightarrow>
             \<exists>v. view w' = (view w)((Namespace cr, Name cr) \<mapsto> old\<lparr>Spec := Spec cr, ResourceVersion := v\<rparr>))"
  by (rule rollout_store.cmdApply_outcome [OF assms])

definition demo_manifest :: canary_rollout where
  "demo_manifest = (demo_rollout (demo_spec\<lparr>Paused := True\<rparr>) demo_status)\<lparr>Namespace := ''''\<rparr>"

lemma demo_apply_parse:
  "parse string_flags (common_names @ [''f'', ''file'']) [''-f'', ''-''] registerCommon =
     Inr (\<lparr>namespace = ''default'', kubeconfig = '''', manifest_file = ''-''\<rparr>, [])"
  by (simp add: parse_def splitArgs_def flag_like_def flag_name_def split_value_def common_names_def
      registerCommon_def set_flag_def string_flags_def Let_def)

lemma demo_apply_run:
  "\<exists>out w'. cmdApply (cluster_cli demo_manifest) [''-f'', ''-''] (demo_cluster (demo_at 1 50) 0) = ((None, out), w')"
proof -
  have "newClient (cluster_cli demo_manifest) '''' c = (Inr '''', c)" for c
    by (simp add: newClient_def cluster_cli_def)
  moreover have "check_manifest \<lparr>namespace = ''default'', kubeconfig = '''', manifest_file = ''-''\<rparr> demo_manifest =
      Inr (demo_manifest\<lparr>Namespace := ''default''\<rparr>)"
    by (simp add: check_manifest_def demo_manifest_def demo_rollout_def)
  ultimately show ?thesis
    by (simp add: cmdApply_def demo_apply_parse apply_rollout_def)
      (simp add: keyed_def store_spec_def prints_def demo_manifest_def demo_cluster_def demo_at_def demo_rollout_def)
qed

theorem apply_keeps_progress_witness:
  "\<exists>v. keyed (snd (cmdApply (cluster_cli demo_manifest) [''-f'', ''-''] (demo_cluster (demo_at 1 50) 0))) (''default'', ''demo'') =
     Some ((demo_at 1 50)\<lparr>Spec := demo_spec\<lparr>Paused := True\<rparr>, ResourceVersion := v\<rparr>)"
proof -
  obtain out w' where run: "cmdApply (cluster_cli demo_manifest) [''-f'', ''-''] (demo_cluster (demo_at 1 50) 0) =
      ((None, out), w')" using demo_apply_run by blast
  have "keyed (demo_cluster (demo_at 1 50) 0) (''default'', ''demo'') = Some (demo_at 1 50)"
    by (simp add: keyed_def demo_cluster_def demo_at_def demo_rollout_def)
  then show ?thesis
    using apply_keeps_progress [OF mem.rollout_store_axioms run] run
    by (auto simp: demo_apply_parse check_manifest_def cluster_cli_def demo_manifest_def demo_rollout_def)
qed

section \<open>Resuming an aborted rollout\<close>




section \<open>Aborting a rollout\<close>

text \<open>
  C27: \<open>statctl abort\<close> is carried out by the controller's next cycle, whatever the phase of the
  rollout was before (running, paused, failed, even promoted), unless it is aborted already: the
  cycle writes the VirtualService with all traffic on the stable service; if that write is
  refused it returns the error, so that it is called again, and has written nothing else; if it
  succeeds, the cycle's last call writes the phase \<open>Aborted\<close> with weight 0, at the step where
  the rollout was, and no requeue is asked for.
\<close>

theorem abort_takes_effect:
  assumes store: "rollout_store C view"
    and run: "cmdAbort C args (world s) = ((None, out), w')"
    and args: "parse string_flags common_names args registerCommon = Inr (cf, n # rest)"
    and cr: "view (world s) (namespace cf, n) = Some cr" "Namespace cr = namespace cf" "Phase (Status cr) \<noteq> PhaseAborted"
    and reads: "\<And>cr. view w' (namespace cf, n) = Some cr \<Longrightarrow> get_rollout E (namespace cf) n w' = (Inr cr, w1)"
    and vs: "unstructured_api E" "get_vs E (namespace cf) (VirtualServiceRef (Spec cr)) w1 = (Inr obj, w2)"
      "vs_routes E obj = Some rs"
  shows "\<exists>v cr'. Spec cr' = abort_spec (Spec cr) \<and> Status cr' = Status cr \<and> view w' (namespace cf, n) = Some cr' \<and>
    vs_routes E v = Some (map (weighted_route E (StableServiceRef (Spec cr)) 100 (CanaryServiceRef (Spec cr)) 0) rs) \<and>
    (\<forall>h. h \<noteq> ''spec'' \<longrightarrow> v h = obj h) \<and>
    (case (update_vs E v w2, Reconcile E (namespace cf) n (s\<lparr>world := w'\<rparr>)) of
       ((Some e, w3), (res, s')) \<Rightarrow> (\<exists>err. res = Ret (0, Some err)) \<and> s' = s\<lparr>world := w3\<rparr>
     | ((None, w3), (res, s')) \<Rightarrow>
         (\<exists>now w4. time_Now E w3 = (now, w4) \<and>
            update_status E (with_status PhaseAborted (CurrentStep (Status cr)) 0 now
                ''Rollout aborted, 100% traffic to stable'' cr') w4 =
              (case res of Ret (d, err) \<Rightarrow> err | Panic p \<Rightarrow> None, world s') \<and>
            (\<exists>err. res = Ret (0, err))))"
proof -
  have "cmdAbort C = cmdPause C \<and> abort_spec = pause_spec \<or> cmdAbort C = cmdResume C \<and> abort_spec = resume_spec \<or>
      cmdAbort C = cmdAbort C \<and> abort_spec = abort_spec" by simp
  from edit_outcome [OF store this run] obtain r where
    r: "view w' (namespace cf, n) = Some (cr\<lparr>Spec := abort_spec (Spec cr), ResourceVersion := r\<rparr>)"
    using args cr by auto
  define cr' where "cr' = cr\<lparr>Spec := abort_spec (Spec cr), ResourceVersion := r\<rparr>"
  have f: "Spec cr' = abort_spec (Spec cr)" "Status cr' = Status cr" "Namespace cr' = namespace cf" "Abort (Spec cr')"
    "VirtualServiceRef (Spec cr') = VirtualServiceRef (Spec cr)" "StableServiceRef (Spec cr') = StableServiceRef (Spec cr)"
    "CanaryServiceRef (Spec cr') = CanaryServiceRef (Spec cr)"
    using cr(2) by (simp_all add: cr'_def abort_spec_def)
  let ?s1 = "s\<lparr>world := w1\<rparr>"
  have "get_vs E (namespace cf) (VirtualServiceRef (Spec cr)) (world ?s1) = (Inr obj, w2)" using vs(2) by simp
  from SetVirtualServiceWeights_stores [OF vs(1) this vs(3), of "StableServiceRef (Spec cr)" 100 "CanaryServiceRef (Spec cr)" 0]
  obtain v where v: "vs_routes E v = Some (map (weighted_route E (StableServiceRef (Spec cr)) 100 (CanaryServiceRef (Spec cr)) 0) rs)"
      "\<forall>h. h \<noteq> ''spec'' \<longrightarrow> v h = obj h"
    and set: "set_weights E cr' 100 0 ?s1 =
      (map_option (Wrapped (''update VirtualService '' @ namespace cf @ ''/'' @ VirtualServiceRef (Spec cr))) (fst (update_vs E v w2)),
       ?s1\<lparr>world := snd (update_vs E v w2)\<rparr>)"
    unfolding set_weights_def f(3,5-7) by blast
  have rec: "Reconcile E (namespace cf) n (s\<lparr>world := w'\<rparr>) = reconcile_abort E cr' ?s1"
    using reads [OF r] cr(3) f by (simp add: Reconcile_def reconcile_rollout_def call_def cr'_def Let_def)
  obtain e w3 where u: "update_vs E v w2 = (e, w3)" by fastforce
  show ?thesis
  proof (cases e)
    case (Some err)
    then show ?thesis
      by (intro exI [of _ v] exI [of _ cr'])
        (use f v u r rec set in \<open>simp add: reconcile_abort_def cr'_def [symmetric]\<close>)
  next
    case None
    obtain now w4 where t: "time_Now E w3 = (now, w4)" by fastforce
    show ?thesis
      by (intro exI [of _ v] exI [of _ cr'])
        (use None f v u r t rec set in \<open>simp add: reconcile_abort_def return_status_def setStatus_def call_def gauge_update_def
           Let_def cr'_def [symmetric] split: prod.splits\<close>)
  qed
qed

lemma demo_abort_run:
  "cmdAbort (cluster_cli m) demo_args (demo_cluster (demo_at 1 50) 9) =
     ((None, ''canaryrollout/demo '' @ (''aborted '' @ em_dash @ '' rolling back to stable'') @ newline),
      snd (store_spec (set_aborted (demo_at 1 50)) (demo_cluster (demo_at 1 50) 9)))"
  unfolding cmdAbort_def
  by (rule demo_edit_runs) (simp_all add: demo_cluster_def demo_at_def demo_rollout_def set_aborted_def)

theorem abort_takes_effect_witness:
  "\<exists>out w' res s'. cmdAbort (cluster_cli (demo_at 0 0)) demo_args (demo_cluster (demo_at 1 50) 9) = ((None, out), w') \<and>
     Reconcile cluster_env ''default'' ''demo'' \<lparr>world = w', gauges_of = no_gauges\<rparr> = (res, s') \<and>
     (\<exists>cr. stored_rollouts (world s') (''default'', ''demo'') = Some cr \<and> Phase (Status cr) = PhaseAborted)"
proof -
  let ?C = "cluster_cli (demo_at 0 0)" and ?s = "demo_sys (demo_at 1 50) 9"
  define w' where "w' = snd (store_spec (set_aborted (demo_at 1 50)) (demo_cluster (demo_at 1 50) 9))"
  obtain out where run: "cmdAbort ?C demo_args (world ?s) = ((None, out), w')"
    using demo_abort_run by (simp add: demo_sys_def w'_def)
  have c: "stored_vs w' = stored_vs (demo_cluster (demo_at 1 50) 9)" "\<not> vs_fails w'"
    by (simp_all add: w'_def store_spec_def demo_cluster_def set_aborted_def)
  have k: "keyed (world ?s) (''default'', ''demo'') = Some (demo_at 1 50)"
    by (simp add: keyed_def demo_sys_def demo_cluster_def demo_at_def demo_rollout_def)
  have cr: "Namespace (demo_at 1 50) = ''default''" "Phase (Status (demo_at 1 50)) \<noteq> PhaseAborted"
    "VirtualServiceRef (Spec (demo_at 1 50)) = ''app''"
    by (simp_all add: demo_at_def demo_rollout_def demo_spec_def demo_status_def)
  have vs: "get_vs cluster_env ''default'' ''app'' w' =
      (Inr (demo_vs [demo_route ''app-stable'' 100, demo_route ''app-canary'' 0]), w')"
    using c by (simp add: lookup_def demo_cluster_def)
  have reads: "get_rollout cluster_env ''default'' ''demo'' w' = (Inr cr, w')"
    if "keyed w' (''default'', ''demo'') = Some cr" for cr
    using that by (simp add: keyed_Some lookup_def)
  obtain res s' where rec: "Reconcile cluster_env ''default'' ''demo'' (?s\<lparr>world := w'\<rparr>) = (res, s')" by fastforce
  from abort_takes_effect [OF mem.rollout_store_axioms run demo_args_parse, of "demo_at 1 50" cluster_env w',
      unfolded cli_flags.select_convs, OF k cr(1,2) reads cluster_api vs [folded cr(3)] demo_vs_routes] rec
  obtain cr' now m err where "keyed w' (''default'', ''demo'') = Some cr'"
    and st: "store_status (with_status PhaseAborted (CurrentStep (Status (demo_at 1 50))) 0 now
        ''Rollout aborted, 100% traffic to stable'' cr') (w'\<lparr>stored_vs := m\<rparr>) = (err, world s')"
    using c by (auto simp: store_vs_def)
  moreover have "world s' = snd (store_status (with_status PhaseAborted (CurrentStep (Status (demo_at 1 50))) 0 now
        ''Rollout aborted, 100% traffic to stable'' cr') (w'\<lparr>stored_vs := m\<rparr>))" by (simp add: st)
  ultimately have "\<exists>cr. stored_rollouts (world s') (''default'', ''demo'') = Some cr \<and> Phase (Status cr) = PhaseAborted"
    by (auto simp: keyed_Some store_status_def with_status_def)
  then show ?thesis using run rec by (auto simp: demo_sys_def)
qed

end
