(* ===== verification/Statctl_Main_Props.thy ===== *)
theory Statctl_Main_Props
  imports Statctl_Main Statctl_Effects
begin

text \<open>
  The whole command: what a non-zero exit code says about the stored rollouts, the refresh
  interval of the live dashboard, and its output.
\<close>

section \<open>A store whose reads leave it alone\<close>

locale quiet_store = rollout_store +
  assumes list_view: "view (snd (cli_list C cl ns w)) = view w"
    and now_view: "view (snd (cli_now C w)) = view w"
    and delete_failed: "cli_delete C cl ns n w = (Some err, w') \<Longrightarrow> view w' = view w"
begin

lemma list_rows_view: "view (snd (list_rows C crs w)) = view w"
proof (induction crs arbitrary: w)
  case (Cons cr crs)
  obtain now w1 where n: "cli_now C w = (now, w1)" by fastforce
  obtain out w2 where l: "list_rows C crs w1 = (out, w2)" by fastforce
  have "view w1 = view w" "view w2 = view w1" using now_view [of w] Cons.IH [of w1] n l by simp_all
  then show ?case using n l by simp
qed simp

lemma cmdList_view: "view (snd (cmdList C args w)) = view w"
proof (cases "parse string_flags common_names args registerCommon")
  case (Inr p)
  obtain cf ps where p: "p = (cf, ps)" by fastforce
  obtain r w1 where nc: "newClient C (kubeconfig cf) w = (r, w1)" by fastforce
  then have v1: "view w1 = view w" using newClient_view [of "kubeconfig cf" w] by simp
  show ?thesis
  proof (cases r)
    case (Inr cl)
    obtain l w2 where l: "cli_list C cl (namespace cf) w1 = (l, w2)" by fastforce
    then have v2: "view w2 = view w" using list_view [of cl "namespace cf" w1] v1 by simp
    show ?thesis
    proof (cases l)
      case (Inr crs)
      obtain rows w3 where rows: "list_rows C crs w2 = (rows, w3)" by fastforce
      then have "view w3 = view w" using list_rows_view [of crs w2] v2 by simp
      then show ?thesis
        using \<open>parse string_flags common_names args registerCommon = Inr p\<close> p nc \<open>r = Inr cl\<close> l Inr rows v2
        by (cases crs) (simp_all add: cmdList_def prints_def)
    qed (use \<open>parse string_flags common_names args registerCommon = Inr p\<close> p nc Inr l v2 in
        \<open>simp add: cmdList_def fails_def\<close>)
  qed (use Inr p nc v1 in \<open>simp add: cmdList_def fails_def\<close>)
qed (simp add: cmdList_def fails_def)

lemma body_view:
  assumes run: "with_named C verb body args w = ((err, out), w')"
    and body: "\<And>cl ns name w1. body cl ns name w1 = ((err, out), w') \<Longrightarrow> view w' = view w1"
  shows "view w' = view w"
  using with_named_cases [OF run] body by metis

lemma cmdGet_view: "cmdGet C args w = ((err, out), w') \<Longrightarrow> view w' = view w"
  unfolding cmdGet_def
proof (erule body_view)
  fix cl ns name w1
  obtain r w2 where g: "cli_get C cl ns name w1 = (r, w2)" by fastforce
  obtain now w3 where n: "cli_now C w2 = (now, w3)" by fastforce
  have v: "view w2 = view w1" "view w3 = view w1"
    using get_view [of cl ns name w1] now_view [of w2] g n by simp_all
  assume "(case cli_get C cl ns name w1 of (Inl err, w1) \<Rightarrow> fails err w1
      | (Inr cr, w1) \<Rightarrow> let (now, w2) = cli_now C w1 in prints (renderRollout (cli_Log C) (clock_text C) cr now) w2) =
    ((err, out), w')"
  then show "view w' = view w1" using g n v by (cases r) (auto simp: fails_def prints_def)
qed

lemma cmdDelete_failed: "cmdDelete C args w = ((Some err, out), w') \<Longrightarrow> view w' = view w"
  unfolding cmdDelete_def
proof (erule body_view)
  fix cl ns name w1
  assume run: "(case cli_delete C cl ns name w1 of (Some err, w1) \<Rightarrow> fails err w1
      | (None, w1) \<Rightarrow> prints (''canaryrollout/'' @ name @ '' deleted'' @ newline) w1) = ((Some err, out), w')"
  obtain e w2 where d: "cli_delete C cl ns name w1 = (e, w2)" by fastforce
  show "view w' = view w1" using run d delete_failed [of cl ns name w1 _ w2] by (cases e) (auto simp: fails_def prints_def)
qed

lemma watch_frame_view: "view (snd (watch_frame C cl ns name refresh w)) = view w"
proof -
  obtain r w1 where g: "cli_get C cl ns name w = (r, w1)" by fastforce
  obtain now w2 where n: "cli_now C w1 = (now, w2)" by fastforce
  have "view w1 = view w" "view w2 = view w" using get_view [of cl ns name w] now_view [of w1] g n by simp_all
  then show ?thesis using g n by (cases r) (simp_all add: watch_frame_def Let_def)
qed

lemma watch_loop_view:
  "(\<And>w. view (snd (frame w)) = view w) \<Longrightarrow> view (snd (watch_loop frame events w)) = view w"
proof (induction frame events w rule: watch_loop.induct)
  case (3 frame es w)
  obtain out w1 where f: "frame w = (out, w1)" by fastforce
  then have "view w1 = view w" using 3(2) [of w] by simp
  moreover have "view (snd (watch_loop frame es w1)) = view w1" using 3 f by simp
  ultimately show ?case using f by (simp add: split_def Let_def)
qed simp_all

lemma cmdWatch_view: "view (snd (cmdWatch C events args w)) = view w"
proof (cases "parse watch_flags (common_names @ [''interval'']) args (registerCommon, 2)")
  case (Inr p)
  obtain cf n ps where p: "p = ((cf, n), ps)" by (metis prod.collapse)
  show ?thesis
  proof (cases ps)
    case (Cons name rest)
    obtain r w1 where nc: "newClient C (kubeconfig cf) w = (r, w1)" by fastforce
    then have v1: "view w1 = view w" using newClient_view [of "kubeconfig cf" w] by simp
    show ?thesis
    proof (cases r)
      case (Inr cl)
      let ?frame = "watch_frame C cl (namespace cf) name (watch_refresh n)"
      obtain out w2 where f: "?frame w1 = (out, w2)" by fastforce
      have "view w2 = view w" using watch_frame_view [of cl "namespace cf" name "watch_refresh n" w1] f v1 by simp
      moreover have "view (snd (watch_loop ?frame events w2)) = view w2"
        by (rule watch_loop_view) (rule watch_frame_view)
      ultimately show ?thesis
        using \<open>parse watch_flags (common_names @ [''interval'']) args (registerCommon, 2) = Inr p\<close> p Cons nc Inr f
        by (simp add: cmdWatch_def Let_def split_def)
    qed (use Inr p Cons nc v1 in \<open>simp add: cmdWatch_def\<close>)
  qed (use Inr p in \<open>simp add: cmdWatch_def\<close>)
qed (simp add: cmdWatch_def)

lemma patch_failed:
  "cmdPause C args w = ((Some e, out), w') \<or> cmdResume C args w = ((Some e, out), w') \<or>
   cmdAbort C args w = ((Some e, out), w') \<Longrightarrow> view w' = view w"
  unfolding cmdPause_def cmdResume_def cmdAbort_def
  by (elim disjE; drule patchRollout_outcome)
    (simp_all add: set_paused_def set_resumed_def set_aborted_def)

lemma finish_failed:
  assumes "finish interrupted r = (Some (code, out, err), w')" "code \<noteq> 0"
  shows "\<exists>e tx. r = ((Some e, tx), w')"
  using assms by (auto simp: finish_def split: prod.splits option.splits if_splits)

lemma if_branch: "(if b then x else y) = z \<Longrightarrow> (x = z \<Longrightarrow> P) \<Longrightarrow> (y = z \<Longrightarrow> P) \<Longrightarrow> P"
  by (simp split: if_splits)

lemma statctl_failed:
  assumes run: "statctl C interrupted events argv w = (Some (code, out, err), w')" and code: "code \<noteq> 0"
  shows "view w' = view w"
proof (cases argv)
  case Nil
  then show ?thesis using run by (simp add: statctl_def)
next
  case (Cons sub args)
  obtain werr wout w1 where watch: "cmdWatch C events args w = ((werr, wout), w1)" by (metis prod.collapse)
  have w1: "view w1 = view w" using cmdWatch_view [of events args w] watch by simp
  let ?runs = "\<lambda>r. r = cmdList C args w \<or> r = cmdGet C args w \<or> r = cmdApply C args w \<or> r = cmdPause C args w \<or>
    r = cmdResume C args w \<or> r = cmdAbort C args w \<or> r = cmdDelete C args w \<or> snd r = w1"
  have other: "?runs ((e, wout), w1)" for e by simp
  have cases: "w' = w \<or> (\<exists>r. finish interrupted r = (Some (code, out, err), w') \<and> ?runs r)"
    using run unfolding Cons statctl_def list.case watch prod.case
  proof (elim if_branch)
    assume "(case werr of None \<Rightarrow> (None, w1) | Some err \<Rightarrow> finish interrupted ((err, wout), w1)) =
      (Some (code, out, err), w')"
    then show ?thesis using other by (cases werr) auto
  qed (blast | simp)+
  show ?thesis
  proof (cases "w' = w")
    case False
    then obtain r where fin: "finish interrupted r = (Some (code, out, err), w')" and runs: "?runs r"
      using cases by blast
    obtain e tx where r: "r = ((Some e, tx), w')" using finish_failed [OF fin code] by blast
    consider "cmdList C args w = ((Some e, tx), w')" | "cmdGet C args w = ((Some e, tx), w')"
      | "cmdApply C args w = ((Some e, tx), w')" | "cmdDelete C args w = ((Some e, tx), w')" | "w' = w1"
      | "cmdPause C args w = ((Some e, tx), w') \<or> cmdResume C args w = ((Some e, tx), w') \<or>
         cmdAbort C args w = ((Some e, tx), w')"
      using runs unfolding r by auto
    then show ?thesis
    proof cases
      case 1
      then show ?thesis using cmdList_view [of args w] by simp
    next
      case 2
      then show ?thesis by (rule cmdGet_view)
    next
      case 3
      then show ?thesis by (drule_tac cmdApply_outcome) simp
    next
      case 4
      then show ?thesis by (rule cmdDelete_failed)
    next
      case 5
      then show ?thesis using w1 by simp
    next
      case 6
      then show ?thesis by (rule patch_failed)
    qed
  qed simp
qed

end

interpretation memq: quiet_store "cluster_cli m" keyed for m
  by unfold_locales (simp_all add: cluster_cli_def)


section \<open>A failed command\<close>

text \<open>
  C30: a run of \<open>statctl\<close>, whatever its subcommand and arguments, that ends with an exit code other
  than 0 has changed no stored rollout: there is no half applied command. This holds for every
  client whose reads change nothing and whose failed writes change nothing.
\<close>

theorem failed_commands_change_nothing:
  assumes "quiet_store C view" "statctl C interrupted events argv w = (Some (code, out, err), w')" "code \<noteq> 0"
  shows "view w' = view w"
  using assms(2,3) by (rule quiet_store.statctl_failed [OF assms(1)])

lemma pause_missing_run:
  "\<exists>out err w'. statctl (cluster_cli (demo_at 0 0)) (\<lambda>c. False) [] (''pause'' # demo_args)
     ((demo_cluster (demo_at 0 20) 0)\<lparr>stored_rollouts := Map.empty\<rparr>) = (Some (1, out, err), w')"
proof -
  let ?C = "cluster_cli (demo_at 0 0)"
  have "newClient ?C '''' c = (Inr '''', c)" for c by (simp add: newClient_def cluster_cli_def)
  then show ?thesis
    by (simp add: statctl_def cmdPause_def patchRollout_def with_named_def demo_args_parse)
      (simp add: keyed_def fails_def finish_def)
qed

theorem failed_commands_change_nothing_witness:
  "\<exists>out err w'. statctl (cluster_cli (demo_at 0 0)) (\<lambda>c. False) [] (''pause'' # demo_args)
     ((demo_cluster (demo_at 0 20) 0)\<lparr>stored_rollouts := Map.empty\<rparr>) = (Some (1, out, err), w') \<and>
     keyed w' = Map.empty"
proof -
  obtain out err w' where run: "statctl (cluster_cli (demo_at 0 0)) (\<lambda>c. False) [] (''pause'' # demo_args)
      ((demo_cluster (demo_at 0 20) 0)\<lparr>stored_rollouts := Map.empty\<rparr>) = (Some (1, out, err), w')"
    using pause_missing_run by blast
  have "keyed w' = Map.empty"
    using failed_commands_change_nothing [OF memq.quiet_store_axioms run] by (simp add: fun_eq_iff keyed_def)
  then show ?thesis using run by blast
qed

section \<open>The live dashboard\<close>

lemma watch_refresh_range:
  "10 ^ 9 \<le> sint (watch_refresh n)"
  by (simp add: watch_refresh_def Let_def dur_lt_def Second_def sint_i64)

lemma watch_refresh_exact:
  assumes "1 \<le> n" "n \<le> 9223372036"
  shows "sint (watch_refresh n) = n * 10 ^ 9"
proof -
  have "i64 n * Second = i64 (n * 10 ^ 9)"
    by (simp add: Second_def i64_def)
  moreover have "sint (i64 (n * 10 ^ 9)) = n * 10 ^ 9"
    using assms by (intro sint_i64) simp_all
  ultimately show ?thesis
    using assms by (simp add: watch_refresh_def Let_def dur_lt_def Second_def sint_i64)
qed

text \<open>The frames of \<open>k\<close> renderings, one after the other\<close>

fun frames :: "('w \<Rightarrow> string \<times> 'w) \<Rightarrow> nat \<Rightarrow> 'w \<Rightarrow> string list \<times> 'w" where
  "frames frame 0 w = ([], w)"
| "frames frame (Suc k) w =
     (let (out, w1) = frame w; (outs, w2) = frames frame k w1 in (out # outs, w2))"

lemma watch_loop_frames:
  "watch_loop frame (replicate k Tick @ Cancelled # es) w =
     (let (outs, w') = frames frame k w in ((Some None, concat outs @ csi ''?25h''), w'))"
  by (induction k arbitrary: w) (simp_all add: Let_def split_def)

lemma frames_shape:
  "(\<And>w. \<exists>body. fst (frame w) = pre @ body @ post) \<Longrightarrow>
   length (fst (frames frame k w)) = k \<and> (\<forall>f \<in> set (fst (frames frame k w)). \<exists>body. f = pre @ body @ post)"
  by (induction k arbitrary: w) (auto simp: Let_def split_def)

lemma watch_frame_shape:
  "\<exists>body. fst (watch_frame C cl ns name refresh w) =
     csi ''H'' @ body @ newline @ ''(refreshing every '' @ dur_String refresh @ '' '' @ em_dash @
       '' press Ctrl+C to exit)'' @ newline @ csi ''J''"
  by (simp add: watch_frame_def Let_def split_def)

text \<open>
  C32: a session of \<open>watch\<close> with usable arguments ends, without an error, when the context is
  cancelled after any number of ticks, whatever the server answered to the reads in between. It
  has cleared the screen once and painted one frame at the start and one per tick; every frame
  goes back to the top, closes with the line naming the refresh interval and erases what is
  below it; at the end the cursor is made visible. The interval is never below a second, and is
  the requested one for every number of seconds that fits a duration.
\<close>

theorem watch_session:
  assumes args: "parse watch_flags (common_names @ [''interval'']) args (registerCommon, 2) = Inr ((cf, n), name # rest)"
    and client: "newClient C (kubeconfig cf) w = (Inr cl, w1)"
  shows "\<exists>outs w'. cmdWatch C (replicate k Tick @ Cancelled # es) args w =
      ((Some None, csi ''2J'' @ concat outs @ csi ''?25h''), w') \<and>
    (outs, w') = frames (watch_frame C cl (namespace cf) name (watch_refresh n)) (Suc k) w1 \<and> length outs = Suc k \<and>
    (\<forall>f \<in> set outs. \<exists>body. f = csi ''H'' @ body @ newline @ ''(refreshing every '' @ dur_String (watch_refresh n) @
       '' '' @ em_dash @ '' press Ctrl+C to exit)'' @ newline @ csi ''J'') \<and>
    10 ^ 9 \<le> sint (watch_refresh n) \<and>
    (1 \<le> n \<and> n \<le> 9223372036 \<longrightarrow> sint (watch_refresh n) = n * 10 ^ 9)"
proof -
  let ?frame = "watch_frame C cl (namespace cf) name (watch_refresh n)"
  obtain outs w' where fs: "frames ?frame (Suc k) w1 = (outs, w')" by fastforce
  have "cmdWatch C (replicate k Tick @ Cancelled # es) args w = ((Some None, csi ''2J'' @ concat outs @ csi ''?25h''), w')"
    using args client fs by (auto simp: cmdWatch_def watch_loop_frames Let_def split_def)
  then show ?thesis
    using fs frames_shape [of ?frame, OF watch_frame_shape, of "Suc k" w1] watch_refresh_range watch_refresh_exact
    by (auto simp del: frames.simps)
qed

lemma demo_watch_parse:
  "parse watch_flags (common_names @ [''interval'']) [''demo'', ''--interval=5''] (registerCommon, 2) =
     Inr ((registerCommon, 5), [''demo''])"
  by (simp add: parse_def splitArgs_def flag_like_def flag_name_def split_value_def common_names_def
      watch_flags_def ParseInt0_def ParseUint0_def digit_value_def Let_def)

theorem watch_session_witness:
  "\<exists>outs w'. cmdWatch (cluster_cli (demo_at 0 0)) [Tick, Tick, Cancelled] [''demo'', ''--interval=5'']
       (demo_cluster (demo_at 0 20) 0) = ((Some None, csi ''2J'' @ concat outs @ csi ''?25h''), w') \<and>
     length outs = 3 \<and> sint (watch_refresh 5) = 5000000000"
proof -
  have "newClient (cluster_cli (demo_at 0 0)) '''' c = (Inr '''', c)" for c
    by (simp add: newClient_def cluster_cli_def)
  then show ?thesis
    using watch_session [of "[''demo'', ''--interval=5'']" registerCommon 5 "''demo''" "[]" "cluster_cli (demo_at 0 0)"
        "demo_cluster (demo_at 0 20) 0" "''''" "demo_cluster (demo_at 0 20) 0" 2 "[]", OF demo_watch_parse]
    by (auto simp: registerCommon_def numeral_2_eq_2 numeral_3_eq_3)
qed

end
