(* ===== verification/Heap_Copy.thy ===== *)
theory Heap_Copy
  imports Types
begin

text \<open>
  The Go heap the deep copies of the API types work on: addresses, cells that hold the backing
  array of a slice or the struct behind a pointer, and the two operations that allocate,
  \<open>make\<close> and \<open>new\<close>. What a deep copy has to achieve is the locale \<open>deep_copier\<close>; the lemmas after
  it build the copier of a struct from those of its slices, pointers and embedded structs.
\<close>

section \<open>Values with addresses\<close>

type_synonym addr = nat

text \<open>A slice that is not nil: the window of a backing array. The capacity plays no part in a copy.\<close>

record slice =
  sl_addr :: addr
  sl_off :: nat
  sl_len :: nat

text \<open>
  The structs of the API as the heap holds them: a slice field is \<open>None\<close> when it is nil, a
  pointer field too. Strings are immutable and are values. \<open>'m\<close> stands for \<open>metav1.ObjectMeta\<close> and \<open>ListMeta\<close>,
  structs of a library with references of their own.
\<close>

record go_analysis =
  ga_Alpha :: float64
  ga_Beta :: float64
  ga_AnalysisIntervalSeconds :: int32
  ga_Metrics :: "slice option"

record go_spec =
  gs_TargetRef :: string
  gs_StableServiceRef :: string
  gs_CanaryServiceRef :: string
  gs_VirtualServiceRef :: string
  gs_Steps :: "slice option"
  gs_Paused :: bool
  gs_Abort :: bool
  gs_PrometheusURL :: string
  gs_Analysis :: "addr option"

record go_status =
  gt_Phase :: rollout_phase
  gt_CurrentStep :: int32
  gt_CurrentWeight :: int32
  gt_LastTransitionTime :: gotime
  gt_Message :: string
  gt_AnalysisState :: "slice option"

record 'm go_rollout =
  gr_TypeMeta :: "string \<times> string"
  gr_ObjectMeta :: 'm
  gr_Spec :: go_spec
  gr_Status :: go_status

record 'm go_list =
  gl_TypeMeta :: "string \<times> string"
  gl_ListMeta :: 'm
  gl_Items :: "slice option"

datatype 'm cell =
    Steps_array (steps_array: "canary_step list")
  | Metrics_array (metrics_array: "sprt_metric list")
  | States_array (states_array: "sprt_metric_state list")
  | Rollouts_array (rollouts_array: "'m go_rollout list")
  | Labels_array (labels_array: "(string \<times> string) list")
  | Step_struct (step_struct: canary_step)
  | Metric_struct (metric_struct: sprt_metric)
  | State_struct (state_struct: sprt_metric_state)
  | Analysis_struct (analysis_struct: go_analysis)
  | Spec_struct (spec_struct: go_spec)
  | Status_struct (status_struct: go_status)
  | Rollout_struct (rollout_struct: "'m go_rollout")
  | List_struct (list_struct: "'m go_list")

text \<open>Addresses below \<open>next_addr\<close> have been handed out.\<close>

record 'm heap =
  cells :: "addr \<Rightarrow> 'm cell option"
  next_addr :: addr

definition new_cell :: "'m cell \<Rightarrow> 'm heap \<Rightarrow> addr \<times> 'm heap" where
  "new_cell c h =
     (next_addr h, h\<lparr> cells := (cells h)(next_addr h \<mapsto> c), next_addr := next_addr h + 1 \<rparr>)"

definition store_cell :: "addr \<Rightarrow> 'm cell \<Rightarrow> 'm heap \<Rightarrow> 'm heap" where
  "store_cell a c h = h\<lparr> cells := (cells h)(a \<mapsto> c) \<rparr>"

section \<open>Slices and pointers\<close>

definition slice_elems :: "('m cell \<Rightarrow> 'a list) \<Rightarrow> 'm heap \<Rightarrow> slice \<Rightarrow> 'a list" where
  "slice_elems dest h sl =
     (case cells h (sl_addr sl) of
        None \<Rightarrow> []
      | Some c \<Rightarrow> take (sl_len sl) (drop (sl_off sl) (dest c)))"

text \<open>Go's \<open>copy(dst, src)\<close>: as many elements as both have.\<close>

definition go_copy :: "'a list \<Rightarrow> 'a list \<Rightarrow> 'a list" where
  "go_copy dst src = take (length dst) src @ drop (length src) dst"

text \<open>\<open>*out = make([]T, len(*in)); copy(*out, *in)\<close>, unless the slice is nil\<close>

fun copy_slice ::
    "('a list \<Rightarrow> 'm cell) \<Rightarrow> ('m cell \<Rightarrow> 'a list) \<Rightarrow> 'a \<Rightarrow> slice option \<Rightarrow> 'm heap \<Rightarrow> slice option \<times> 'm heap" where
  "copy_slice con dest zero None h = (None, h)"
| "copy_slice con dest zero (Some sl) h =
     (let (a, h1) = new_cell (con (replicate (sl_len sl) zero)) h;
          out = \<lparr> sl_addr = a, sl_off = 0, sl_len = sl_len sl \<rparr>
      in (Some out, store_cell a (con (go_copy (slice_elems dest h1 out) (slice_elems dest h1 sl))) h1))"

text \<open>\<open>out := new(T); in.DeepCopyInto(out)\<close>, unless the pointer is nil\<close>

fun copy_pointer ::
    "('v \<Rightarrow> 'm cell) \<Rightarrow> ('m cell \<Rightarrow> 'v) \<Rightarrow> 'v \<Rightarrow> ('v \<Rightarrow> 'm heap \<Rightarrow> 'v \<times> 'm heap) \<Rightarrow>
     addr option \<Rightarrow> 'm heap \<Rightarrow> addr option \<times> 'm heap" where
  "copy_pointer con dest zero into None h = (None, h)"
| "copy_pointer con dest zero into (Some p) h =
     (let (a, h1) = new_cell (con zero) h;
          (v, h2) = into (dest (the (cells h1 p))) h1
      in (Some a, store_cell a (con v) h2))"

section \<open>What a deep copy promises\<close>

text \<open>Nothing allocated before has changed.\<close>

definition extends :: "'m heap \<Rightarrow> 'm heap \<Rightarrow> bool" where
  "extends h h' \<longleftrightarrow> next_addr h \<le> next_addr h' \<and> (\<forall>a < next_addr h. cells h' a = cells h a)"

lemma extends_refl [simp]: "extends h h"
  by (simp add: extends_def)

lemma extends_trans: "extends h h' \<Longrightarrow> extends h' h'' \<Longrightarrow> extends h h''"
  by (auto simp: extends_def)

lemma extends_next: "extends h h' \<Longrightarrow> next_addr h \<le> next_addr h'"
  by (simp add: extends_def)

lemma extends_cells: "extends h h' \<Longrightarrow> a < next_addr h \<Longrightarrow> cells h' a = cells h a"
  by (simp add: extends_def)

lemma extends_new: "new_cell c h = (a, h') \<Longrightarrow> extends h h'"
  by (auto simp: new_cell_def extends_def)

lemma extends_store: "extends h h' \<Longrightarrow> next_addr h \<le> a \<Longrightarrow> extends h (store_cell a c h')"
  by (simp add: extends_def store_cell_def)

lemma store_cell_sel [simp]:
  "cells (store_cell a c h) b = (if b = a then Some c else cells h b)"
  "next_addr (store_cell a c h) = next_addr h"
  by (simp_all add: store_cell_def)

text \<open>Two heaps that differ at most on a set of addresses.\<close>

definition same_outside :: "addr set \<Rightarrow> 'm heap \<Rightarrow> 'm heap \<Rightarrow> bool" where
  "same_outside A h h' \<longleftrightarrow> (\<forall>a. a \<notin> A \<longrightarrow> cells h' a = cells h a)"

text \<open>
  A copier of a kind of value: which values are \<open>good\<close> in a heap (no dangling reference, slices
  within their arrays), the addresses a value reaches, what a program sees through it, and the
  copy. The copy leaves what was allocated alone, reaches only new addresses, and shows the same.
\<close>

locale deep_copier =
  fixes good :: "'m heap \<Rightarrow> 'v \<Rightarrow> bool"
    and reach :: "'m heap \<Rightarrow> 'v \<Rightarrow> addr set"
    and sees :: "'m heap \<Rightarrow> 'v \<Rightarrow> 's"
    and copy :: "'v \<Rightarrow> 'm heap \<Rightarrow> 'v \<times> 'm heap"
  assumes reach_old: "good h v \<Longrightarrow> reach h v \<subseteq> {..<next_addr h}"
    and good_extends: "good h v \<Longrightarrow> extends h h' \<Longrightarrow> good h' v"
    and reach_frame: "(\<And>a. a \<in> reach h v \<Longrightarrow> cells h' a = cells h a) \<Longrightarrow> reach h' v = reach h v"
    and sees_frame: "(\<And>a. a \<in> reach h v \<Longrightarrow> cells h' a = cells h a) \<Longrightarrow> sees h' v = sees h v"
    and copy_extends: "good h v \<Longrightarrow> copy v h = (v', h') \<Longrightarrow> extends h h'"
    and copy_fresh: "good h v \<Longrightarrow> copy v h = (v', h') \<Longrightarrow> reach h' v' \<subseteq> {next_addr h..<next_addr h'}"
    and copy_sees: "good h v \<Longrightarrow> copy v h = (v', h') \<Longrightarrow> sees h' v' = sees h v"
begin

lemma reach_extends: "good h v \<Longrightarrow> extends h h' \<Longrightarrow> reach h' v = reach h v"
  using reach_old by (intro reach_frame) (auto simp: extends_def)

lemma sees_extends: "good h v \<Longrightarrow> extends h h' \<Longrightarrow> sees h' v = sees h v"
  using reach_old by (intro sees_frame) (auto simp: extends_def)

lemma original_kept: "good h v \<Longrightarrow> copy v h = (v', h') \<Longrightarrow> sees h' v = sees h v \<and> reach h' v = reach h v"
  using copy_extends sees_extends reach_extends by blast

text \<open>Whatever is written through the copy, the original shows what it showed, and conversely.\<close>

lemma independent:
  assumes "good h v" "copy v h = (v', h')"
  shows "same_outside (reach h' v') h' h'' \<Longrightarrow> sees h'' v = sees h v"
    and "same_outside (reach h' v) h' h'' \<Longrightarrow> sees h'' v' = sees h v"
proof -
  have kept: "sees h' v = sees h v" "reach h' v = reach h v" using original_kept [OF assms] by simp_all
  have apart: "reach h' v \<inter> reach h' v' = {}"
    using reach_old [OF assms(1)] copy_fresh [OF assms] unfolding kept(2) by fastforce
  show "sees h'' v = sees h v" if "same_outside (reach h' v') h' h''"
    using that apart kept(1) sees_frame [of h' v h''] by (auto simp: same_outside_def)
  show "sees h'' v' = sees h v" if "same_outside (reach h' v) h' h''"
    using that apart copy_sees [OF assms] sees_frame [of h' v' h''] by (auto simp: same_outside_def)
qed

end

section \<open>Copiers of slices, pointers, pairs and structs\<close>

definition slice_good :: "('m cell \<Rightarrow> 'a list) \<Rightarrow> 'm heap \<Rightarrow> slice option \<Rightarrow> bool" where
  "slice_good dest h s \<longleftrightarrow>
     (case s of
        None \<Rightarrow> True
      | Some sl \<Rightarrow> sl_addr sl < next_addr h \<and> length (slice_elems dest h sl) = sl_len sl)"

definition slice_reach :: "'m heap \<Rightarrow> slice option \<Rightarrow> addr set" where
  "slice_reach h s = (case s of None \<Rightarrow> {} | Some sl \<Rightarrow> {sl_addr sl})"

definition slice_sees :: "('m cell \<Rightarrow> 'a list) \<Rightarrow> 'm heap \<Rightarrow> slice option \<Rightarrow> 'a list option" where
  "slice_sees dest h s = map_option (slice_elems dest h) s"

lemma slice_elems_frame: "cells h' (sl_addr sl) = cells h (sl_addr sl) \<Longrightarrow> slice_elems dest h' sl = slice_elems dest h sl"
  by (simp add: slice_elems_def)

lemma slice_copier:
  assumes dest: "\<And>xs. dest (con xs) = xs"
  shows "deep_copier (slice_good dest) slice_reach (slice_sees dest) (copy_slice con dest zero)"
proof
  fix h v v' h'
  assume good: "slice_good dest h v" and copy: "copy_slice con dest zero v h = (v', h')"
  show "extends h h'" using copy by (cases v) (auto simp: new_cell_def store_cell_def extends_def Let_def)
  show "slice_reach h' v' \<subseteq> {next_addr h..<next_addr h'}"
    using copy by (cases v) (auto simp: new_cell_def slice_reach_def Let_def)
  show "slice_sees dest h' v' = slice_sees dest h v"
  proof (cases v)
    case (Some sl)
    let ?h1 = "snd (new_cell (con (replicate (sl_len sl) zero)) h)"
    have sl: "length (slice_elems dest h sl) = sl_len sl" "sl_addr sl < next_addr h"
      using good Some by (simp_all add: slice_good_def)
    have src: "slice_elems dest ?h1 sl = slice_elems dest h sl"
      by (rule slice_elems_frame) (use sl(2) in \<open>simp add: new_cell_def\<close>)
    have "slice_elems dest ?h1 \<lparr>sl_addr = next_addr h, sl_off = 0, sl_len = sl_len sl\<rparr> = replicate (sl_len sl) zero"
      by (simp add: slice_elems_def new_cell_def dest)
    then show ?thesis
      using copy Some src sl(1) dest
      by (auto simp: new_cell_def slice_sees_def slice_elems_def [of dest h'] go_copy_def Let_def)
  qed (use copy in \<open>simp add: slice_sees_def\<close>)
next
  fix h v h'
  show "slice_good dest h v \<Longrightarrow> extends h h' \<Longrightarrow> slice_good dest h' v"
    by (auto simp: slice_good_def extends_def slice_elems_def split: option.splits)
  show "slice_good dest h v \<Longrightarrow> slice_reach h v \<subseteq> {..<next_addr h}"
    by (auto simp: slice_good_def slice_reach_def split: option.splits)
  show "slice_reach h' v = slice_reach h v" by (simp add: slice_reach_def)
  assume same: "\<And>a. a \<in> slice_reach h v \<Longrightarrow> cells h' a = cells h a"
  show "slice_sees dest h' v = slice_sees dest h v"
    using same slice_elems_frame [of h' _ h dest] by (cases v) (simp_all add: slice_reach_def slice_sees_def)
qed

definition pointer_good ::
    "('m cell \<Rightarrow> 'v) \<Rightarrow> ('m cell \<Rightarrow> bool) \<Rightarrow> ('m heap \<Rightarrow> 'v \<Rightarrow> bool) \<Rightarrow> 'm heap \<Rightarrow> addr option \<Rightarrow> bool" where
  "pointer_good dest is_struct good h p \<longleftrightarrow>
     (case p of
        None \<Rightarrow> True
      | Some a \<Rightarrow> a < next_addr h \<and> (case cells h a of None \<Rightarrow> False | Some c \<Rightarrow> is_struct c \<and> good h (dest c)))"

definition pointer_reach :: "('m cell \<Rightarrow> 'v) \<Rightarrow> ('m heap \<Rightarrow> 'v \<Rightarrow> addr set) \<Rightarrow> 'm heap \<Rightarrow> addr option \<Rightarrow> addr set" where
  "pointer_reach dest reach h p =
     (case p of
        None \<Rightarrow> {}
      | Some a \<Rightarrow> insert a (case cells h a of None \<Rightarrow> {} | Some c \<Rightarrow> reach h (dest c)))"

definition pointer_sees :: "('m cell \<Rightarrow> 'v) \<Rightarrow> ('m heap \<Rightarrow> 'v \<Rightarrow> 's) \<Rightarrow> 'm heap \<Rightarrow> addr option \<Rightarrow> 's option" where
  "pointer_sees dest sees h p =
     (case p of
        None \<Rightarrow> None
      | Some a \<Rightarrow> map_option (\<lambda>c. sees h (dest c)) (cells h a))"

context deep_copier
begin

lemma pointer_copier:
  assumes dest: "\<And>v. dest (con v) = v"
  shows "deep_copier (pointer_good dest is_struct good) (pointer_reach dest reach) (pointer_sees dest sees)
    (copy_pointer con dest zero copy)"
proof
  fix h p p' h'
  assume good_p: "pointer_good dest is_struct good h p" and copy_p: "copy_pointer con dest zero copy p h = (p', h')"
  have "extends h h' \<and> pointer_reach dest reach h' p' \<subseteq> {next_addr h..<next_addr h'} \<and>
      pointer_sees dest sees h' p' = pointer_sees dest sees h p"
  proof (cases p)
    case (Some a)
    obtain c where c: "a < next_addr h" "cells h a = Some c" "good h (dest c)"
      using good_p Some by (auto simp: pointer_good_def split: option.splits)
    let ?h1 = "h\<lparr>cells := (cells h)(next_addr h \<mapsto> con zero), next_addr := next_addr h + 1\<rparr>"
    have ext1: "extends h ?h1" by (rule extends_new) (simp add: new_cell_def)
    obtain v h2 where v: "copy (dest c) ?h1 = (v, h2)" by fastforce
    have good1: "good ?h1 (dest c)" using good_extends [OF c(3) ext1] .
    have ext2: "extends ?h1 h2" using copy_extends [OF good1 v] .
    have fresh: "reach h2 v \<subseteq> {next_addr h + 1..<next_addr h2}" using copy_fresh [OF good1 v] by simp
    have res: "p' = Some (next_addr h)" "h' = store_cell (next_addr h) (con v) h2"
      using copy_p Some v c by (auto simp: new_cell_def)
    have same: "cells h' b = cells h2 b" if "b \<in> reach h2 v" for b using that fresh res by auto
    have "sees h' v = sees h (dest c)"
      using sees_frame [OF same] copy_sees [OF good1 v] sees_extends [OF c(3) ext1] by simp
    moreover have "reach h' v = reach h2 v" by (rule reach_frame [OF same])
    moreover have "extends h h'" unfolding res(2) by (intro extends_store extends_trans [OF ext1 ext2]) simp
    moreover have "next_addr h + 1 \<le> next_addr h2" using extends_next [OF ext2] by simp
    ultimately show ?thesis
      using fresh res Some c dest by (auto simp: pointer_reach_def pointer_sees_def)
  qed (use copy_p in \<open>simp add: pointer_reach_def pointer_sees_def\<close>)
  then show "extends h h'" "pointer_reach dest reach h' p' \<subseteq> {next_addr h..<next_addr h'}"
    "pointer_sees dest sees h' p' = pointer_sees dest sees h p" by simp_all
next
  fix h p h'
  show "pointer_good dest is_struct good h p \<Longrightarrow> extends h h' \<Longrightarrow> pointer_good dest is_struct good h' p"
    using good_extends by (auto simp: pointer_good_def extends_def split: option.splits)
  show "pointer_good dest is_struct good h p \<Longrightarrow> pointer_reach dest reach h p \<subseteq> {..<next_addr h}"
    using reach_old by (fastforce simp: pointer_good_def pointer_reach_def split: option.splits)
  show "pointer_reach dest reach h' p = pointer_reach dest reach h p"
    if "\<And>a. a \<in> pointer_reach dest reach h p \<Longrightarrow> cells h' a = cells h a"
  proof (cases p)
    case (Some a)
    then have a: "cells h' a = cells h a" using that by (simp add: pointer_reach_def)
    show ?thesis
    proof (cases "cells h a")
      case (Some c)
      then have "reach h' (dest c) = reach h (dest c)"
        using that \<open>p = Some a\<close> by (intro reach_frame) (simp add: pointer_reach_def)
      then show ?thesis using a Some \<open>p = Some a\<close> by (simp add: pointer_reach_def)
    qed (use a Some in \<open>simp add: pointer_reach_def\<close>)
  qed (simp add: pointer_reach_def)
  show "pointer_sees dest sees h' p = pointer_sees dest sees h p"
    if "\<And>a. a \<in> pointer_reach dest reach h p \<Longrightarrow> cells h' a = cells h a"
  proof (cases p)
    case (Some a)
    then have a: "cells h' a = cells h a" using that by (simp add: pointer_reach_def)
    show ?thesis
    proof (cases "cells h a")
      case (Some c)
      then have "sees h' (dest c) = sees h (dest c)"
        using that \<open>p = Some a\<close> by (intro sees_frame) (simp add: pointer_reach_def)
      then show ?thesis using a Some \<open>p = Some a\<close> by (simp add: pointer_sees_def)
    qed (use a Some in \<open>simp add: pointer_sees_def\<close>)
  qed (simp add: pointer_sees_def)
qed

text \<open>A struct: some of its fields (\<open>parts\<close>) are copied deeply, the rest is copied with \<open>*out = *in\<close>.\<close>

lemma struct_copier:
  assumes parts: "\<And>w v. parts (put w v) = v" and rest: "\<And>w v. rest (put w v) = rest w"
    and into: "\<And>w h. into w h = (let (v, h') = copy (parts w) h in (put w v, h'))"
  shows "deep_copier (\<lambda>h w. good h (parts w)) (\<lambda>h w. reach h (parts w)) (\<lambda>h w. (rest w, sees h (parts w))) into"
proof
  fix h w w' h'
  assume g: "good h (parts w)" and "into w h = (w', h')"
  then obtain v where v: "copy (parts w) h = (v, h')" "w' = put w v"
    unfolding into by (auto simp: Let_def split: prod.splits)
  show "extends h h'" using copy_extends [OF g v(1)] .
  show "reach h' (parts w') \<subseteq> {next_addr h..<next_addr h'}" using copy_fresh [OF g v(1)] v(2) parts by simp
  show "(rest w', sees h' (parts w')) = (rest w, sees h (parts w))" using copy_sees [OF g v(1)] v(2) parts rest by simp
next
  fix h w h'
  show "good h (parts w) \<Longrightarrow> extends h h' \<Longrightarrow> good h' (parts w)" by (rule good_extends)
  show "good h (parts w) \<Longrightarrow> reach h (parts w) \<subseteq> {..<next_addr h}" by (rule reach_old)
  assume same: "\<And>a. a \<in> reach h (parts w) \<Longrightarrow> cells h' a = cells h a"
  show "reach h' (parts w) = reach h (parts w)" using same by (rule reach_frame)
  show "(rest w, sees h' (parts w)) = (rest w, sees h (parts w))" using sees_frame [OF same] by simp
qed

end

text \<open>Two fields, copied one after the other.\<close>

lemma pair_copier:
  assumes one: "deep_copier good1 reach1 sees1 copy1" and two: "deep_copier good2 reach2 sees2 copy2"
  shows "deep_copier (\<lambda>h p. good1 h (fst p) \<and> good2 h (snd p)) (\<lambda>h p. reach1 h (fst p) \<union> reach2 h (snd p))
    (\<lambda>h p. (sees1 h (fst p), sees2 h (snd p)))
    (\<lambda>p h. let (v', h1) = copy1 (fst p) h; (w', h2) = copy2 (snd p) h1 in ((v', w'), h2))"
proof
  fix h p p' h'
  assume "good1 h (fst p) \<and> good2 h (snd p)"
    and run: "(let (v', h1) = copy1 (fst p) h; (w', h2) = copy2 (snd p) h1 in ((v', w'), h2)) = (p', h')"
  then have g: "good1 h (fst p)" "good2 h (snd p)" by simp_all
  obtain v' h1 where v: "copy1 (fst p) h = (v', h1)" by fastforce
  obtain w' where w: "copy2 (snd p) h1 = (w', h')" and p': "p' = (v', w')"
    using run v by (auto simp: Let_def split: prod.splits)
  have e1: "extends h h1" using deep_copier.copy_extends [OF one g(1) v] .
  have g2: "good2 h1 (snd p)" using deep_copier.good_extends [OF two g(2) e1] .
  have e2: "extends h1 h'" using deep_copier.copy_extends [OF two g2 w] .
  have f1: "reach1 h1 v' \<subseteq> {next_addr h..<next_addr h1}" using deep_copier.copy_fresh [OF one g(1) v] .
  have f2: "reach2 h' w' \<subseteq> {next_addr h1..<next_addr h'}" using deep_copier.copy_fresh [OF two g2 w] .
  have same: "cells h' a = cells h1 a" if "a \<in> reach1 h1 v'" for a
    using that f1 extends_cells [OF e2] by fastforce
  note r = deep_copier.reach_frame [OF one same] and s = deep_copier.sees_frame [OF one same]
  show "extends h h'" using e1 e2 by (rule extends_trans)
  show "reach1 h' (fst p') \<union> reach2 h' (snd p') \<subseteq> {next_addr h..<next_addr h'}"
    using r f1 f2 extends_next [OF e1] extends_next [OF e2] p' by fastforce
  show "(sees1 h' (fst p'), sees2 h' (snd p')) = (sees1 h (fst p), sees2 h (snd p))"
    using s deep_copier.copy_sees [OF one g(1) v] deep_copier.copy_sees [OF two g2 w]
      deep_copier.sees_extends [OF two g(2) e1] p' by simp
next
  fix h p h'
  show "good1 h (fst p) \<and> good2 h (snd p) \<Longrightarrow> extends h h' \<Longrightarrow> good1 h' (fst p) \<and> good2 h' (snd p)"
    using deep_copier.good_extends [OF one] deep_copier.good_extends [OF two] by blast
  show "good1 h (fst p) \<and> good2 h (snd p) \<Longrightarrow> reach1 h (fst p) \<union> reach2 h (snd p) \<subseteq> {..<next_addr h}"
    using deep_copier.reach_old [OF one] deep_copier.reach_old [OF two] by blast
  assume same: "\<And>a. a \<in> reach1 h (fst p) \<union> reach2 h (snd p) \<Longrightarrow> cells h' a = cells h a"
  show "reach1 h' (fst p) \<union> reach2 h' (snd p) = reach1 h (fst p) \<union> reach2 h (snd p)"
    using deep_copier.reach_frame [OF one, of h "fst p" h'] deep_copier.reach_frame [OF two, of h "snd p" h'] same
    by simp
  show "(sees1 h' (fst p), sees2 h' (snd p)) = (sees1 h (fst p), sees2 h (snd p))"
    using deep_copier.sees_frame [OF one, of h "fst p" h'] deep_copier.sees_frame [OF two, of h "snd p" h'] same
    by simp
qed

text \<open>A field without references.\<close>

lemma flat_copier: "deep_copier (\<lambda>h v. True) (\<lambda>h v. {}) (\<lambda>h v. v) Pair"
  by unfold_locales auto

end
