(* ===== verification/Deep_Copy.thy ===== *)
theory Deep_Copy
  imports Heap_Copy
begin

text \<open>
  The deep copies of the API types (\<open>api/v1alpha1/deepcopy.go\<close> and the generated
  \<open>zz_generated.deepcopy.go\<close>). \<open>T_DeepCopyInto\<close> takes the value of \<open>*in\<close> and returns that of
  \<open>*out\<close>, the two being different variables, as in every call; \<open>T_DeepCopy\<close> works on pointers.
  The copies of \<open>metav1.ObjectMeta\<close> and \<open>metav1.ListMeta\<close> are library functions and arguments;
  \<open>metav1.Time\<close> is copied as a value.
\<close>

section \<open>Zero values\<close>

definition zero_step :: canary_step where
  "zero_step = \<lparr> Weight = 0, PauseSeconds = 0 \<rparr>"

definition zero_metric :: sprt_metric where
  "zero_metric =
    \<lparr> metric_Name = '''', CanaryTotalQuery = '''', CanaryFailureQuery = '''', StableTotalQuery = '''',
      StableFailureQuery = '''', Delta = f64_0 \<rparr>"

definition zero_state :: sprt_metric_state where
  "zero_state =
    \<lparr> state_Name = '''', LogLikelihood = f64_0, Observations = 0, Failures = 0, BaselineRate = f64_0,
      LastCanaryTotal = f64_0, LastCanaryFailure = f64_0, Decision = '''' \<rparr>"

definition zero_analysis :: go_analysis where
  "zero_analysis =
    \<lparr> ga_Alpha = f64_0, ga_Beta = f64_0, ga_AnalysisIntervalSeconds = 0, ga_Metrics = None \<rparr>"

definition zero_spec :: go_spec where
  "zero_spec =
    \<lparr> gs_TargetRef = '''', gs_StableServiceRef = '''', gs_CanaryServiceRef = '''', gs_VirtualServiceRef = '''',
      gs_Steps = None, gs_Paused = False, gs_Abort = False, gs_PrometheusURL = '''', gs_Analysis = None \<rparr>"

definition zero_status :: go_status where
  "zero_status =
    \<lparr> gt_Phase = '''', gt_CurrentStep = 0, gt_CurrentWeight = 0, gt_LastTransitionTime = 0, gt_Message = '''',
      gt_AnalysisState = None \<rparr>"

definition zero_rollout :: "'m \<Rightarrow> 'm go_rollout" where
  "zero_rollout zm = \<lparr> gr_TypeMeta = ('''', ''''), gr_ObjectMeta = zm, gr_Spec = zero_spec, gr_Status = zero_status \<rparr>"

definition zero_list :: "'m \<Rightarrow> 'm go_list" where
  "zero_list zm = \<lparr> gl_TypeMeta = ('''', ''''), gl_ListMeta = zm, gl_Items = None \<rparr>"

section \<open>The hand-written copies\<close>

type_synonym ('m, 'v) copier = "'v \<Rightarrow> 'm heap \<Rightarrow> 'v \<times> 'm heap"
type_synonym 'm pointer_copy = "addr option \<Rightarrow> 'm heap \<Rightarrow> addr option \<times> 'm heap"

definition SPRTMetric_DeepCopyInto :: "('m, sprt_metric) copier" where
  "SPRTMetric_DeepCopyInto v h = (v, h)"

definition SPRTMetric_DeepCopy :: "'m pointer_copy" where
  "SPRTMetric_DeepCopy = copy_pointer Metric_struct metric_struct zero_metric SPRTMetric_DeepCopyInto"

definition SPRTAnalysis_DeepCopyInto :: "('m, go_analysis) copier" where
  "SPRTAnalysis_DeepCopyInto v h =
     (let (metrics, h1) = copy_slice Metrics_array metrics_array zero_metric (ga_Metrics v) h
      in (v\<lparr> ga_Metrics := metrics \<rparr>, h1))"

definition SPRTAnalysis_DeepCopy :: "'m pointer_copy" where
  "SPRTAnalysis_DeepCopy = copy_pointer Analysis_struct analysis_struct zero_analysis SPRTAnalysis_DeepCopyInto"

definition SPRTMetricState_DeepCopyInto :: "('m, sprt_metric_state) copier" where
  "SPRTMetricState_DeepCopyInto v h = (v, h)"

definition SPRTMetricState_DeepCopy :: "'m pointer_copy" where
  "SPRTMetricState_DeepCopy = copy_pointer State_struct state_struct zero_state SPRTMetricState_DeepCopyInto"

definition CanaryRolloutSpec_DeepCopyInto :: "('m, go_spec) copier" where
  "CanaryRolloutSpec_DeepCopyInto v h =
     (let (steps, h1) = copy_slice Steps_array steps_array zero_step (gs_Steps v) h;
          (analysis, h2) = copy_pointer Analysis_struct analysis_struct zero_analysis SPRTAnalysis_DeepCopyInto
                             (gs_Analysis v) h1
      in (v\<lparr> gs_Steps := steps, gs_Analysis := analysis \<rparr>, h2))"

definition CanaryRolloutSpec_DeepCopy :: "'m pointer_copy" where
  "CanaryRolloutSpec_DeepCopy = copy_pointer Spec_struct spec_struct zero_spec CanaryRolloutSpec_DeepCopyInto"

definition CanaryRolloutStatus_DeepCopyInto :: "('m, go_status) copier" where
  "CanaryRolloutStatus_DeepCopyInto v h =
     (let (states, h1) = copy_slice States_array states_array zero_state (gt_AnalysisState v) h
      in (v\<lparr> gt_AnalysisState := states \<rparr>, h1))"

definition CanaryRolloutStatus_DeepCopy :: "'m pointer_copy" where
  "CanaryRolloutStatus_DeepCopy = copy_pointer Status_struct status_struct zero_status CanaryRolloutStatus_DeepCopyInto"

definition CanaryStep_DeepCopyInto :: "('m, canary_step) copier" where
  "CanaryStep_DeepCopyInto v h = (v, h)"

definition CanaryStep_DeepCopy :: "'m pointer_copy" where
  "CanaryStep_DeepCopy = copy_pointer Step_struct step_struct zero_step CanaryStep_DeepCopyInto"

section \<open>The generated copies\<close>

definition CanaryRollout_DeepCopyInto :: "('m, 'm) copier \<Rightarrow> ('m, 'm go_rollout) copier" where
  "CanaryRollout_DeepCopyInto copy_meta v h =
     (let (meta, h1) = copy_meta (gr_ObjectMeta v) h;
          (sp, h2) = CanaryRolloutSpec_DeepCopyInto (gr_Spec v) h1;
          (st, h3) = CanaryRolloutStatus_DeepCopyInto (gr_Status v) h2
      in (v\<lparr> gr_ObjectMeta := meta, gr_Spec := sp, gr_Status := st \<rparr>, h3))"

definition CanaryRollout_DeepCopy :: "('m, 'm) copier \<Rightarrow> 'm \<Rightarrow> 'm pointer_copy" where
  "CanaryRollout_DeepCopy copy_meta zm =
     copy_pointer Rollout_struct rollout_struct (zero_rollout zm) (CanaryRollout_DeepCopyInto copy_meta)"

text \<open>\<open>(*in)[i].DeepCopyInto(&(*out)[i])\<close>, for every index of the source\<close>

definition store_item :: "addr \<Rightarrow> nat \<Rightarrow> 'm go_rollout \<Rightarrow> 'm heap \<Rightarrow> 'm heap" where
  "store_item a i v h =
     (case cells h a of
        None \<Rightarrow> h
      | Some c \<Rightarrow> store_cell a (Rollouts_array ((rollouts_array c)[i := v])) h)"

definition copy_item :: "('m, 'm go_rollout) copier \<Rightarrow> slice \<Rightarrow> addr \<Rightarrow> nat \<Rightarrow> 'm heap \<Rightarrow> 'm heap" where
  "copy_item into sl a i h =
     (let (v, h1) = into (slice_elems rollouts_array h sl ! i) h in store_item a i v h1)"

fun copy_items :: "('m, 'm go_rollout) copier \<Rightarrow> 'm \<Rightarrow> slice option \<Rightarrow> 'm heap \<Rightarrow> slice option \<times> 'm heap" where
  "copy_items into zm None h = (None, h)"
| "copy_items into zm (Some sl) h =
     (let (a, h1) = new_cell (Rollouts_array (replicate (sl_len sl) (zero_rollout zm))) h
      in (Some \<lparr> sl_addr = a, sl_off = 0, sl_len = sl_len sl \<rparr>, fold (copy_item into sl a) [0..<sl_len sl] h1))"

definition CanaryRolloutList_DeepCopyInto ::
    "('m, 'm) copier \<Rightarrow> ('m, 'm) copier \<Rightarrow> 'm \<Rightarrow> ('m, 'm go_list) copier" where
  "CanaryRolloutList_DeepCopyInto copy_meta copy_list_meta zm v h =
     (let (meta, h1) = copy_list_meta (gl_ListMeta v) h;
          (its, h2) = copy_items (CanaryRollout_DeepCopyInto copy_meta) zm (gl_Items v) h1
      in (v\<lparr> gl_ListMeta := meta, gl_Items := its \<rparr>, h2))"

definition CanaryRolloutList_DeepCopy :: "('m, 'm) copier \<Rightarrow> ('m, 'm) copier \<Rightarrow> 'm \<Rightarrow> 'm pointer_copy" where
  "CanaryRolloutList_DeepCopy copy_meta copy_list_meta zm =
     copy_pointer List_struct list_struct (zero_list zm)
       (CanaryRolloutList_DeepCopyInto copy_meta copy_list_meta zm)"

text \<open>\<open>DeepCopyObject\<close> returns the pointer as a \<open>runtime.Object\<close>, the nil interface for nil.\<close>

definition CanaryRollout_DeepCopyObject :: "('m, 'm) copier \<Rightarrow> 'm \<Rightarrow> 'm pointer_copy" where
  "CanaryRollout_DeepCopyObject copy_meta zm p h =
     (case CanaryRollout_DeepCopy copy_meta zm p h of (Some c, h') \<Rightarrow> (Some c, h') | (None, h') \<Rightarrow> (None, h'))"

definition CanaryRolloutList_DeepCopyObject :: "('m, 'm) copier \<Rightarrow> ('m, 'm) copier \<Rightarrow> 'm \<Rightarrow> 'm pointer_copy" where
  "CanaryRolloutList_DeepCopyObject copy_meta copy_list_meta zm p h =
     (case CanaryRolloutList_DeepCopy copy_meta copy_list_meta zm p h of
        (Some c, h') \<Rightarrow> (Some c, h') | (None, h') \<Rightarrow> (None, h'))"

end
