(* ===== verification/Deep_Copy_Props.thy ===== *)
theory Deep_Copy_Props
  imports Deep_Copy
begin

text \<open>
  Every copy of the API types is a \<open>deep_copier\<close>: interpretations from the leaves up, each by
  the lemma for its kind (slice, pointer, pair, struct), and the properties of the copies the
  client library takes, those of a whole rollout and of a list.
\<close>

section \<open>Structs without references\<close>

lemma flat_into:
  "SPRTMetric_DeepCopyInto = Pair" "SPRTMetricState_DeepCopyInto = Pair" "CanaryStep_DeepCopyInto = Pair"
  by (simp_all add: fun_eq_iff SPRTMetric_DeepCopyInto_def SPRTMetricState_DeepCopyInto_def CanaryStep_DeepCopyInto_def)

lemmas flat_pointer = deep_copier.pointer_copier [OF flat_copier]

interpretation metric_ptr: deep_copier
  "pointer_good metric_struct is_Metric_struct (\<lambda>h v. True)" "pointer_reach metric_struct (\<lambda>h v. {})"
  "pointer_sees metric_struct (\<lambda>h v. v)" SPRTMetric_DeepCopy
  unfolding SPRTMetric_DeepCopy_def flat_into by (rule flat_pointer) simp

interpretation state_ptr: deep_copier
  "pointer_good state_struct is_State_struct (\<lambda>h v. True)" "pointer_reach state_struct (\<lambda>h v. {})"
  "pointer_sees state_struct (\<lambda>h v. v)" SPRTMetricState_DeepCopy
  unfolding SPRTMetricState_DeepCopy_def flat_into by (rule flat_pointer) simp

interpretation step_ptr: deep_copier
  "pointer_good step_struct is_Step_struct (\<lambda>h v. True)" "pointer_reach step_struct (\<lambda>h v. {})"
  "pointer_sees step_struct (\<lambda>h v. v)" CanaryStep_DeepCopy
  unfolding CanaryStep_DeepCopy_def flat_into by (rule flat_pointer) simp

section \<open>Analysis, specification, status\<close>

definition analysis_good :: "'m heap \<Rightarrow> go_analysis \<Rightarrow> bool" where
  "analysis_good h v = slice_good metrics_array h (ga_Metrics v)"

definition analysis_reach :: "'m heap \<Rightarrow> go_analysis \<Rightarrow> addr set" where
  "analysis_reach h v = slice_reach h (ga_Metrics v)"

definition analysis_sees :: "'m heap \<Rightarrow> go_analysis \<Rightarrow> go_analysis \<times> sprt_metric list option" where
  "analysis_sees h v = (v\<lparr>ga_Metrics := None\<rparr>, slice_sees metrics_array h (ga_Metrics v))"

interpretation analysis: deep_copier analysis_good analysis_reach analysis_sees SPRTAnalysis_DeepCopyInto
  unfolding analysis_good_def [abs_def] analysis_reach_def [abs_def] analysis_sees_def [abs_def]
  by (rule deep_copier.struct_copier [OF slice_copier [where con = Metrics_array and zero = zero_metric],
        where put = "\<lambda>v m. v\<lparr>ga_Metrics := m\<rparr>"]) (simp_all add: SPRTAnalysis_DeepCopyInto_def)

interpretation analysis_ptr: deep_copier
  "pointer_good analysis_struct is_Analysis_struct analysis_good" "pointer_reach analysis_struct analysis_reach"
  "pointer_sees analysis_struct analysis_sees" SPRTAnalysis_DeepCopy
  unfolding SPRTAnalysis_DeepCopy_def by (rule analysis.pointer_copier) simp

definition spec_good :: "'m heap \<Rightarrow> go_spec \<Rightarrow> bool" where
  "spec_good h v \<longleftrightarrow> slice_good steps_array h (gs_Steps v) \<and>
     pointer_good analysis_struct is_Analysis_struct analysis_good h (gs_Analysis v)"

definition spec_reach :: "'m heap \<Rightarrow> go_spec \<Rightarrow> addr set" where
  "spec_reach h v = slice_reach h (gs_Steps v) \<union> pointer_reach analysis_struct analysis_reach h (gs_Analysis v)"

definition spec_sees :: "'m heap \<Rightarrow> go_spec \<Rightarrow>
    go_spec \<times> canary_step list option \<times> (go_analysis \<times> sprt_metric list option) option" where
  "spec_sees h v =
     (v\<lparr>gs_Steps := None, gs_Analysis := None\<rparr>, slice_sees steps_array h (gs_Steps v),
      pointer_sees analysis_struct analysis_sees h (gs_Analysis v))"

lemma steps_slice: "deep_copier (slice_good steps_array) slice_reach (slice_sees steps_array) (copy_slice Steps_array steps_array z)"
  by (rule slice_copier) simp

lemma states_slice: "deep_copier (slice_good states_array) slice_reach (slice_sees states_array) (copy_slice States_array states_array z)"
  by (rule slice_copier) simp

interpretation spec: deep_copier spec_good spec_reach spec_sees CanaryRolloutSpec_DeepCopyInto
  unfolding spec_good_def [abs_def] spec_reach_def [abs_def] spec_sees_def [abs_def]
  by (rule deep_copier.struct_copier [OF pair_copier [OF steps_slice [of zero_step] analysis_ptr.deep_copier_axioms],
        where parts = "\<lambda>v. (gs_Steps v, gs_Analysis v)" and put = "\<lambda>v p. v\<lparr>gs_Steps := fst p, gs_Analysis := snd p\<rparr>"
          and rest = "\<lambda>v. v\<lparr>gs_Steps := None, gs_Analysis := None\<rparr>", simplified fst_conv snd_conv])
    (simp_all add: CanaryRolloutSpec_DeepCopyInto_def SPRTAnalysis_DeepCopy_def Let_def split: prod.split)

interpretation spec_ptr: deep_copier
  "pointer_good spec_struct is_Spec_struct spec_good" "pointer_reach spec_struct spec_reach"
  "pointer_sees spec_struct spec_sees" CanaryRolloutSpec_DeepCopy
  unfolding CanaryRolloutSpec_DeepCopy_def by (rule spec.pointer_copier) simp

definition status_good :: "'m heap \<Rightarrow> go_status \<Rightarrow> bool" where
  "status_good h v = slice_good states_array h (gt_AnalysisState v)"

definition status_reach :: "'m heap \<Rightarrow> go_status \<Rightarrow> addr set" where
  "status_reach h v = slice_reach h (gt_AnalysisState v)"

definition status_sees :: "'m heap \<Rightarrow> go_status \<Rightarrow> go_status \<times> sprt_metric_state list option" where
  "status_sees h v = (v\<lparr>gt_AnalysisState := None\<rparr>, slice_sees states_array h (gt_AnalysisState v))"

interpretation status: deep_copier status_good status_reach status_sees CanaryRolloutStatus_DeepCopyInto
  unfolding status_good_def [abs_def] status_reach_def [abs_def] status_sees_def [abs_def]
  by (rule deep_copier.struct_copier [OF states_slice [of zero_state],
        where put = "\<lambda>v m. v\<lparr>gt_AnalysisState := m\<rparr>"]) (simp_all add: CanaryRolloutStatus_DeepCopyInto_def)

interpretation status_ptr: deep_copier
  "pointer_good status_struct is_Status_struct status_good" "pointer_reach status_struct status_reach"
  "pointer_sees status_struct status_sees" CanaryRolloutStatus_DeepCopy
  unfolding CanaryRolloutStatus_DeepCopy_def by (rule status.pointer_copier) simp

section \<open>The object\<close>

definition rollout_good :: "('m heap \<Rightarrow> 'm \<Rightarrow> bool) \<Rightarrow> 'm heap \<Rightarrow> 'm go_rollout \<Rightarrow> bool" where
  "rollout_good mg h v \<longleftrightarrow> mg h (gr_ObjectMeta v) \<and> spec_good h (gr_Spec v) \<and> status_good h (gr_Status v)"

definition rollout_reach :: "('m heap \<Rightarrow> 'm \<Rightarrow> addr set) \<Rightarrow> 'm heap \<Rightarrow> 'm go_rollout \<Rightarrow> addr set" where
  "rollout_reach mr h v = mr h (gr_ObjectMeta v) \<union> (spec_reach h (gr_Spec v) \<union> status_reach h (gr_Status v))"

definition rollout_sees where
  "rollout_sees ms h v = (gr_TypeMeta v, ms h (gr_ObjectMeta v), spec_sees h (gr_Spec v), status_sees h (gr_Status v))"

lemma rollout_copier:
  assumes meta: "deep_copier mg mr ms copy_meta"
  shows "deep_copier (rollout_good mg) (rollout_reach mr) (rollout_sees ms) (CanaryRollout_DeepCopyInto copy_meta)"
  unfolding rollout_good_def [abs_def] rollout_reach_def [abs_def] rollout_sees_def [abs_def]
  by (rule deep_copier.struct_copier [OF pair_copier [OF meta
          pair_copier [OF spec.deep_copier_axioms status.deep_copier_axioms]],
        where parts = "\<lambda>v. (gr_ObjectMeta v, gr_Spec v, gr_Status v)" and rest = gr_TypeMeta
          and put = "\<lambda>v p. v\<lparr>gr_ObjectMeta := fst p, gr_Spec := fst (snd p), gr_Status := snd (snd p)\<rparr>",
        simplified fst_conv snd_conv])
    (simp_all add: CanaryRollout_DeepCopyInto_def Let_def split: prod.split)

section \<open>The list\<close>

definition items_good :: "('m heap \<Rightarrow> 'm go_rollout \<Rightarrow> bool) \<Rightarrow> 'm heap \<Rightarrow> slice option \<Rightarrow> bool" where
  "items_good good h s \<longleftrightarrow> slice_good rollouts_array h s \<and>
     (case s of None \<Rightarrow> True | Some sl \<Rightarrow> list_all (good h) (slice_elems rollouts_array h sl))"

definition items_reach :: "('m heap \<Rightarrow> 'm go_rollout \<Rightarrow> addr set) \<Rightarrow> 'm heap \<Rightarrow> slice option \<Rightarrow> addr set" where
  "items_reach reach h s = slice_reach h s \<union>
     (case s of None \<Rightarrow> {} | Some sl \<Rightarrow> \<Union> (reach h ` set (slice_elems rollouts_array h sl)))"

definition items_sees :: "('m heap \<Rightarrow> 'm go_rollout \<Rightarrow> 's) \<Rightarrow> 'm heap \<Rightarrow> slice option \<Rightarrow> 's list option" where
  "items_sees sees h s = map_option (\<lambda>sl. map (sees h) (slice_elems rollouts_array h sl)) s"

text \<open>After \<open>k\<close> rounds of the loop the first \<open>k\<close> elements of the new array are copies.\<close>

definition copied_upto ::
    "('m heap \<Rightarrow> 'm go_rollout \<Rightarrow> addr set) \<Rightarrow> ('m heap \<Rightarrow> 'm go_rollout \<Rightarrow> 's) \<Rightarrow> 'm go_rollout list \<Rightarrow>
     'm heap \<Rightarrow> nat \<Rightarrow> 'm heap \<Rightarrow> bool" where
  "copied_upto reach sees src h k hk \<longleftrightarrow> extends h hk \<and> next_addr h < next_addr hk \<and>
     (\<exists>xs. cells hk (next_addr h) = Some (Rollouts_array xs) \<and> length xs = length src \<and>
        (\<forall>j<k. reach hk (xs ! j) \<subseteq> {next_addr h <..< next_addr hk} \<and> sees hk (xs ! j) = sees h (src ! j)))"

lemma copied_step:
  assumes dc: "deep_copier good reach sees into"
    and good: "list_all (good h) src" and k: "k < length src"
    and inv: "copied_upto reach sees src h k hk"
    and run: "into (src ! k) hk = (v, hm)"
  shows "copied_upto reach sees src h (Suc k) (store_item (next_addr h) k v hm)"
proof -
  let ?a = "next_addr h" and ?h' = "store_item (next_addr h) k v hm"
  obtain xs where ext: "extends h hk" "?a < next_addr hk" and xs: "cells hk ?a = Some (Rollouts_array xs)"
      "length xs = length src"
    and old_items: "\<And>j. j < k \<Longrightarrow> reach hk (xs ! j) \<subseteq> {?a <..< next_addr hk} \<and> sees hk (xs ! j) = sees h (src ! j)"
    using inv by (auto simp: copied_upto_def)
  have g: "good h (src ! k)" using good k by (simp add: list_all_length)
  have gk: "good hk (src ! k)" using deep_copier.good_extends [OF dc g ext(1)] .
  have em: "extends hk hm" using deep_copier.copy_extends [OF dc gk run] .
  have fresh: "reach hm v \<subseteq> {next_addr hk..<next_addr hm}" using deep_copier.copy_fresh [OF dc gk run] .
  have see: "sees hm v = sees h (src ! k)"
    using deep_copier.copy_sees [OF dc gk run] deep_copier.sees_extends [OF dc g ext(1)] by simp
  have h': "?h' = store_cell ?a (Rollouts_array (xs[k := v])) hm"
    using extends_cells [OF em ext(2)] xs(1) by (simp add: store_item_def)
  have nv: "cells ?h' b = cells hm b" if "b \<in> reach hm v" for b using that fresh ext(2) unfolding h' by auto
  have old: "cells ?h' b = cells hk b" if "b \<in> reach hk (xs ! j)" "j < k" for b j
    using that old_items [of j] extends_cells [OF em, of b] unfolding h' by auto
  have "reach ?h' (xs[k := v] ! j) \<subseteq> {?a <..< next_addr ?h'} \<and> sees ?h' (xs[k := v] ! j) = sees h (src ! j)"
    if "j < Suc k" for j
  proof (cases "j = k")
    case True
    then show ?thesis
      using deep_copier.reach_frame [OF dc nv] deep_copier.sees_frame [OF dc nv] see fresh ext(2) k xs(2)
      unfolding h' by auto
  next
    case False
    then have j: "j < k" using that by simp
    show ?thesis
      using deep_copier.reach_frame [OF dc old [OF _ j]] deep_copier.sees_frame [OF dc old [OF _ j]] old_items [OF j] False
        extends_next [OF em] unfolding h' by auto
  qed
  moreover have "extends h ?h'" unfolding h' by (intro extends_store extends_trans [OF ext(1) em]) simp
  ultimately show ?thesis
    using xs ext(2) extends_next [OF em] unfolding copied_upto_def h' by auto
qed

lemma copied_loop:
  assumes dc: "deep_copier good reach sees into" and good: "list_all (good h) (slice_elems rollouts_array h sl)"
    and sl: "sl_addr sl < next_addr h" "length (slice_elems rollouts_array h sl) = n"
    and h1: "h1 = snd (new_cell (Rollouts_array (replicate n z)) h)" and k: "k \<le> n"
  shows "copied_upto reach sees (slice_elems rollouts_array h sl) h k (fold (copy_item into sl (next_addr h)) [0..<k] h1)"
  using k
proof (induction k)
  case 0
  then show ?case
    using extends_new [of "Rollouts_array (replicate n z)" h "next_addr h" h1] sl(2)
    by (simp add: copied_upto_def h1 new_cell_def)
next
  case (Suc k)
  let ?hk = "fold (copy_item into sl (next_addr h)) [0..<k] h1"
  have inv: "copied_upto reach sees (slice_elems rollouts_array h sl) h k ?hk" using Suc by simp
  then have "extends h ?hk" by (simp add: copied_upto_def)
  then have src: "slice_elems rollouts_array ?hk sl = slice_elems rollouts_array h sl"
    using sl(1) by (intro slice_elems_frame) (rule extends_cells)
  obtain v hm where run: "into (slice_elems rollouts_array h sl ! k) ?hk = (v, hm)" by fastforce
  have "copy_item into sl (next_addr h) k ?hk = store_item (next_addr h) k v hm"
    unfolding copy_item_def [of into sl "next_addr h" k ?hk] src run by simp
  then show ?case
    using copied_step [OF dc good _ inv run] Suc.prems sl(2) by simp
qed

lemma items_copier:
  assumes dc: "deep_copier good reach sees into"
  shows "deep_copier (items_good good) (items_reach reach) (items_sees sees) (copy_items into zm)"
proof
  fix h s s' h'
  assume g: "items_good good h s" and run: "copy_items into zm s h = (s', h')"
  have "extends h h' \<and> items_reach reach h' s' \<subseteq> {next_addr h..<next_addr h'} \<and> items_sees sees h' s' = items_sees sees h s"
  proof (cases s)
    case (Some sl)
    let ?src = "slice_elems rollouts_array h sl" and ?a = "next_addr h" and ?n = "sl_len sl"
    have sl: "sl_addr sl < next_addr h" "length ?src = ?n" "list_all (good h) ?src"
      using g Some by (simp_all add: items_good_def slice_good_def)
    have res: "s' = Some \<lparr>sl_addr = ?a, sl_off = 0, sl_len = ?n\<rparr>"
        "h' = fold (copy_item into sl ?a) [0..<?n] (snd (new_cell (Rollouts_array (replicate ?n (zero_rollout zm))) h))"
      using run Some by (auto simp: new_cell_def)
    have "copied_upto reach sees ?src h ?n h'"
      unfolding res(2) by (rule copied_loop [OF dc sl(3,1,2) refl]) simp
    then obtain xs where xs: "extends h h'" "?a < next_addr h'" "cells h' ?a = Some (Rollouts_array xs)" "length xs = ?n"
      "\<And>j. j < ?n \<Longrightarrow> reach h' (xs ! j) \<subseteq> {?a <..< next_addr h'} \<and> sees h' (xs ! j) = sees h (?src ! j)"
      using sl(2) by (auto simp: copied_upto_def)
    have elems: "slice_elems rollouts_array h' \<lparr>sl_addr = ?a, sl_off = 0, sl_len = ?n\<rparr> = xs"
      using xs(3,4) by (simp add: slice_elems_def)
    have "map (sees h') xs = map (sees h) ?src" using xs(4,5) sl(2) by (intro nth_equalityI) simp_all
    moreover have "reach h' x \<subseteq> {?a <..< next_addr h'}" if "x \<in> set xs" for x
      using that xs(4,5) by (metis in_set_conv_nth)
    ultimately show ?thesis
      using xs(1,2) elems Some res(1) by (fastforce simp: items_reach_def items_sees_def slice_reach_def)
  qed (use run in \<open>simp add: items_reach_def items_sees_def slice_reach_def\<close>)
  then show "extends h h'" "items_reach reach h' s' \<subseteq> {next_addr h..<next_addr h'}"
    "items_sees sees h' s' = items_sees sees h s" by simp_all
next
  fix h s h'
  show "items_good good h s \<Longrightarrow> items_reach reach h s \<subseteq> {..<next_addr h}"
    using deep_copier.reach_old [OF dc]
    by (fastforce simp: items_good_def items_reach_def slice_good_def slice_reach_def list_all_iff split: option.splits)
  show "items_good good h' s" if "items_good good h s" "extends h h'"
  proof (cases s)
    case (Some sl)
    have "slice_elems rollouts_array h' sl = slice_elems rollouts_array h sl"
      using that Some by (intro slice_elems_frame) (auto simp: items_good_def slice_good_def intro: extends_cells)
    then show ?thesis
      using that Some deep_copier.good_extends [OF dc _ that(2)] extends_next [OF that(2)]
      by (auto simp: items_good_def slice_good_def list_all_iff)
  qed (simp add: items_good_def slice_good_def)
  assume same: "\<And>a. a \<in> items_reach reach h s \<Longrightarrow> cells h' a = cells h a"
  have elems: "slice_elems rollouts_array h' sl = slice_elems rollouts_array h sl" if "s = Some sl" for sl
    using same that by (intro slice_elems_frame) (simp add: items_reach_def slice_reach_def)
  have in_reach: "reach h' x = reach h x" "sees h' x = sees h x"
    if "s = Some sl" "x \<in> set (slice_elems rollouts_array h sl)" for sl x
    using same that by (auto simp: items_reach_def intro!: deep_copier.reach_frame [OF dc] deep_copier.sees_frame [OF dc])
  show "items_reach reach h' s = items_reach reach h s"
    using elems in_reach by (cases s) (simp_all add: items_reach_def slice_reach_def)
  show "items_sees sees h' s = items_sees sees h s"
    using elems in_reach by (cases s) (simp_all add: items_sees_def)
qed

definition list_good where
  "list_good mg lg h v \<longleftrightarrow> lg h (gl_ListMeta v) \<and> items_good (rollout_good mg) h (gl_Items v)"

definition list_reach where
  "list_reach mr lr h v = lr h (gl_ListMeta v) \<union> items_reach (rollout_reach mr) h (gl_Items v)"

definition list_sees where
  "list_sees ms ls h v = (gl_TypeMeta v, ls h (gl_ListMeta v), items_sees (rollout_sees ms) h (gl_Items v))"

lemma list_copier:
  assumes meta: "deep_copier mg mr ms copy_meta" and list_meta: "deep_copier lg lr ls copy_list_meta"
  shows "deep_copier (list_good mg lg) (list_reach mr lr) (list_sees ms ls)
    (CanaryRolloutList_DeepCopyInto copy_meta copy_list_meta zm)"
  unfolding list_good_def [abs_def] list_reach_def [abs_def] list_sees_def [abs_def]
  by (rule deep_copier.struct_copier [OF pair_copier [OF list_meta items_copier [OF rollout_copier [OF meta], where zm = zm]],
        where parts = "\<lambda>v. (gl_ListMeta v, gl_Items v)" and rest = gl_TypeMeta
          and put = "\<lambda>v p. v\<lparr>gl_ListMeta := fst p, gl_Items := snd p\<rparr>", simplified fst_conv snd_conv])
    (simp_all add: CanaryRolloutList_DeepCopyInto_def Let_def split: prod.split)

section \<open>The properties\<close>

lemma object_copier:
  assumes "deep_copier mg mr ms copy_meta"
  shows "deep_copier (pointer_good rollout_struct is_Rollout_struct (rollout_good mg))
    (pointer_reach rollout_struct (rollout_reach mr)) (pointer_sees rollout_struct (rollout_sees ms))
    (CanaryRollout_DeepCopyObject copy_meta zm)"
proof -
  have "CanaryRollout_DeepCopyObject copy_meta zm = CanaryRollout_DeepCopy copy_meta zm"
    by (simp add: fun_eq_iff CanaryRollout_DeepCopyObject_def split: prod.split option.split)
  then show ?thesis
    unfolding CanaryRollout_DeepCopy_def using deep_copier.pointer_copier [OF rollout_copier [OF assms]] by simp
qed

lemma list_object_copier:
  assumes "deep_copier mg mr ms copy_meta" "deep_copier lg lr ls copy_list_meta"
  shows "deep_copier (pointer_good list_struct is_List_struct (list_good mg lg))
    (pointer_reach list_struct (list_reach mr lr)) (pointer_sees list_struct (list_sees ms ls))
    (CanaryRolloutList_DeepCopyObject copy_meta copy_list_meta zm)"
proof -
  have "CanaryRolloutList_DeepCopyObject copy_meta copy_list_meta zm = CanaryRolloutList_DeepCopy copy_meta copy_list_meta zm"
    by (simp add: fun_eq_iff CanaryRolloutList_DeepCopyObject_def split: prod.split option.split)
  then show ?thesis
    unfolding CanaryRolloutList_DeepCopy_def using deep_copier.pointer_copier [OF list_copier [OF assms]] by simp
qed

text \<open>
  A heap with one rollout (at 5), its steps (0), its metrics (1) behind its analysis (2), its
  analysis state (3) and the labels of its metadata (4); and a list (7) whose array (6) holds the
  rollout twice, so that its elements share everything. The metadata is a slice of labels.
\<close>

definition copy_labels :: "(slice option, slice option) copier" where
  "copy_labels = copy_slice Labels_array labels_array ('''', '''')"

lemma labels_copier: "deep_copier (slice_good labels_array) slice_reach (slice_sees labels_array) copy_labels"
  unfolding copy_labels_def by (rule slice_copier) simp

definition demo_go_rollout :: "slice option go_rollout" where
  "demo_go_rollout =
    \<lparr> gr_TypeMeta = (''CanaryRollout'', ''statgate.io/v1alpha1''),
      gr_ObjectMeta = Some \<lparr>sl_addr = 4, sl_off = 0, sl_len = 1\<rparr>,
      gr_Spec = zero_spec\<lparr>gs_Steps := Some \<lparr>sl_addr = 0, sl_off = 0, sl_len = 2\<rparr>, gs_Analysis := Some 2\<rparr>,
      gr_Status = zero_status\<lparr>gt_AnalysisState := Some \<lparr>sl_addr = 3, sl_off = 0, sl_len = 1\<rparr>\<rparr> \<rparr>"

definition demo_heap :: "slice option heap" where
  "demo_heap =
    \<lparr> cells =
        [0 \<mapsto> Steps_array [\<lparr>Weight = 20, PauseSeconds = 30\<rparr>, \<lparr>Weight = 50, PauseSeconds = 0\<rparr>],
         1 \<mapsto> Metrics_array [zero_metric],
         2 \<mapsto> Analysis_struct (zero_analysis\<lparr>ga_Metrics := Some \<lparr>sl_addr = 1, sl_off = 0, sl_len = 1\<rparr>\<rparr>),
         3 \<mapsto> States_array [zero_state],
         4 \<mapsto> Labels_array [(''app'', ''demo'')],
         5 \<mapsto> Rollout_struct demo_go_rollout,
         6 \<mapsto> Rollouts_array [demo_go_rollout, demo_go_rollout],
         7 \<mapsto> List_struct \<lparr>gl_TypeMeta = ('''', ''''), gl_ListMeta = None,
               gl_Items = Some \<lparr>sl_addr = 6, sl_off = 0, sl_len = 2\<rparr>\<rparr>],
      next_addr = 8 \<rparr>"

lemmas demo_good_defs = pointer_good_def rollout_good_def spec_good_def status_good_def analysis_good_def
  slice_good_def slice_elems_def demo_heap_def demo_go_rollout_def zero_spec_def zero_status_def zero_analysis_def

lemma demo_good:
  "pointer_good rollout_struct is_Rollout_struct (rollout_good (slice_good labels_array)) demo_heap (Some 5)"
  "pointer_good list_struct is_List_struct (list_good (slice_good labels_array) (slice_good labels_array)) demo_heap (Some 7)"
  by (simp_all add: demo_good_defs list_good_def items_good_def)

text \<open>
  A deep copy of a rollout is a copy, and shares nothing: the copy shows what the original
  shows (every slice with its elements or nil, the analysis behind its pointer), and afterwards
  whatever is written at the addresses reached from one of them, the other still shows the
  same. So the reconciler may change in place the object it read from the client's cache.
\<close>

lemma rollout_copy_shares_nothing:
  assumes "deep_copier mg mr ms copy_meta"
    and "pointer_good rollout_struct is_Rollout_struct (rollout_good mg) h p"
    and "CanaryRollout_DeepCopyObject copy_meta zm p h = (q, h')"
  shows "let reach = pointer_reach rollout_struct (rollout_reach mr);
             sees = pointer_sees rollout_struct (rollout_sees ms)
    in sees h' q = sees h p \<and> sees h' p = sees h p \<and>
       (same_outside (reach h' q) h' h'' \<longrightarrow> sees h'' p = sees h p) \<and>
       (same_outside (reach h' p) h' h'' \<longrightarrow> sees h'' q = sees h p)"
  using deep_copier.independent [OF object_copier [OF assms(1)] assms(2,3)]
    deep_copier.copy_sees [OF object_copier [OF assms(1)] assms(2,3)]
    deep_copier.original_kept [OF object_copier [OF assms(1)] assms(2,3)]
  by (simp add: Let_def)

lemma rollout_copy_shares_nothing_witness:
  "\<exists>q h'. CanaryRollout_DeepCopyObject copy_labels None (Some 5) demo_heap = (q, h') \<and>
     pointer_sees rollout_struct (rollout_sees (slice_sees labels_array)) h' q =
     pointer_sees rollout_struct (rollout_sees (slice_sees labels_array)) demo_heap (Some 5)"
proof -
  obtain q h' where run: "CanaryRollout_DeepCopyObject copy_labels None (Some 5) demo_heap = (q, h')" by fastforce
  show ?thesis
    using rollout_copy_shares_nothing [OF labels_copier demo_good(1) run] run by (auto simp: Let_def)
qed

text \<open>
  C33: so is a deep copy of a list, whose loop copies the elements one after the other into the
  new array: even when the elements of the original share their slices and analyses.
\<close>

theorem list_copy_shares_nothing:
  assumes "deep_copier mg mr ms copy_meta" "deep_copier lg lr ls copy_list_meta"
    and "pointer_good list_struct is_List_struct (list_good mg lg) h p"
    and "CanaryRolloutList_DeepCopyObject copy_meta copy_list_meta zm p h = (q, h')"
  shows "let reach = pointer_reach list_struct (list_reach mr lr);
             sees = pointer_sees list_struct (list_sees ms ls)
    in sees h' q = sees h p \<and> sees h' p = sees h p \<and>
       (same_outside (reach h' q) h' h'' \<longrightarrow> sees h'' p = sees h p) \<and>
       (same_outside (reach h' p) h' h'' \<longrightarrow> sees h'' q = sees h p)"
  using deep_copier.independent [OF list_object_copier [OF assms(1,2)] assms(3,4)]
    deep_copier.copy_sees [OF list_object_copier [OF assms(1,2)] assms(3,4)]
    deep_copier.original_kept [OF list_object_copier [OF assms(1,2)] assms(3,4)]
  by (simp add: Let_def)

theorem list_copy_shares_nothing_witness:
  "\<exists>q h'. CanaryRolloutList_DeepCopyObject copy_labels copy_labels None (Some 7) demo_heap = (q, h') \<and>
     pointer_sees list_struct (list_sees (slice_sees labels_array) (slice_sees labels_array)) h' q =
     pointer_sees list_struct (list_sees (slice_sees labels_array) (slice_sees labels_array)) demo_heap (Some 7)"
proof -
  obtain q h' where run: "CanaryRolloutList_DeepCopyObject copy_labels copy_labels None (Some 7) demo_heap = (q, h')"
    by fastforce
  show ?thesis
    using list_copy_shares_nothing [OF labels_copier labels_copier demo_good(2) run] run by (auto simp: Let_def)
qed

end
