(* ===== verification/Demo_Injector.thy ===== *)
theory Demo_Injector
  imports Durations
begin

text \<open>
  Error injection of the demo service: the configuration from the environment
  (\<open>demo/app/main.go\<close>) and the failure probability over time (\<open>demo/app/error_inject.go\<close>), in
  binary64 arithmetic. The environment variables and \<open>strconv.ParseFloat\<close> are arguments.
\<close>

section \<open>The configuration\<close>

record errorInjectorConfig =
  RateStart :: float64
  RateEnd :: float64
  RampSeconds :: float64
  SpikeAtSeconds :: float64
  SpikeDurationSeconds :: float64
  SpikeRate :: float64

definition getEnv :: "(string \<Rightarrow> string) \<Rightarrow> string \<Rightarrow> string \<Rightarrow> string" where
  "getEnv env key fallback = (if env key \<noteq> '''' then env key else fallback)"

definition parseFloat :: "(string \<Rightarrow> go_error + float64) \<Rightarrow> string \<Rightarrow> float64" where
  "parseFloat pf s = (case pf s of Inl err \<Rightarrow> f64_0 | Inr v \<Rightarrow> v)"

definition loadInjectorConfig ::
    "(string \<Rightarrow> string) \<Rightarrow> (string \<Rightarrow> go_error + float64) \<Rightarrow> errorInjectorConfig" where
  "loadInjectorConfig env pf =
     (let baseRate = parseFloat pf (getEnv env ''ERROR_RATE'' ''0.0'');
          rateStart = (if env ''ERROR_RATE_START'' \<noteq> '''' then parseFloat pf (env ''ERROR_RATE_START'') else baseRate);
          rateEnd = (if env ''ERROR_RATE_END'' \<noteq> '''' then parseFloat pf (env ''ERROR_RATE_END'') else rateStart)
      in \<lparr> RateStart = rateStart, RateEnd = rateEnd,
           RampSeconds = parseFloat pf (getEnv env ''ERROR_RATE_RAMP_SECONDS'' ''0''),
           SpikeAtSeconds = parseFloat pf (getEnv env ''ERROR_SPIKE_AT_SECONDS'' ''0''),
           SpikeDurationSeconds = parseFloat pf (getEnv env ''ERROR_SPIKE_DURATION_SECONDS'' ''0''),
           SpikeRate = parseFloat pf (getEnv env ''ERROR_SPIKE_RATE'' ''0'') \<rparr>)"

section \<open>The injector\<close>

record errorInjector =
  startTime :: gotime
  rateStart :: float64
  rateEnd :: float64
  rampSeconds :: float64
  spikeAtSeconds :: float64
  spikeDurationSeconds :: float64
  spikeRate :: float64

definition newErrorInjector :: "errorInjectorConfig \<Rightarrow> gotime \<Rightarrow> errorInjector" where
  "newErrorInjector cfg now =
    \<lparr> startTime = now, rateStart = RateStart cfg, rateEnd = RateEnd cfg, rampSeconds = RampSeconds cfg,
      spikeAtSeconds = SpikeAtSeconds cfg, spikeDurationSeconds = SpikeDurationSeconds cfg,
      spikeRate = SpikeRate cfg \<rparr>"

definition in_spike :: "errorInjector \<Rightarrow> float64 \<Rightarrow> bool" where
  "in_spike e elapsed \<longleftrightarrow>
     f64_lt f64_0 (spikeAtSeconds e) \<and> f64_lt f64_0 (spikeDurationSeconds e) \<and>
     f64_le (spikeAtSeconds e) elapsed \<and>
     f64_lt elapsed (f64_add (spikeAtSeconds e) (spikeDurationSeconds e))"

definition ramp_progress :: "float64 \<Rightarrow> float64 \<Rightarrow> float64" where
  "ramp_progress elapsed ramp =
     (let progress = f64_div elapsed ramp;
          p1 = (if f64_lt progress f64_0 then f64_0 else progress)
      in if f64_lt (f64_of_int 1) p1 then f64_of_int 1 else p1)"

definition currentRate :: "errorInjector \<Rightarrow> gotime \<Rightarrow> float64" where
  "currentRate e t =
     (let elapsed = dur_Seconds (time_Sub t (startTime e)) in
      if in_spike e elapsed then spikeRate e
      else if f64_le (rampSeconds e) f64_0 then rateStart e
      else f64_add (rateStart e)
             (f64_mul (f64_sub (rateEnd e) (rateStart e)) (ramp_progress elapsed (rampSeconds e))))"

section \<open>The ramp\<close>

lemma one_num: "f64_num (f64_of_int 1)" "fval (f64_of_int 1) = 1"
  using fval_of_int [of 1] by simp_all

lemma ramp_progress_bounds:
  assumes x: "f64_num x" "0 \<le> fval x" and r: "f64_num r" "0 < fval r"
  shows "f64_num (ramp_progress x r)" "0 \<le> fval (ramp_progress x r)" "fval (ramp_progress x r) \<le> 1"
    "fval (ramp_progress x r) = min 1 (fround (fval x / fval r))"
proof -
  have q: "0 \<le> fval x / fval r" using x r by simp
  have rep: "represents (f64_div x r) (fval x / fval r)" using f64_div_represents [OF x(1) r(1)] r(2) by simp
  have "f64_num (ramp_progress x r) \<and> fval (ramp_progress x r) = min 1 (fround (fval x / fval r))"
  proof (cases rule: represents_cases [OF rep])
    case 1
    then have "\<not> f64_lt (f64_div x r) f64_0"
      using fround_sign(1) [OF q] f64_0_num by (simp add: f64_lt_num)
    then show ?thesis using 1 one_num by (simp add: ramp_progress_def Let_def f64_lt_num min_def)
  next
    case 2
    have "pow2 0 \<le> pow2 1024" by (simp del: pow2_0)
    then have "1 \<le> pow2 1024" by simp
    moreover have "pow2 1024 \<le> fround (fval x / fval r)"
      using rep 2 fround_sign(1) [OF q] by (auto simp: represents_def split: if_splits)
    moreover have inf: "f64_div x r = F64_Inf False" using 2 q by simp
    moreover have "f64_lt (f64_of_int 1) (F64_Inf False)" "\<not> f64_lt (F64_Inf False) f64_0" by code_simp+
    ultimately show ?thesis using one_num by (simp add: ramp_progress_def Let_def)
  qed
  then show "f64_num (ramp_progress x r)" "fval (ramp_progress x r) = min 1 (fround (fval x / fval r))" by simp_all
  then show "0 \<le> fval (ramp_progress x r)" "fval (ramp_progress x r) \<le> 1" using fround_sign(1) [OF q] by simp_all
qed

lemma ramp_progress_mono:
  assumes "f64_num x" "0 \<le> fval x" "f64_num y" "fval x \<le> fval y" and r: "f64_num r" "0 < fval r"
  shows "fval (ramp_progress x r) \<le> fval (ramp_progress y r)"
proof -
  have "fround (fval x / fval r) \<le> fround (fval y / fval r)"
    using assms by (intro fround_mono divide_right_mono) simp_all
  moreover have "0 \<le> fval y" using assms by simp
  ultimately show ?thesis
    using assms ramp_progress_bounds(4) [of x r] ramp_progress_bounds(4) [of y r] by simp
qed

text \<open>\<open>s + (e - s) * p\<close> for a progress \<open>p\<close> between 0 and 1.\<close>

lemma ramp_value:
  assumes s: "f64_num s" "0 \<le> fval s" "fval s \<le> fval e" and e: "f64_num e" "fval e \<le> 1"
    and p: "f64_num p" "0 \<le> fval p" "fval p \<le> 1"
  defines "d \<equiv> fround (fval e - fval s)"
  shows "f64_num (f64_add s (f64_mul (f64_sub e s) p))"
    "fval (f64_add s (f64_mul (f64_sub e s) p)) = fround (fval s + fround (d * fval p))"
    "f64_num (f64_add s (f64_sub e s))" "fval (f64_add s (f64_sub e s)) = fround (fval s + d)"
    "0 \<le> d"
proof -
  have diff: "0 \<le> fval e - fval s" "fval e - fval s \<le> pow2 0" using s e by simp_all
  have d: "f64_num (f64_sub e s)" "fval (f64_sub e s) = d"
    using represents_between [OF f64_sub_represents [OF e(1) s(1)] diff] by (simp_all add: d_def)
  show d0: "0 \<le> d" unfolding d_def by (rule fround_sign(1) [OF diff(1)])
  have d1: "d \<le> 1" using fround_le_pow2 [OF diff(2)] by (simp add: d_def)
  have s1: "fval s \<le> 1" using s e by simp
  have prod: "0 \<le> d * fval p" "d * fval p \<le> pow2 0"
    using d0 d1 p mult_mono [of d 1 "fval p" 1] by simp_all
  have m: "f64_num (f64_mul (f64_sub e s) p)" "fval (f64_mul (f64_sub e s) p) = fround (d * fval p)"
    using represents_between [OF f64_mul_represents [OF d(1) p(1), unfolded d(2)] prod] by simp_all
  have m1: "0 \<le> fround (d * fval p)" "fround (d * fval p) \<le> 1"
    using fround_sign(1) [OF prod(1)] fround_le_pow2 [OF prod(2)] by simp_all
  have two: "pow2 1 = 2" by (simp add: pow2_nat)
  have sum: "0 \<le> fval s + fround (d * fval p)" "fval s + fround (d * fval p) \<le> pow2 1"
    using s m1 s1 two by simp_all
  show "f64_num (f64_add s (f64_mul (f64_sub e s) p))"
    "fval (f64_add s (f64_mul (f64_sub e s) p)) = fround (fval s + fround (d * fval p))"
    using represents_between [OF f64_add_represents [OF s(1) m(1), unfolded m(2)] sum] by simp_all
  have top: "0 \<le> fval s + d" "fval s + d \<le> pow2 1" using s d0 d1 s1 two by simp_all
  show "f64_num (f64_add s (f64_sub e s))" "fval (f64_add s (f64_sub e s)) = fround (fval s + d)"
    using represents_between [OF f64_add_represents [OF s(1) d(1), unfolded d(2)] top] by simp_all
qed

lemma elapsed_num:
  assumes "t0 \<le> t" "t \<le> t'"
  shows "f64_num (dur_Seconds (time_Sub t t0))" "0 \<le> fval (dur_Seconds (time_Sub t t0))"
    "fval (dur_Seconds (time_Sub t t0)) \<le> fval (dur_Seconds (time_Sub t' t0))"
proof -
  have d: "0 \<le> sint (time_Sub t t0)" "sint (time_Sub t t0) \<le> sint (time_Sub t' t0)"
    using assms by (simp_all add: sint_time_Sub)
  show "f64_num (dur_Seconds (time_Sub t t0))" "0 \<le> fval (dur_Seconds (time_Sub t t0))"
    unfolding dur_Seconds_def by (rule dur_in_num [OF d(1)]; simp)+
  show "fval (dur_Seconds (time_Sub t t0)) \<le> fval (dur_Seconds (time_Sub t' t0))"
    unfolding dur_Seconds_def by (rule dur_in_mono [OF d]) simp_all
qed



end
