(* ===== verification/Demo_Path.thy ===== *)
theory Demo_Path
  imports GoStd
begin

text \<open>
  \<open>normalizePath\<close> of the demo service (\<open>demo/app/middleware.go\<close>): the identifiers in a request
  path are replaced, so that the metrics' labels stay few. The regular expression describes 36
  bytes, position by position; \<open>ReplaceAllString\<close> replaces the leftmost match and goes on behind
  it.
\<close>

section \<open>The expression\<close>

definition hex_lower :: "char \<Rightarrow> bool" where
  "hex_lower c \<longleftrightarrow>
     (let n = (of_char c :: int) in 48 \<le> n \<and> n \<le> 57 \<or> 97 \<le> n \<and> n \<le> 102)"

definition uuid_classes :: "(char \<Rightarrow> bool) list" where
  "uuid_classes =
     (let dash = (\<lambda>c. c = CHR ''-'')
      in replicate 8 hex_lower @ [dash] @ replicate 4 hex_lower @ [dash] @ replicate 4 hex_lower @ [dash] @
         replicate 4 hex_lower @ [dash] @ replicate 12 hex_lower)"

definition uuid_at :: "string \<Rightarrow> bool" where
  "uuid_at s \<longleftrightarrow> list_all2 (\<lambda>p c. p c) uuid_classes (take 36 s)"

function normalizePath :: "string \<Rightarrow> string" where
  "normalizePath [] = []"
| "normalizePath (c # cs) =
     (if uuid_at (c # cs) then ''{id}'' @ normalizePath (drop 35 cs) else c # normalizePath cs)"
  by pat_completeness auto
termination
  by (relation "measure length") auto

section \<open>No identifier is left\<close>

fun no_uuid :: "string \<Rightarrow> bool" where
  "no_uuid [] = True"
| "no_uuid (c # cs) \<longleftrightarrow> \<not> uuid_at (c # cs) \<and> no_uuid cs"

lemma length_uuid_classes: "length uuid_classes = 36"
  by (simp add: uuid_classes_def Let_def)

lemma uuid_at_length: "uuid_at s \<Longrightarrow> 36 \<le> length s"
  by (auto simp: uuid_at_def length_uuid_classes min_def dest!: list_all2_lengthD split: if_splits)

lemma uuid_at_cong: "take 36 s = take 36 t \<Longrightarrow> uuid_at s = uuid_at t"
  by (simp add: uuid_at_def)

lemma hex_lower_brace: "\<not> hex_lower CHR ''{''" "\<not> hex_lower CHR ''}''" "\<not> hex_lower CHR ''i''"
  by (simp_all add: hex_lower_def)

lemma uuid_class_brace: "p \<in> set uuid_classes \<Longrightarrow> \<not> p CHR ''{''"
  using hex_lower_brace by (auto simp: uuid_classes_def Let_def)

lemma uuid_at_no_brace: "uuid_at s \<Longrightarrow> CHR ''{'' \<notin> set (take 36 s)"
proof
  assume u: "uuid_at s" and "CHR ''{'' \<in> set (take 36 s)"
  then obtain i where i: "i < length (take 36 s)" "take 36 s ! i = CHR ''{''" by (metis in_set_conv_nth)
  have "(uuid_classes ! i) (take 36 s ! i)" "i < length uuid_classes"
    using u i(1) by (auto simp: uuid_at_def list_all2_conv_all_nth)
  then show False using i(2) uuid_class_brace nth_mem by metis
qed

lemma uuid_classes_Cons: "\<exists>ps. uuid_classes = hex_lower # hex_lower # ps"
  by (simp add: uuid_classes_def Let_def numeral_eq_Suc)

lemma uuid_first: "uuid_at (c # s) \<Longrightarrow> hex_lower c"
  and uuid_second: "uuid_at (b # c # s) \<Longrightarrow> hex_lower c"
proof -
  obtain ps where ps: "uuid_classes = hex_lower # hex_lower # ps" using uuid_classes_Cons by blast
  have "take 36 (c # s) = c # take 35 s" "take 36 (b # c # s) = b # c # take 34 s" by simp_all
  then show "uuid_at (c # s) \<Longrightarrow> hex_lower c" "uuid_at (b # c # s) \<Longrightarrow> hex_lower c"
    unfolding uuid_at_def ps by simp_all
qed

lemma no_uuid_id: "no_uuid t \<Longrightarrow> no_uuid (''{id}'' @ t)"
  using hex_lower_brace by (auto dest: uuid_first uuid_second)

text \<open>Up to the first brace the result is the beginning of the path.\<close>

lemma normalizePath_takeWhile:
  "\<exists>t. s = takeWhile (\<lambda>c. c \<noteq> CHR ''{'') (normalizePath s) @ t"
proof (induction s rule: normalizePath.induct)
  case (2 c cs)
  show ?case
  proof (cases "uuid_at (c # cs) \<or> c = CHR ''{''")
    case True
    then have "takeWhile (\<lambda>c. c \<noteq> CHR ''{'') (normalizePath (c # cs)) = []" by auto
    then show ?thesis by simp
  next
    case False
    then obtain t where "cs = takeWhile (\<lambda>c. c \<noteq> CHR ''{'') (normalizePath cs) @ t" using 2(2) by blast
    then have "c # cs = (c # takeWhile (\<lambda>c. c \<noteq> CHR ''{'') (normalizePath cs)) @ t" by simp
    then show ?thesis using False by (intro exI [of _ t]) simp
  qed
qed simp

lemma uuid_at_normalizePath: "uuid_at (c # normalizePath cs) \<Longrightarrow> uuid_at (c # cs)"
proof -
  assume u: "uuid_at (c # normalizePath cs)"
  obtain t where t: "cs = takeWhile (\<lambda>c. c \<noteq> CHR ''{'') (normalizePath cs) @ t"
    using normalizePath_takeWhile by blast
  have len: "35 \<le> length (normalizePath cs)" using uuid_at_length [OF u] by simp
  have free: "CHR ''{'' \<notin> set (take 35 (normalizePath cs))" using uuid_at_no_brace [OF u] by simp
  have "takeWhile (\<lambda>c. c \<noteq> CHR ''{'') (normalizePath cs) =
      take 35 (normalizePath cs) @ takeWhile (\<lambda>c. c \<noteq> CHR ''{'') (drop 35 (normalizePath cs))"
    using free by (subst append_take_drop_id [of 35 "normalizePath cs", symmetric], subst takeWhile_append2) auto
  then have "take 35 cs = take 35 (normalizePath cs)" using t len by (metis (no_types, lifting) append_eq_conv_conj
        append_assoc length_take min.absorb2)
  then show "uuid_at (c # cs)" using u uuid_at_cong [of "c # cs" "c # normalizePath cs"] by simp
qed

lemma no_uuid_normalizePath: "no_uuid (normalizePath s)"
proof (induction s rule: normalizePath.induct)
  case (2 c cs)
  show ?case
  proof (cases "uuid_at (c # cs)")
    case True
    then show ?thesis using no_uuid_id [OF 2(1)] by simp
  next
    case False
    then have "\<not> uuid_at (c # normalizePath cs)" using uuid_at_normalizePath by blast
    then show ?thesis using False 2(2) by simp
  qed
qed simp

lemma normalizePath_id: "no_uuid s \<Longrightarrow> normalizePath s = s"
  by (induction s) simp_all



end
