(* ===== verification/Demo_Service.thy ===== *)
theory Demo_Service
  imports Demo_Injector Demo_Path
begin

text \<open>
  The demo service (\<open>demo/app\<close>): the database layer (\<open>db.go\<close>), the HTTP handlers
  (\<open>handlers.go\<close>) and the middleware that counts requests (\<open>middleware.go\<close>). PostgreSQL and
  \<open>database/sql\<close>, the clock, \<open>math/rand\<close> and the JSON decoder are the record \<open>svc\<close> of functions
  over a world; the counters of \<open>metrics.go\<close> are part of the state. A JSON reply is kept as the
  value that is encoded.
\<close>

section \<open>State and environment\<close>

record order =
  ID :: string
  Title :: string
  order_Status :: string
  CreatedAt :: gotime

text \<open>\<open>sql.ErrNoRows\<close> is a value of its own, every other error of the driver is a \<open>go_error\<close>.\<close>

datatype sql_error = ErrNoRows | DriverError go_error

fun sql_error_text :: "sql_error \<Rightarrow> string" where
  "sql_error_text ErrNoRows = ''sql: no rows in result set''"
| "sql_error_text (DriverError e) = error_text e"

text \<open>What \<open>rows.Next\<close> and \<open>rows.Scan\<close> yield, row by row, and \<open>rows.Err\<close> at the end.\<close>

type_synonym rows = "(sql_error + order) list \<times> sql_error option"

record 'w svc =
  svc_Now :: "'w \<Rightarrow> gotime \<times> 'w"
  rand_Float64 :: "'w \<Rightarrow> float64 \<times> 'w"
  rand_Intn :: "int \<Rightarrow> 'w \<Rightarrow> int \<times> 'w"
  sleep_ns :: "int \<Rightarrow> 'w \<Rightarrow> 'w"
  log_Printf :: "string \<Rightarrow> 'w \<Rightarrow> 'w"
  json_title :: "string \<Rightarrow> go_error + string"
  sql_Open :: "string \<Rightarrow> 'w \<Rightarrow> go_error option \<times> 'w"
  sql_Ping :: "'w \<Rightarrow> go_error option \<times> 'w"
  sql_Close :: "'w \<Rightarrow> 'w"
  exec_schema :: "'w \<Rightarrow> go_error option \<times> 'w"
  insert_order :: "string \<Rightarrow> 'w \<Rightarrow> (sql_error + order) \<times> 'w"
  query_orders :: "int \<Rightarrow> int \<Rightarrow> 'w \<Rightarrow> (sql_error + rows) \<times> 'w"
  select_order :: "string \<Rightarrow> 'w \<Rightarrow> (sql_error + order) \<times> 'w"
  delete_order :: "string \<Rightarrow> 'w \<Rightarrow> (sql_error + int) \<times> 'w"

record 'w svc_state =
  svc_world :: 'w
  dbOperationsTotal :: "string \<times> string \<Rightarrow> nat"
  httpRequestsTotal :: "string \<times> string \<times> string \<times> string \<Rightarrow> nat"
  httpRequestDuration :: "string \<times> string \<times> string \<Rightarrow> float64 list"

definition svc_call :: "('w \<Rightarrow> 'a \<times> 'w) \<Rightarrow> 'w svc_state \<Rightarrow> 'a \<times> 'w svc_state" where
  "svc_call f s = (let (a, w) = f (svc_world s) in (a, s\<lparr>svc_world := w\<rparr>))"

definition svc_do :: "('w \<Rightarrow> 'w) \<Rightarrow> 'w svc_state \<Rightarrow> 'w svc_state" where
  "svc_do f s = s\<lparr>svc_world := f (svc_world s)\<rparr>"

text \<open>\<open>dbOperationsTotal.WithLabelValues(op, status).Inc()\<close>\<close>

definition inc_op :: "string \<Rightarrow> string \<Rightarrow> 'w svc_state \<Rightarrow> 'w svc_state" where
  "inc_op op st s = s\<lparr>dbOperationsTotal := (dbOperationsTotal s)((op, st) := dbOperationsTotal s (op, st) + 1)\<rparr>"

section \<open>The database layer\<close>

text \<open>
  The loop of \<open>NewDB\<close>: \<open>n\<close> attempts are left of five, \<open>err\<close> is the error of the last ping;
  the first component tells whether the function returned inside the loop.
\<close>

fun connect_loop ::
    "'w svc \<Rightarrow> string \<Rightarrow> nat \<Rightarrow> go_error option \<Rightarrow> 'w \<Rightarrow> (go_error option \<times> go_error option) \<times> 'w" where
  "connect_loop V dsn 0 err w = ((None, err), w)"
| "connect_loop V dsn (Suc n) err w =
     (case sql_Open V dsn w of
        (Some e, w1) \<Rightarrow> ((Some (Wrapped ''open db'' e), Some e), w1)
      | (None, w1) \<Rightarrow>
          (case sql_Ping V w1 of
             (None, w2) \<Rightarrow> ((None, None), w2)
           | (Some e, w2) \<Rightarrow>
               connect_loop V dsn n (Some e)
                 (sleep_ns V (2 * 1000000000)
                   (sql_Close V
                     (log_Printf V (''db not ready (attempt '' @ fmt_d (5 - int n) @ ''/5): '' @ error_text e) w2)))))"

text \<open>The text of the schema is part of the driver's call.\<close>

definition initSchema :: "'w svc \<Rightarrow> 'w \<Rightarrow> go_error option \<times> 'w" where
  "initSchema V w = exec_schema V w"

definition NewDB :: "'w svc \<Rightarrow> string \<Rightarrow> 'w \<Rightarrow> go_error option \<times> 'w" where
  "NewDB V dsn w =
     (case connect_loop V dsn 5 None w of
        ((Some e, err), w1) \<Rightarrow> (Some e, w1)
      | ((None, Some err), w1) \<Rightarrow> (Some (Wrapped ''db ping after retries'' err), w1)
      | ((None, None), w1) \<Rightarrow>
          (case initSchema V w1 of
             (Some e, w2) \<Rightarrow> (Some (Wrapped ''init schema'' e), w2)
           | (None, w2) \<Rightarrow> (None, w2)))"

definition CreateOrder :: "'w svc \<Rightarrow> string \<Rightarrow> 'w svc_state \<Rightarrow> (sql_error + order) \<times> 'w svc_state" where
  "CreateOrder V title s =
     (case svc_call (insert_order V title) s of
        (Inl err, s1) \<Rightarrow> (Inl err, inc_op ''create'' ''error'' s1)
      | (Inr ord, s1) \<Rightarrow> (Inr ord, inc_op ''create'' ''success'' s1))"

text \<open>The loop over the rows stops at the first row that cannot be scanned.\<close>

fun scan_rows :: "(sql_error + order) list \<Rightarrow> order list \<Rightarrow> sql_error + order list" where
  "scan_rows [] orders = Inr orders"
| "scan_rows (Inl err # rs) orders = Inl err"
| "scan_rows (Inr ord # rs) orders = scan_rows rs (orders @ [ord])"

text \<open>
  The second result is \<open>rows.Err()\<close>, returned beside the orders read. \<open>make([]Order, 0, limit)\<close>
  does not panic: the only caller passes a limit of 1 to 200 (\<open>list_contract_kept\<close>). Closing the
  rows has no effect that is modelled.
\<close>

definition ListOrders ::
    "'w svc \<Rightarrow> int \<Rightarrow> int \<Rightarrow> 'w svc_state \<Rightarrow> (order list \<times> sql_error option) \<times> 'w svc_state" where
  "ListOrders V limit offset s =
     (case svc_call (query_orders V limit offset) s of
        (Inl err, s1) \<Rightarrow> (([], Some err), inc_op ''list'' ''error'' s1)
      | (Inr (rs, rows_err), s1) \<Rightarrow>
          (case scan_rows rs [] of
             Inl err \<Rightarrow> (([], Some err), inc_op ''list'' ''error'' s1)
           | Inr orders \<Rightarrow> ((orders, rows_err), inc_op ''list'' ''success'' s1)))"

definition GetOrder :: "'w svc \<Rightarrow> string \<Rightarrow> 'w svc_state \<Rightarrow> (sql_error + order option) \<times> 'w svc_state" where
  "GetOrder V oid s =
     (case svc_call (select_order V oid) s of
        (Inl ErrNoRows, s1) \<Rightarrow> (Inr None, inc_op ''get'' ''not_found'' s1)
      | (Inl err, s1) \<Rightarrow> (Inl err, inc_op ''get'' ''error'' s1)
      | (Inr ord, s1) \<Rightarrow> (Inr (Some ord), inc_op ''get'' ''success'' s1))"

definition DeleteOrder :: "'w svc \<Rightarrow> string \<Rightarrow> 'w svc_state \<Rightarrow> (sql_error + bool) \<times> 'w svc_state" where
  "DeleteOrder V oid s =
     (case svc_call (delete_order V oid) s of
        (Inl err, s1) \<Rightarrow> (Inl err, inc_op ''delete'' ''error'' s1)
      | (Inr n, s1) \<Rightarrow>
          if n = 0 then (Inr False, inc_op ''delete'' ''not_found'' s1)
          else (Inr True, inc_op ''delete'' ''success'' s1))"

section \<open>Requests and responses\<close>

text \<open>
  \<open>req_Path\<close> is the unescaped path, \<open>req_EscapedPath\<close> the one that was sent, \<open>req_id\<close> the value of
  the wildcard \<open>id\<close>, which the mux sets.
\<close>

record request =
  req_Method :: string
  req_Path :: string
  req_Query :: "string \<Rightarrow> string"
  req_id :: string
  req_Body :: string
  req_RequestURI :: string
  req_EscapedPath :: string

datatype reply =
    JsonError string
  | JsonOrder order
  | JsonOrders "order list"
  | PlainText string

text \<open>
  The recorder of the middleware around the server's \<open>ResponseWriter\<close>, which sends the first
  status only, and 200 with the first byte if no status was written.
\<close>

record statusRecorder =
  rec_status :: int
  sent_status :: "int option"
  content_type :: "string option"
  sent_body :: "reply list"

definition WriteHeader :: "int \<Rightarrow> statusRecorder \<Rightarrow> statusRecorder" where
  "WriteHeader code w =
     w\<lparr> rec_status := code,
        sent_status := (case sent_status w of None \<Rightarrow> Some code | Some c \<Rightarrow> Some c) \<rparr>"

definition write_body :: "reply \<Rightarrow> statusRecorder \<Rightarrow> statusRecorder" where
  "write_body b w =
     w\<lparr> sent_status := (case sent_status w of None \<Rightarrow> Some 200 | Some c \<Rightarrow> Some c),
        sent_body := sent_body w @ [b] \<rparr>"

definition writeJSON :: "int \<Rightarrow> reply \<Rightarrow> statusRecorder \<Rightarrow> statusRecorder" where
  "writeJSON status v w =
     write_body v (WriteHeader status (w\<lparr>content_type := Some ''application/json''\<rparr>))"

section \<open>Pagination\<close>

text \<open>\<open>strconv.Atoi\<close>\<close>

definition is_digit :: "char \<Rightarrow> bool" where
  "is_digit c \<longleftrightarrow> 48 \<le> (of_char c :: int) \<and> (of_char c :: int) \<le> 57"

definition digits_value :: "string \<Rightarrow> int" where
  "digits_value s = foldl (\<lambda>n c. n * 10 + (of_char c - 48)) 0 s"

definition Atoi :: "string \<Rightarrow> go_error + int" where
  "Atoi s =
     (let (neg, ds) = (case s of
            [] \<Rightarrow> (False, [])
          | c # cs \<Rightarrow> if c = CHR ''-'' then (True, cs) else if c = CHR ''+'' then (False, cs) else (False, s));
          n = (if neg then - digits_value ds else digits_value ds)
      in if ds = [] \<or> \<not> list_all is_digit ds
         then Inl (PlainError (''strconv.Atoi: parsing '' @ fmt_q s @ '': invalid syntax''))
         else if n < - (2 ^ 63) \<or> 2 ^ 63 \<le> n
         then Inl (PlainError (''strconv.Atoi: parsing '' @ fmt_q s @ '': value out of range''))
         else Inr n)"

definition listOrdersDefaultLimit :: int where "listOrdersDefaultLimit = 50"
definition listOrdersMaxLimit :: int where "listOrdersMaxLimit = 200"

definition parse_limit :: "string \<Rightarrow> string + int" where
  "parse_limit v =
     (if v \<noteq> '''' then
        (case Atoi v of
           Inl e \<Rightarrow> Inl ''limit must be a positive integer''
         | Inr n \<Rightarrow>
             if n \<le> 0 then Inl ''limit must be a positive integer''
             else Inr (if listOrdersMaxLimit < n then listOrdersMaxLimit else n))
      else Inr listOrdersDefaultLimit)"

definition parse_offset :: "string \<Rightarrow> string + int" where
  "parse_offset v =
     (if v \<noteq> '''' then
        (case Atoi v of
           Inl e \<Rightarrow> Inl ''offset must be a non-negative integer''
         | Inr n \<Rightarrow> if n < 0 then Inl ''offset must be a non-negative integer'' else Inr n)
      else Inr 0)"

definition parseListPagination :: "request \<Rightarrow> string + int \<times> int" where
  "parseListPagination r =
     (case parse_limit (req_Query r ''limit'') of
        Inl e \<Rightarrow> Inl e
      | Inr limit \<Rightarrow>
          (case parse_offset (req_Query r ''offset'') of
             Inl e \<Rightarrow> Inl e
           | Inr offset \<Rightarrow> Inr (limit, offset)))"

section \<open>The handlers\<close>

text \<open>\<open>has_db\<close> is \<open>a.db != nil\<close>.\<close>

record app =
  has_db :: bool
  app_version :: string
  hostname :: string
  injector :: errorInjector

type_synonym 'w handler = "request \<Rightarrow> statusRecorder \<Rightarrow> 'w svc_state \<Rightarrow> statusRecorder \<times> 'w svc_state"

text \<open>\<open>rate > 0 && rand.Float64() < rate\<close>: no number is drawn when the rate is not positive.\<close>

definition inject_failure :: "'w svc \<Rightarrow> errorInjector \<Rightarrow> 'w svc_state \<Rightarrow> bool \<times> 'w svc_state" where
  "inject_failure V e s =
     (let (now, s1) = svc_call (svc_Now V) s;
          rate = currentRate e now
      in if f64_lt f64_0 rate
         then (let (x, s2) = svc_call (rand_Float64 V) s1 in (f64_lt x rate, s2))
         else (False, s1))"

definition handleCreateOrder :: "'w svc \<Rightarrow> app \<Rightarrow> 'w handler" where
  "handleCreateOrder V a r w s =
     (let (bad, s1) = inject_failure V (injector a) s in
      if bad then
        (let (n, s2) = svc_call (rand_Intn V 800) s1;
             s3 = svc_do (sleep_ns V ((200 + n) * 1000000)) s2
         in (writeJSON 500 (JsonError ''simulated failure'') w, s3))
      else
        (case json_title V (req_Body r) of
           Inl err \<Rightarrow> (writeJSON 400 (JsonError ''title is required'') w, s1)
         | Inr title \<Rightarrow>
             if title = '''' then (writeJSON 400 (JsonError ''title is required'') w, s1)
             else if \<not> has_db a then (writeJSON 503 (JsonError ''database not configured'') w, s1)
             else
               (case CreateOrder V title s1 of
                  (Inl err, s2) \<Rightarrow> (writeJSON 500 (JsonError (sql_error_text err)) w, s2)
                | (Inr ord, s2) \<Rightarrow> (writeJSON 201 (JsonOrder ord) w, s2))))"

definition handleListOrders :: "'w svc \<Rightarrow> app \<Rightarrow> 'w handler" where
  "handleListOrders V a r w s =
     (case parseListPagination r of
        Inl e \<Rightarrow> (writeJSON 400 (JsonError e) w, s)
      | Inr (limit, offset) \<Rightarrow>
          if \<not> has_db a then (writeJSON 200 (JsonOrders []) w, s)
          else
            (case ListOrders V limit offset s of
               ((orders, Some err), s1) \<Rightarrow> (writeJSON 500 (JsonError (sql_error_text err)) w, s1)
             | ((orders, None), s1) \<Rightarrow> (writeJSON 200 (JsonOrders orders) w, s1)))"

definition handleGetOrder :: "'w svc \<Rightarrow> app \<Rightarrow> 'w handler" where
  "handleGetOrder V a r w s =
     (if \<not> has_db a then (writeJSON 503 (JsonError ''database not configured'') w, s)
      else
        (case GetOrder V (req_id r) s of
           (Inl err, s1) \<Rightarrow> (writeJSON 500 (JsonError (sql_error_text err)) w, s1)
         | (Inr None, s1) \<Rightarrow> (writeJSON 404 (JsonError ''not found'') w, s1)
         | (Inr (Some ord), s1) \<Rightarrow> (writeJSON 200 (JsonOrder ord) w, s1)))"

definition handleDeleteOrder :: "'w svc \<Rightarrow> app \<Rightarrow> 'w handler" where
  "handleDeleteOrder V a r w s =
     (if \<not> has_db a then (writeJSON 503 (JsonError ''database not configured'') w, s)
      else
        (case DeleteOrder V (req_id r) s of
           (Inl err, s1) \<Rightarrow> (writeJSON 500 (JsonError (sql_error_text err)) w, s1)
         | (Inr False, s1) \<Rightarrow> (writeJSON 404 (JsonError ''not found'') w, s1)
         | (Inr True, s1) \<Rightarrow> (WriteHeader 204 w, s1)))"

definition handleHealthz :: "'w handler" where
  "handleHealthz r w s = (write_body (PlainText ''ok'') (WriteHeader 200 w), s)"

section \<open>The middleware\<close>

definition new_recorder :: statusRecorder where
  "new_recorder = \<lparr> rec_status = 200, sent_status = None, content_type = None, sent_body = [] \<rparr>"

definition MetricsMiddleware ::
    "'w svc \<Rightarrow> string \<Rightarrow> 'w handler \<Rightarrow> request \<Rightarrow> 'w svc_state \<Rightarrow> statusRecorder \<times> 'w svc_state" where
  "MetricsMiddleware V version next_handler r s =
     (let (start, s1) = svc_call (svc_Now V) s;
          (w, s2) = next_handler r new_recorder s1;
          (now, s3) = svc_call (svc_Now V) s2;
          duration = dur_Seconds (time_Sub now start);
          path = normalizePath (req_Path r);
          k = (req_Method r, path, fmt_d (rec_status w), version);
          d = (req_Method r, path, version)
      in (w, s3\<lparr> httpRequestsTotal := (httpRequestsTotal s3)(k := httpRequestsTotal s3 k + 1),
                  httpRequestDuration := (httpRequestDuration s3)(d := httpRequestDuration s3 d @ [duration]) \<rparr>))"

end
