(* ===== verification/Demo_Props.thy ===== *)
theory Demo_Props
  imports Demo_Service
begin

text \<open>
  Properties of the demo service: pagination parameters, the contract of the list query, what
  the counters say about the answers, and the connection loop.
\<close>

section \<open>Numbers in a query\<close>

lemma digits_nonempty: "digits n \<noteq> []"
  by (subst digits.simps) simp

lemma of_char_char_of: "0 \<le> n \<Longrightarrow> n < 256 \<Longrightarrow> (of_char (char_of n) :: int) = n"
  by (simp add: of_char_of take_bit_eq_mod)

lemma digits_of: "0 \<le> n \<Longrightarrow> list_all is_digit (digits n) \<and> digits_value (digits n) = n"
proof (induction n rule: digits.induct)
  case (1 n)
  show ?case
  proof (cases "n < 10")
    case True
    then show ?thesis
      using 1(2) of_char_char_of [of "48 + n"] by (subst (1 2) digits.simps) (simp add: is_digit_def digits_value_def)
  next
    case False
    have m: "0 \<le> n mod 10" "n mod 10 < 10" by simp_all
    then have c: "(of_char (char_of (48 + n mod 10)) :: int) = 48 + n mod 10" by (intro of_char_char_of) simp_all
    have ih: "list_all is_digit (digits (n div 10))" "digits_value (digits (n div 10)) = n div 10"
      using 1 False by simp_all
    have "digits n = digits (n div 10) @ [char_of (48 + n mod 10)]" using False by (subst digits.simps) simp
    moreover have "is_digit (char_of (48 + n mod 10))" using c m by (simp add: is_digit_def less_imp_le)
    ultimately show ?thesis using ih c by (simp add: digits_value_def)
  qed
qed

lemma Atoi_fmt_d:
  assumes "0 \<le> n" "n < 2 ^ 63"
  shows "Atoi (fmt_d n) = Inr n"
proof -
  obtain c cs where d: "digits n = c # cs" using digits_nonempty by (cases "digits n") auto
  have dig: "is_digit c" using digits_of [OF assms(1)] d by simp
  have "c \<noteq> CHR ''-''" "c \<noteq> CHR ''+''" using dig by (auto simp: is_digit_def)
  then show ?thesis
    using digits_of [OF assms(1)] assms d by (simp add: Atoi_def fmt_d_def Let_def)
qed

lemma fmt_d_nonempty: "0 \<le> n \<Longrightarrow> fmt_d n \<noteq> []"
  using digits_nonempty by (simp add: fmt_d_def)

text \<open>
  C36: the page parameters are read back as they were written: with a positive limit and an
  offset that is not negative, in decimal and within 64 bits, \<open>parseListPagination\<close> returns the
  limit, cut to 200, and the offset.
\<close>

theorem pagination_reads_back:
  assumes "1 \<le> n" "n < 2 ^ 63" "0 \<le> m" "m < 2 ^ 63"
    and "req_Query r ''limit'' = fmt_d n" "req_Query r ''offset'' = fmt_d m"
  shows "parseListPagination r = Inr (min n 200, m)"
  using assms Atoi_fmt_d [of n] Atoi_fmt_d [of m] fmt_d_nonempty [of n] fmt_d_nonempty [of m]
  by (auto simp: parseListPagination_def parse_limit_def parse_offset_def listOrdersMaxLimit_def)

definition demo_request :: "string \<Rightarrow> (string \<Rightarrow> string) \<Rightarrow> request" where
  "demo_request path q =
    \<lparr> req_Method = ''GET'', req_Path = path, req_Query = q, req_id = ''7'', req_Body = '''',
      req_RequestURI = path, req_EscapedPath = path \<rparr>"

theorem pagination_reads_back_witness:
  "parseListPagination (demo_request ''/orders'' (\<lambda>k. if k = ''limit'' then ''999'' else ''40'')) = Inr (200, 40)"
proof -
  have "fmt_d 999 = ''999''" "fmt_d 40 = ''40''" by (simp_all add: fmt_d_def digits.simps char_of_eq_iff)
  then show ?thesis
    using pagination_reads_back [of 999 40 "demo_request ''/orders'' (\<lambda>k. if k = ''limit'' then ''999'' else ''40'')"]
    by (simp add: demo_request_def)
qed

lemma Atoi_bounds: "Atoi s = Inr n \<Longrightarrow> - (2 ^ 63) \<le> n \<and> n < 2 ^ 63"
  by (auto simp: Atoi_def Let_def split: prod.splits if_splits)

lemma pagination_bounds:
  "parseListPagination r = Inr (limit, offset) \<Longrightarrow> 0 < limit \<and> limit \<le> listOrdersMaxLimit \<and> 0 \<le> offset \<and> offset < 2 ^ 63"
  by (auto simp: parseListPagination_def parse_limit_def parse_offset_def listOrdersMaxLimit_def
      listOrdersDefaultLimit_def dest!: Atoi_bounds split: if_splits sum.splits)

text \<open>A query that answers with \<open>f\<close> when called outside the contract of \<open>ListOrders\<close>.\<close>

definition in_contract :: "int \<Rightarrow> int \<Rightarrow> bool" where
  "in_contract limit offset \<longleftrightarrow> 0 < limit \<and> limit \<le> listOrdersMaxLimit \<and> 0 \<le> offset \<and> offset < 2 ^ 63"

definition guarded :: "('w \<Rightarrow> (sql_error + rows) \<times> 'w) \<Rightarrow> 'w svc \<Rightarrow> 'w svc" where
  "guarded f V = V\<lparr>query_orders := (\<lambda>l t. if in_contract l t then query_orders V l t else f)\<rparr>"

text \<open>
  The handler keeps the contract of the query it calls, for every request: its answer does
  not depend on what \<open>ListOrders\<close> would do with a limit outside of 1 to 200 or a negative offset.
\<close>

lemma list_contract_kept:
  "handleListOrders (guarded f V) a r w s = handleListOrders V a r w s"
proof (cases "parseListPagination r")
  case (Inr p)
  obtain limit offset where "p = (limit, offset)" by fastforce
  then show ?thesis
    using Inr pagination_bounds [of r limit offset]
    by (simp add: handleListOrders_def ListOrders_def guarded_def in_contract_def)
qed (simp add: handleListOrders_def)

section \<open>Counters and answers\<close>

definition counted_op :: "string \<Rightarrow> string \<Rightarrow> 'w svc_state \<Rightarrow> 'w svc_state \<Rightarrow> bool" where
  "counted_op op st s s' \<longleftrightarrow>
     dbOperationsTotal s' = (dbOperationsTotal s)((op, st) := dbOperationsTotal s (op, st) + 1)"

lemma svc_call_ops: "svc_call f s = (x, s1) \<Longrightarrow> dbOperationsTotal s1 = dbOperationsTotal s"
  by (auto simp: svc_call_def Let_def split: prod.splits)

lemma svc_do_ops [simp]: "dbOperationsTotal (svc_do f s) = dbOperationsTotal s"
  by (simp add: svc_do_def)

lemma inject_failure_ops: "inject_failure V e s = (b, s1) \<Longrightarrow> dbOperationsTotal s1 = dbOperationsTotal s"
  by (auto simp: inject_failure_def Let_def dest!: svc_call_ops split: prod.splits if_splits)

lemma counted_inc: "dbOperationsTotal s1 = dbOperationsTotal s \<Longrightarrow> counted_op op st s (inc_op op st s1)"
  by (simp add: counted_op_def inc_op_def)

lemma sent_writeJSON [simp]: "sent_status w = None \<Longrightarrow> sent_status (writeJSON c v w) = Some c"
  "rec_status (writeJSON c v w) = c"
  by (simp_all add: writeJSON_def write_body_def WriteHeader_def)

lemma sent_WriteHeader [simp]: "sent_status w = None \<Longrightarrow> sent_status (WriteHeader c w) = Some c"
  "rec_status (WriteHeader c w) = c"
  by (simp_all add: WriteHeader_def)

lemma sent_write_body [simp]: "sent_status w = Some c \<Longrightarrow> sent_status (write_body b w) = Some c"
  "rec_status (write_body b w) = rec_status w"
  by (simp_all add: write_body_def)

definition counted_as :: "string \<Rightarrow> (int \<times> string) list \<Rightarrow> 'w svc_state \<Rightarrow> statusRecorder \<times> 'w svc_state \<Rightarrow> bool" where
  "counted_as op table s res \<longleftrightarrow>
     list_ex (\<lambda>(code, st). sent_status (fst res) = Some code \<and> counted_op op st s (snd res)) table"

text \<open>
  Reading and deleting an order with a database: exactly one operation is counted, and its
  label is the one of the answer: success with 200 or 204, not found with 404, error with 500.
\<close>

lemma answers_are_counted:
  assumes "has_db a" "sent_status w = None"
  shows "counted_as ''get'' [(200, ''success''), (404, ''not_found''), (500, ''error'')] s (handleGetOrder V a r w s) \<and>
    counted_as ''delete'' [(204, ''success''), (404, ''not_found''), (500, ''error'')] s (handleDeleteOrder V a r w s)"
proof
  obtain x s1 where q: "svc_call (select_order V (req_id r)) s = (x, s1)" by fastforce
  note c = counted_inc [OF svc_call_ops [OF q]]
  show "counted_as ''get'' [(200, ''success''), (404, ''not_found''), (500, ''error'')] s (handleGetOrder V a r w s)"
  proof (cases x)
    case (Inl e)
    then show ?thesis using assms q c by (cases e) (simp_all add: handleGetOrder_def GetOrder_def counted_as_def)
  next
    case (Inr ord)
    then show ?thesis using assms q c by (simp add: handleGetOrder_def GetOrder_def counted_as_def)
  qed
next
  obtain x s1 where q: "svc_call (delete_order V (req_id r)) s = (x, s1)" by fastforce
  note c = counted_inc [OF svc_call_ops [OF q]]
  show "counted_as ''delete'' [(204, ''success''), (404, ''not_found''), (500, ''error'')] s (handleDeleteOrder V a r w s)"
    using assms q c by (cases x) (simp_all add: handleDeleteOrder_def DeleteOrder_def counted_as_def)
qed

definition demo_app :: app where
  "demo_app =
    \<lparr> has_db = True, app_version = ''v1'', hostname = '''',
      injector = newErrorInjector (loadInjectorConfig (\<lambda>k. '''') (\<lambda>t. Inr f64_0)) 0 \<rparr>"

definition demo_svc :: "rows \<Rightarrow> int svc" where
  "demo_svc rs =
    \<lparr> svc_Now = (\<lambda>w. (w, w + 1000000)), rand_Float64 = (\<lambda>w. (f64_0, w)), rand_Intn = (\<lambda>n w. (0, w)),
      sleep_ns = (\<lambda>d w. w + d), log_Printf = (\<lambda>m w. w), json_title = (\<lambda>b. Inr b),
      sql_Open = (\<lambda>dsn w. (None, w)), sql_Ping = (\<lambda>w. (Some (PlainError ''connection refused''), w)),
      sql_Close = (\<lambda>w. w), exec_schema = (\<lambda>w. (None, w)),
      insert_order = (\<lambda>t w. (Inr \<lparr>ID = ''7'', Title = t, order_Status = ''pending'', CreatedAt = w\<rparr>, w)),
      query_orders = (\<lambda>l t w. (Inr rs, w)), select_order = (\<lambda>oid w. (Inl ErrNoRows, w)),
      delete_order = (\<lambda>oid w. (Inr 1, w)) \<rparr>"

definition demo_svc_state :: "int svc_state" where
  "demo_svc_state =
    \<lparr> svc_world = 0, dbOperationsTotal = (\<lambda>k. 0), httpRequestsTotal = (\<lambda>k. 0), httpRequestDuration = (\<lambda>k. []) \<rparr>"

text \<open>
  C39: the counter of the list operation can say success when the client gets an error: when the
  result set breaks off, \<open>rows.Err\<close> is only returned, after the success was counted.
\<close>

theorem broken_list_counts_as_success:
  assumes "has_db a" "sent_status w = None" "parseListPagination r = Inr (limit, offset)"
    and "query_orders V limit offset (svc_world s) = (Inr (map Inr orders, Some err), w1)"
  shows "counted_as ''list'' [(500, ''success'')] s (handleListOrders V a r w s)"
proof -
  have scan: "scan_rows (map Inr orders) os = Inr (os @ orders)" for os
    by (induction orders arbitrary: os) simp_all
  have q: "svc_call (query_orders V limit offset) s = (Inr (map Inr orders, Some err), s\<lparr>svc_world := w1\<rparr>)"
    using assms(4) by (simp add: svc_call_def)
  show ?thesis
    using assms(1-3) q scan counted_inc [OF svc_call_ops [OF q]]
    by (simp add: handleListOrders_def ListOrders_def counted_as_def)
qed

theorem broken_list_counts_as_success_witness:
  "counted_as ''list'' [(500, ''success'')] demo_svc_state
     (handleListOrders (demo_svc ([], Some (DriverError (PlainError ''unexpected EOF'')))) demo_app
       (demo_request ''/orders'' (\<lambda>k. '''')) new_recorder demo_svc_state)"
  by (rule broken_list_counts_as_success [where orders = "[]" and limit = 50 and offset = 0])
    (simp_all add: demo_app_def new_recorder_def demo_request_def parseListPagination_def parse_limit_def
      parse_offset_def listOrdersDefaultLimit_def demo_svc_def)

text \<open>Neither the database layer nor a handler touches the counter of requests.\<close>

lemma svc_call_reqs: "svc_call f s = (x, s1) \<Longrightarrow> httpRequestsTotal s1 = httpRequestsTotal s"
  by (auto simp: svc_call_def Let_def split: prod.splits)

lemma reqs_kept [simp]:
  "httpRequestsTotal (svc_do f s) = httpRequestsTotal s" "httpRequestsTotal (inc_op op st s) = httpRequestsTotal s"
  by (simp_all add: svc_do_def inc_op_def)

lemma inject_failure_reqs: "inject_failure V e s = (b, s1) \<Longrightarrow> httpRequestsTotal s1 = httpRequestsTotal s"
  by (auto simp: inject_failure_def Let_def dest!: svc_call_reqs split: prod.splits if_splits)

lemma CreateOrder_reqs: "CreateOrder V title s = (x, s1) \<Longrightarrow> httpRequestsTotal s1 = httpRequestsTotal s"
  by (auto simp: CreateOrder_def dest!: svc_call_reqs split: prod.splits sum.splits)

lemma ListOrders_reqs: "ListOrders V l t s = (x, s1) \<Longrightarrow> httpRequestsTotal s1 = httpRequestsTotal s"
  by (auto simp: ListOrders_def dest!: svc_call_reqs split: prod.splits sum.splits)

lemma GetOrder_reqs: "GetOrder V oid s = (x, s1) \<Longrightarrow> httpRequestsTotal s1 = httpRequestsTotal s"
  by (auto simp: GetOrder_def dest!: svc_call_reqs split: prod.splits sum.splits sql_error.splits)

lemma DeleteOrder_reqs: "DeleteOrder V oid s = (x, s1) \<Longrightarrow> httpRequestsTotal s1 = httpRequestsTotal s"
  by (auto simp: DeleteOrder_def dest!: svc_call_reqs split: prod.splits sum.splits if_splits)

lemmas handlers = handleCreateOrder_def handleListOrders_def handleGetOrder_def handleDeleteOrder_def handleHealthz_def

text \<open>
  What the middleware relies on: a handler leaves the counter of requests alone, and, when nothing
  was sent before, sends the status it leaves in the recorder.
\<close>

locale counted_handler =
  fixes h :: "'w handler"
  assumes requests_kept: "h r w s = (w', s') \<Longrightarrow> httpRequestsTotal s' = httpRequestsTotal s"
    and status_sent: "h r w s = (w', s') \<Longrightarrow> sent_status w = None \<Longrightarrow> rec_status w = 200 \<Longrightarrow>
      sent_status w' = Some (rec_status w')"
begin

lemma counted_once:
  assumes "MetricsMiddleware V version h r s = (w, s')"
    and "k = (req_Method r, normalizePath (req_Path r), fmt_d (rec_status w), version)"
  shows "sent_status w = Some (rec_status w)"
    and "httpRequestsTotal s' = (httpRequestsTotal s)(k := httpRequestsTotal s k + 1)"
proof -
  obtain now s1 where start: "svc_call (svc_Now V) s = (now, s1)" by fastforce
  obtain w2 s2 where h: "h r new_recorder s1 = (w2, s2)" by fastforce
  obtain now' s3 where stop: "svc_call (svc_Now V) s2 = (now', s3)" by fastforce
  have "w2 = w" using assms(1) start h stop by (simp add: MetricsMiddleware_def Let_def)
  then show "sent_status w = Some (rec_status w)" using status_sent [OF h] by (simp add: new_recorder_def)
  have "httpRequestsTotal s3 = httpRequestsTotal s"
    using svc_call_reqs [OF start] svc_call_reqs [OF stop] requests_kept [OF h] by simp
  then show "httpRequestsTotal s' = (httpRequestsTotal s)(k := httpRequestsTotal s k + 1)"
    using assms start h stop by (auto simp: MetricsMiddleware_def Let_def)
qed

end

lemmas reqs_dest = svc_call_reqs inject_failure_reqs CreateOrder_reqs ListOrders_reqs GetOrder_reqs DeleteOrder_reqs

interpretation create: counted_handler "handleCreateOrder V a"
  by unfold_locales (auto simp: handleCreateOrder_def Let_def dest!: reqs_dest
      split: prod.splits sum.splits option.splits if_splits bool.splits)

interpretation listing: counted_handler "handleListOrders V a"
  by unfold_locales (auto simp: handleListOrders_def Let_def dest!: reqs_dest
      split: prod.splits sum.splits option.splits if_splits bool.splits)

interpretation getting: counted_handler "handleGetOrder V a"
  by unfold_locales (auto simp: handleGetOrder_def Let_def dest!: reqs_dest
      split: prod.splits sum.splits option.splits if_splits bool.splits)

interpretation deleting: counted_handler "handleDeleteOrder V a"
  by unfold_locales (auto simp: handleDeleteOrder_def Let_def dest!: reqs_dest
      split: prod.splits sum.splits option.splits if_splits bool.splits)

interpretation healthz: counted_handler handleHealthz
  by unfold_locales (auto simp: handleHealthz_def)

text \<open>Each of the five handlers, behind the middleware, is counted once, under the status that was sent.\<close>

lemma recorded_status_is_sent:
  assumes "h \<in> {handleCreateOrder V a, handleListOrders V a, handleGetOrder V a, handleDeleteOrder V a, handleHealthz}"
  shows "case MetricsMiddleware V version h r s of (w, s') \<Rightarrow>
    (\<exists>code k. sent_status w = Some code \<and> k = (req_Method r, normalizePath (req_Path r), fmt_d code, version) \<and>
       httpRequestsTotal s' = (httpRequestsTotal s)(k := httpRequestsTotal s k + 1))"
proof -
  obtain w s' where run: "MetricsMiddleware V version h r s = (w, s')" by fastforce
  have "counted_handler h"
    using assms create.counted_handler_axioms listing.counted_handler_axioms getting.counted_handler_axioms
      deleting.counted_handler_axioms healthz.counted_handler_axioms by blast
  from counted_handler.counted_once [OF this run refl] run show ?thesis by auto
qed

section \<open>The connection loop\<close>

definition failed_attempt :: "'w svc \<Rightarrow> string \<Rightarrow> go_error \<Rightarrow> nat \<Rightarrow> 'w \<Rightarrow> 'w" where
  "failed_attempt V dsn e i w =
     sleep_ns V (2 * 1000000000) (sql_Close V
       (log_Printf V (''db not ready (attempt '' @ fmt_d (int i) @ ''/5): '' @ error_text e)
         (snd (sql_Ping V (snd (sql_Open V dsn w))))))"

text \<open>
  A database that never answers makes \<open>NewDB\<close> give up after five attempts, each of which
  closes its connection and waits two seconds (the last one too): it returns the last ping's
  error, and the schema is not touched.
\<close>

lemma NewDB_gives_up:
  assumes "\<And>w. fst (sql_Open V dsn w) = None" "\<And>w. fst (sql_Ping V w) = Some e"
  shows "NewDB V dsn w = (Some (Wrapped ''db ping after retries'' e), fold (failed_attempt V dsn e) [1, 2, 3, 4, 5] w)"
proof -
  have o: "sql_Open V dsn w = (None, snd (sql_Open V dsn w))" for w by (metis assms(1) prod.collapse)
  have p: "sql_Ping V w = (Some e, snd (sql_Ping V w))" for w by (metis assms(2) prod.collapse)
  have step: "connect_loop V dsn (Suc n) err w = connect_loop V dsn n (Some e) (failed_attempt V dsn e (5 - n) w)"
    if "n \<le> 5" for n err w
    using that by (subst connect_loop.simps, subst o, simp, subst p) (simp add: failed_attempt_def of_nat_diff)
  have five: "5 = Suc (Suc (Suc (Suc (Suc 0))))" by simp
  show ?thesis
    unfolding NewDB_def by (subst five) (simp add: step del: connect_loop.simps(2))
qed

end
