(* ===== verification/Demo_Routes.thy ===== *)
theory Demo_Routes
  imports Demo_Props "HOL-Library.Char_ord" "HOL-Library.List_Lexorder"
begin

text \<open>
  The routes of the demo service (\<open>demo/app/main.go\<close>): the patterns \<open>main\<close> registers, and what is
  used of \<open>http.ServeMux\<close> (\<open>net/http\<close>, Go 1.25) to find the handler of a request: the cleaned
  path, the segments of an escaped path, \<open>HEAD\<close> as \<open>GET\<close>, and the answers 301, 400, 404 and 405 the
  mux gives on its own. Of these only status, content type and plain text are kept.

  The redirect to a path with a slash at its end does not occur: no registered pattern ends in a
  slash (\<open>no_route_ends_in_slash\<close>).
\<close>

section \<open>Paths\<close>

definition slash :: char where "slash = CHR ''/''"

fun split_on :: "char \<Rightarrow> string \<Rightarrow> string list" where
  "split_on d [] = [[]]"
| "split_on d (c # cs) =
     (if c = d then [] # split_on d cs
      else case split_on d cs of [] \<Rightarrow> [[c]] | x # xs \<Rightarrow> (c # x) # xs)"

text \<open>\<open>path.Clean\<close> of a rooted path, and \<open>cleanPath\<close> of the mux.\<close>

definition clean_step :: "string list \<Rightarrow> string \<Rightarrow> string list" where
  "clean_step acc x = (if x = '''' \<or> x = ''.'' then acc else if x = ''..'' then butlast acc else acc @ [x])"

definition rooted :: "string list \<Rightarrow> string" where
  "rooted xs = (if xs = [] then [slash] else concat (map (\<lambda>x. slash # x) xs))"

definition path_Clean :: "string \<Rightarrow> string" where
  "path_Clean p = rooted (foldl clean_step [] (split_on slash (tl p)))"

definition cleanPath :: "string \<Rightarrow> string" where
  "cleanPath p =
     (if p = [] then [slash]
      else
        let q = (if hd p = slash then p else slash # p);
            np = path_Clean q
        in if last q = slash \<and> np \<noteq> [slash] then np @ [slash] else np)"

text \<open>\<open>url.PathUnescape\<close>; a segment that cannot be unescaped stays as it is.\<close>

definition hex_value :: "char \<Rightarrow> int option" where
  "hex_value c =
     (let n = of_char c :: int
      in if 48 \<le> n \<and> n \<le> 57 then Some (n - 48)
         else if 97 \<le> n \<and> n \<le> 102 then Some (n - 87)
         else if 65 \<le> n \<and> n \<le> 70 then Some (n - 55)
         else None)"

fun unescape :: "string \<Rightarrow> string option" where
  "unescape [] = Some []"
| "unescape (c # cs) =
     (if c = CHR ''%'' then
        (case cs of
           a # b # rest \<Rightarrow>
             (case (hex_value a, hex_value b) of
                (Some x, Some y) \<Rightarrow> map_option ((#) (char_of (16 * x + y))) (unescape rest)
              | _ \<Rightarrow> None)
         | _ \<Rightarrow> None)
      else map_option ((#) c) (unescape cs))"

definition pathUnescape :: "string \<Rightarrow> string" where
  "pathUnescape s = (case unescape s of Some t \<Rightarrow> t | None \<Rightarrow> s)"

text \<open>\<open>firstSegment\<close> repeated: a slash at the end of the path is a segment of its own.\<close>

function path_segments :: "string \<Rightarrow> string list" where
  "path_segments [] = []"
| "path_segments (c # cs) =
     (if cs = [] then [[slash]]
      else pathUnescape (takeWhile (\<lambda>x. x \<noteq> slash) cs) # path_segments (dropWhile (\<lambda>x. x \<noteq> slash) cs))"
  by pat_completeness auto
termination
  by (relation "measure length") (auto simp: le_imp_less_Suc length_dropWhile_le)

section \<open>The mux\<close>

datatype pat_seg = Lit string | Wild string

record 'h route =
  route_method :: string
  route_segs :: "pat_seg list"
  route_handler :: 'h

text \<open>\<open>parsePattern\<close> of a method, a space and a rooted path without a slash at its end.\<close>

definition parse_seg :: "string \<Rightarrow> pat_seg" where
  "parse_seg x = (if x \<noteq> [] \<and> hd x = CHR ''{'' then Wild (butlast (tl x)) else Lit (pathUnescape x))"

definition HandleFunc :: "string \<Rightarrow> 'h \<Rightarrow> 'h route" where
  "HandleFunc pattern h =
     (let space = CHR 0x20;
          path = dropWhile (\<lambda>c. c = space) (dropWhile (\<lambda>c. c \<noteq> space) pattern)
      in \<lparr> route_method = takeWhile (\<lambda>c. c \<noteq> space) pattern,
           route_segs = map parse_seg (split_on slash (tl path)), route_handler = h \<rparr>)"

text \<open>The values of the wildcards when the segments match.\<close>

fun match_segs :: "pat_seg list \<Rightarrow> string list \<Rightarrow> (string \<times> string) list option" where
  "match_segs [] [] = Some []"
| "match_segs (Lit l # ps) (x # xs) = (if x = l then match_segs ps xs else None)"
| "match_segs (Wild n # ps) (x # xs) = (if x \<noteq> [slash] then map_option ((#) (n, x)) (match_segs ps xs) else None)"
| "match_segs _ _ = None"

text \<open>
  The mux prefers the most specific pattern; as no two registered patterns match the same request
  (\<open>routes_disjoint\<close>) the first that matches is the only one.
\<close>

fun find_route :: "'h route list \<Rightarrow> string \<Rightarrow> string list \<Rightarrow> ('h \<times> (string \<times> string) list) option" where
  "find_route [] m xs = None"
| "find_route (rt # rts) m xs =
     (case if route_method rt = m then match_segs (route_segs rt) xs else None of
        Some b \<Rightarrow> Some (route_handler rt, b)
      | None \<Rightarrow> find_route rts m xs)"

definition match_route :: "'h route list \<Rightarrow> string \<Rightarrow> string list \<Rightarrow> ('h \<times> (string \<times> string) list) option" where
  "match_route rts m xs =
     (case find_route rts m xs of
        Some hb \<Rightarrow> Some hb
      | None \<Rightarrow> if m = ''HEAD'' then find_route rts ''GET'' xs else None)"

definition with_head :: "string list \<Rightarrow> string list" where
  "with_head ms = sort (remdups (ms @ (if ''GET'' \<in> set ms then [''HEAD''] else [])))"

definition matchingMethods :: "'h route list \<Rightarrow> string list \<Rightarrow> string list" where
  "matchingMethods rts xs =
     with_head (map route_method (filter (\<lambda>rt. match_segs (route_segs rt) xs \<noteq> None) rts))"

datatype 'h dispatch =
    Found 'h "(string \<times> string) list"
  | MovedPermanently string
  | MethodNotAllowed "string list"
  | NotFoundPage

definition findHandler :: "'h route list \<Rightarrow> request \<Rightarrow> 'h dispatch" where
  "findHandler rts r =
     (let connect = req_Method r = ''CONNECT'';
          path = (if connect then req_EscapedPath r else cleanPath (req_EscapedPath r));
          xs = path_segments path
      in if \<not> connect \<and> path \<noteq> req_EscapedPath r then MovedPermanently path
         else
           (case match_route rts (req_Method r) xs of
              Some (h, b) \<Rightarrow> Found h b
            | None \<Rightarrow>
                (let ms = matchingMethods rts xs
                 in if ms \<noteq> [] then MethodNotAllowed ms else NotFoundPage)))"

definition http_Error :: "int \<Rightarrow> string \<Rightarrow> statusRecorder \<Rightarrow> statusRecorder" where
  "http_Error code msg w =
     write_body (PlainText (msg @ [CHR 0x0A])) (WriteHeader code (w\<lparr>content_type := Some ''text/plain; charset=utf-8''\<rparr>))"

definition redirect :: "request \<Rightarrow> statusRecorder \<Rightarrow> statusRecorder" where
  "redirect r w =
     WriteHeader 301
       (if req_Method r = ''GET'' \<or> req_Method r = ''HEAD''
        then w\<lparr>content_type := Some ''text/html; charset=utf-8''\<rparr> else w)"

definition ServeMux :: "'w handler route list \<Rightarrow> 'w handler" where
  "ServeMux rts r w s =
     (if req_RequestURI r = ''*'' then (WriteHeader 400 w, s)
      else
        (case findHandler rts r of
           Found h b \<Rightarrow> h (r\<lparr>req_id := (case map_of b ''id'' of Some x \<Rightarrow> x | None \<Rightarrow> '''')\<rparr>) w s
         | MovedPermanently p \<Rightarrow> (redirect r w, s)
         | MethodNotAllowed ms \<Rightarrow> (http_Error 405 ''Method Not Allowed'' w, s)
         | NotFoundPage \<Rightarrow> (http_Error 404 ''404 page not found'' w, s)))"

section \<open>The service\<close>

text \<open>\<open>metrics_page\<close> is \<open>promhttp.Handler()\<close>.\<close>

definition demo_mux :: "'w svc \<Rightarrow> app \<Rightarrow> 'w handler \<Rightarrow> 'w handler route list" where
  "demo_mux V a metrics_page =
     [ HandleFunc ''POST /orders'' (handleCreateOrder V a),
       HandleFunc ''GET /orders'' (handleListOrders V a),
       HandleFunc ''GET /orders/{id}'' (handleGetOrder V a),
       HandleFunc ''DELETE /orders/{id}'' (handleDeleteOrder V a),
       HandleFunc ''GET /healthz'' handleHealthz,
       HandleFunc ''GET /metrics'' metrics_page ]"

definition demo_handler ::
    "'w svc \<Rightarrow> app \<Rightarrow> 'w handler \<Rightarrow> request \<Rightarrow> 'w svc_state \<Rightarrow> statusRecorder \<times> 'w svc_state" where
  "demo_handler V a metrics_page = MetricsMiddleware V (app_version a) (ServeMux (demo_mux V a metrics_page))"

section \<open>The routing table\<close>

lemma demo_mux_routes:
  "demo_mux V a metrics_page =
     [ \<lparr>route_method = ''POST'', route_segs = [Lit ''orders''], route_handler = handleCreateOrder V a\<rparr>,
       \<lparr>route_method = ''GET'', route_segs = [Lit ''orders''], route_handler = handleListOrders V a\<rparr>,
       \<lparr>route_method = ''GET'', route_segs = [Lit ''orders'', Wild ''id''], route_handler = handleGetOrder V a\<rparr>,
       \<lparr>route_method = ''DELETE'', route_segs = [Lit ''orders'', Wild ''id''], route_handler = handleDeleteOrder V a\<rparr>,
       \<lparr>route_method = ''GET'', route_segs = [Lit ''healthz''], route_handler = handleHealthz\<rparr>,
       \<lparr>route_method = ''GET'', route_segs = [Lit ''metrics''], route_handler = metrics_page\<rparr> ]"
  by (simp add: demo_mux_def HandleFunc_def slash_def parse_seg_def pathUnescape_def Let_def)

text \<open>Registering these patterns does not panic: no request matches two of them.\<close>

lemma routes_disjoint:
  assumes "i < j" "j < length (demo_mux V a page)"
    "route_method (demo_mux V a page ! i) = route_method (demo_mux V a page ! j)"
    "match_segs (route_segs (demo_mux V a page ! i)) xs \<noteq> None"
  shows "match_segs (route_segs (demo_mux V a page ! j)) xs = None"
proof -
  have "j < 6" using assms(2) by (simp add: demo_mux_routes)
  then have "j \<in> {0, 1, 2, 3, 4, 5}" by auto
  then show ?thesis
    using assms by (cases xs; cases "tl xs") (auto simp: demo_mux_routes nth_Cons split: nat.splits if_splits)
qed

text \<open>The methods of a path with their handlers, as the source lists them.\<close>

definition offered ::
    "'w svc \<Rightarrow> app \<Rightarrow> 'w handler \<Rightarrow> string list \<Rightarrow> (string \<times> 'w handler) list" where
  "offered V a page xs =
     (if xs = [''orders''] then [(''POST'', handleCreateOrder V a), (''GET'', handleListOrders V a)]
      else if xs = [''healthz''] then [(''GET'', handleHealthz)]
      else if xs = [''metrics''] then [(''GET'', page)]
      else if length xs = 2 \<and> hd xs = ''orders'' \<and> last xs \<noteq> [slash]
      then [(''GET'', handleGetOrder V a), (''DELETE'', handleDeleteOrder V a)]
      else [])"

definition wildcards :: "string list \<Rightarrow> (string \<times> string) list" where
  "wildcards xs = (if length xs = 2 then [(''id'', last xs)] else [])"

lemma segs_cases:
  obtains "xs = []" | x where "xs = [x]" | x y where "xs = [x, y]" | x y z zs where "xs = x # y # z # zs"
  by (metis neq_Nil_conv)

lemma no_route_ends_in_slash: "find_route (demo_mux V a page) m (xs @ [[slash]]) = None"
  by (cases xs rule: segs_cases) (simp_all add: demo_mux_routes slash_def)

lemma find_route_offered:
  "find_route (demo_mux V a page) m xs = map_option (\<lambda>h. (h, wildcards xs)) (map_of (offered V a page xs) m)"
  by (cases xs rule: segs_cases) (auto simp: demo_mux_routes offered_def wildcards_def)

lemma methods_offered:
  "matchingMethods (demo_mux V a page) xs = with_head (map fst (offered V a page xs))"
  by (cases xs rule: segs_cases) (auto simp: matchingMethods_def demo_mux_routes offered_def)

lemma set_with_head: "set (with_head ms) = set ms \<union> (if ''GET'' \<in> set ms then {''HEAD''} else {})"
  by (auto simp: with_head_def)

lemma with_head_empty [simp]: "with_head ms = [] \<longleftrightarrow> ms = []"
  unfolding set_empty [symmetric] set_with_head by auto

definition mux_answer :: "string \<Rightarrow> string list \<Rightarrow> (string \<times> 'h) list \<Rightarrow> 'h dispatch" where
  "mux_answer m xs hs =
     (case map_of hs (if m = ''HEAD'' then ''GET'' else m) of
        Some h \<Rightarrow> Found h (wildcards xs)
      | None \<Rightarrow> if hs = [] then NotFoundPage else MethodNotAllowed (with_head (map fst hs)))"

lemma offered_no_head: "map_of (offered V a page xs) ''HEAD'' = None"
  by (simp add: offered_def)

lemma find_routes_head:
  "match_route (demo_mux V a page) m xs =
     map_option (\<lambda>h. (h, wildcards xs)) (map_of (offered V a page xs) (if m = ''HEAD'' then ''GET'' else m))"
  by (simp add: match_route_def find_route_offered offered_no_head split: option.splits)

section \<open>Cleaned paths\<close>

lemma split_on_slash: "slash \<notin> set x \<Longrightarrow> split_on slash (x @ slash # ys) = x # split_on slash ys"
  by (induction x) auto

lemma split_on_none: "slash \<notin> set x \<Longrightarrow> split_on slash x = [x]"
  by (induction x) auto

lemma split_on_no_slash: "x \<in> set (split_on d s) \<Longrightarrow> d \<notin> set x"
  by (induction d s arbitrary: x rule: split_on.induct) (auto split: if_splits list.splits)

definition clean_seg :: "string \<Rightarrow> bool" where
  "clean_seg x \<longleftrightarrow> x \<noteq> '''' \<and> x \<noteq> ''.'' \<and> x \<noteq> ''..'' \<and> slash \<notin> set x"

lemma clean_segD: "clean_seg x \<Longrightarrow> slash \<notin> set x" "clean_seg x \<Longrightarrow> x \<noteq> []"
  by (simp_all add: clean_seg_def)

lemma clean_steps:
  "list_all (\<lambda>x. slash \<notin> set x) xs \<Longrightarrow> list_all clean_seg acc \<Longrightarrow> list_all clean_seg (foldl clean_step acc xs)"
proof (induction xs arbitrary: acc)
  case (Cons x xs)
  have "list_all clean_seg (clean_step acc x)"
    using Cons.prems by (auto simp: clean_step_def clean_seg_def list_all_iff dest: in_set_butlastD)
  then show ?case using Cons by simp
qed simp

lemma clean_steps_id: "list_all clean_seg xs \<Longrightarrow> foldl clean_step acc xs = acc @ xs"
  by (induction xs arbitrary: acc) (simp_all add: clean_step_def clean_seg_def)

lemma split_rooted:
  assumes "list_all clean_seg xs" "xs \<noteq> []"
  shows "split_on slash (tl (rooted xs)) = xs" "split_on slash (tl (rooted xs @ [slash])) = xs @ [[]]"
proof -
  have "split_on slash (x @ concat (map (\<lambda>x. slash # x) ys)) = x # ys \<and>
      split_on slash (x @ concat (map (\<lambda>x. slash # x) ys) @ [slash]) = x # ys @ [[]]"
    if "list_all clean_seg (x # ys)" for x ys
    using that
  proof (induction ys arbitrary: x)
    case Nil
    then show ?case using split_on_slash [of x "[]"] by (simp add: clean_segD split_on_none)
  next
    case (Cons y ys)
    then have "slash \<notin> set x" "list_all clean_seg (y # ys)" by (simp_all add: clean_segD)
    then show ?case using Cons.IH [of y] split_on_slash [of x] by simp
  qed
  then show "split_on slash (tl (rooted xs)) = xs" "split_on slash (tl (rooted xs @ [slash])) = xs @ [[]]"
    using assms by (cases xs; simp add: rooted_def)+
qed

lemma rooted_shape:
  assumes "list_all clean_seg xs"
  shows "rooted xs \<noteq> []" "hd (rooted xs) = slash" "xs \<noteq> [] \<Longrightarrow> last (rooted xs) \<noteq> slash" "rooted xs = [slash] \<longleftrightarrow> xs = []"
proof -
  show "rooted xs \<noteq> []" "hd (rooted xs) = slash" by (cases xs; simp add: rooted_def)+
  show end_seg: "last (rooted xs) \<noteq> slash" if "xs \<noteq> []"
    using assms that
  proof (cases xs rule: rev_cases)
    case (snoc ys y)
    then have y: "y \<noteq> []" "slash \<notin> set y" using assms by (simp_all add: clean_segD)
    then have "last y \<noteq> slash" using last_in_set [of y] by metis
    then show ?thesis using snoc y(1) by (simp add: rooted_def)
  qed simp
  show "rooted xs = [slash] \<longleftrightarrow> xs = []" using end_seg by (cases "xs = []") (auto simp: rooted_def [of "[]"])
qed

lemma cleanPath_rooted:
  assumes "list_all clean_seg xs"
  shows "cleanPath (rooted xs) = rooted xs" "xs \<noteq> [] \<Longrightarrow> cleanPath (rooted xs @ [slash]) = rooted xs @ [slash]"
proof -
  note shape = rooted_shape [OF assms]
  show "cleanPath (rooted xs) = rooted xs"
  proof (cases "xs = []")
    case True
    then show ?thesis by (simp add: cleanPath_def path_Clean_def rooted_def clean_step_def)
  next
    case False
    then show ?thesis
      using shape split_rooted(1) [OF assms False] clean_steps_id [OF assms, of "[]"]
      by (simp add: cleanPath_def path_Clean_def Let_def)
  qed
  show "cleanPath (rooted xs @ [slash]) = rooted xs @ [slash]" if "xs \<noteq> []"
    using shape split_rooted(2) [OF assms that] clean_steps_id [OF assms, of "[]"] that
    by (simp add: cleanPath_def path_Clean_def Let_def clean_step_def)
qed

text \<open>The path a redirect leads to is clean: following it does not redirect again.\<close>

lemma cleanPath_idem: "cleanPath (cleanPath p) = cleanPath p"
proof -
  define q where "q = (if hd p = slash then p else slash # p)"
  define xs where "xs = foldl clean_step [] (split_on slash (tl q))"
  have xs: "list_all clean_seg xs"
    unfolding xs_def using split_on_no_slash by (intro clean_steps) (auto simp: list_all_iff)
  have np: "path_Clean q = rooted xs" by (simp add: path_Clean_def xs_def)
  have root: "[slash] = rooted []" by (simp add: rooted_def)
  show ?thesis
  proof (cases "p = []")
    case True
    then show ?thesis using cleanPath_rooted(1) [of "[]"] by (simp add: cleanPath_def root)
  next
    case False
    then have "cleanPath p = (if last q = slash \<and> rooted xs \<noteq> [slash] then rooted xs @ [slash] else rooted xs)"
      by (simp add: cleanPath_def q_def [symmetric] np Let_def)
    then show ?thesis using cleanPath_rooted [OF xs] rooted_shape(4) [OF xs] by auto
  qed
qed

section \<open>The answers of the mux\<close>

lemma path_segments_rooted:
  assumes "list_all clean_seg xs" "xs \<noteq> []"
  shows "path_segments (rooted xs) = map pathUnescape xs"
proof -
  have seg: "takeWhile (\<lambda>c. c \<noteq> slash) (x @ concat (map (\<lambda>x. slash # x) ys)) = x"
      "dropWhile (\<lambda>c. c \<noteq> slash) (x @ concat (map (\<lambda>x. slash # x) ys)) = concat (map (\<lambda>x. slash # x) ys)"
    if "slash \<notin> set x" for x ys
    using that by (cases ys; auto simp: takeWhile_append dropWhile_append)+
  have "path_segments (concat (map (\<lambda>x. slash # x) ys)) = map pathUnescape ys" if "list_all clean_seg ys" for ys
    using that by (induction ys) (auto simp: clean_seg_def seg)
  then show ?thesis using assms by (simp add: rooted_def)
qed

text \<open>The identifier in the URL of an order is the one the handler reads.\<close>

lemma order_url:
  assumes "clean_seg oid" "CHR ''%'' \<notin> set oid" "req_EscapedPath r = ''/orders/'' @ oid"
  shows "req_Method r \<in> {''GET'', ''HEAD''} \<Longrightarrow>
      findHandler (demo_mux V a page) r = Found (handleGetOrder V a) [(''id'', oid)]"
    and "req_Method r = ''DELETE'' \<Longrightarrow>
      findHandler (demo_mux V a page) r = Found (handleDeleteOrder V a) [(''id'', oid)]"
proof -
  have id: "pathUnescape s = s" if "CHR ''%'' \<notin> set s" for s
  proof -
    have "unescape s = Some s" using that by (induction s) auto
    then show ?thesis by (simp add: pathUnescape_def)
  qed
  have xs: "list_all clean_seg [''orders'', oid]" using assms(1) by (simp add: clean_seg_def slash_def)
  have p: "req_EscapedPath r = rooted [''orders'', oid]" using assms(3) by (simp add: rooted_def slash_def)
  have segs: "path_segments (req_EscapedPath r) = [''orders'', oid]"
    unfolding p using path_segments_rooted [OF xs] id [OF assms(2)] id [of "''orders''"] by simp
  have clean: "cleanPath (req_EscapedPath r) = req_EscapedPath r" unfolding p using cleanPath_rooted(1) [OF xs] .
  have "oid \<noteq> [slash]" using assms(1) by (auto simp: clean_seg_def)
  then have off: "offered V a page [''orders'', oid] = [(''GET'', handleGetOrder V a), (''DELETE'', handleDeleteOrder V a)]"
    by (simp add: offered_def)
  show "req_Method r \<in> {''GET'', ''HEAD''} \<Longrightarrow>
      findHandler (demo_mux V a page) r = Found (handleGetOrder V a) [(''id'', oid)]"
    "req_Method r = ''DELETE'' \<Longrightarrow>
      findHandler (demo_mux V a page) r = Found (handleDeleteOrder V a) [(''id'', oid)]"
    by (auto simp: findHandler_def segs clean find_routes_head off wildcards_def Let_def)
qed

lemma findHandler_table:
  "findHandler (demo_mux V a page) r =
     (let p = req_EscapedPath r;
          xs = path_segments p
      in if req_Method r \<noteq> ''CONNECT'' \<and> cleanPath p \<noteq> p then MovedPermanently (cleanPath p)
         else mux_answer (req_Method r) xs (offered V a page xs))"
  by (simp add: findHandler_def find_routes_head mux_answer_def methods_offered Let_def split: option.split)

text \<open>
  C38: the routes: for every request, the mux with the registered patterns answers as the table
  \<open>offered\<close> says. A path that is not clean is redirected to one that is; otherwise the handler is
  the one of the path's segments and the method, with \<open>HEAD\<close> as \<open>GET\<close> and the second segment as
  \<open>id\<close>; a known path with another method gets 405 with the methods it has, and every other path
  404.
\<close>

theorem mux_is_the_table:
  "(let p = req_EscapedPath r;
        xs = path_segments p
    in findHandler (demo_mux V a page) r =
         (if req_Method r \<noteq> ''CONNECT'' \<and> cleanPath p \<noteq> p then MovedPermanently (cleanPath p)
          else mux_answer (req_Method r) xs (offered V a page xs)) \<and>
       cleanPath (cleanPath p) = cleanPath p)"
  using findHandler_table [of V a page r] cleanPath_idem by (simp add: Let_def)

section \<open>Every handler behind the mux is counted\<close>

lemma match_route_in: "match_route rts m xs = Some (h, b) \<Longrightarrow> h \<in> route_handler ` set rts"
proof -
  have "find_route rts m xs = Some (h, b) \<Longrightarrow> h \<in> route_handler ` set rts" for m
    by (induction rts) (auto split: option.splits if_splits)
  then show "match_route rts m xs = Some (h, b) \<Longrightarrow> h \<in> route_handler ` set rts"
    by (auto simp: match_route_def split: option.splits if_splits)
qed

lemma findHandler_in: "findHandler rts r = Found h b \<Longrightarrow> h \<in> route_handler ` set rts"
  using match_route_in by (fastforce simp: findHandler_def Let_def split: option.splits if_splits)

lemma ServeMux_counted:
  assumes "\<And>h. h \<in> route_handler ` set rts \<Longrightarrow> counted_handler h"
  shows "counted_handler (ServeMux rts)"
proof
  fix r w s w' s'
  assume run: "ServeMux rts r w s = (w', s')"
  have own: "s' = s" "sent_status w = None \<Longrightarrow> sent_status w' = Some (rec_status w')"
    if "\<And>h b. findHandler rts r \<noteq> Found h b \<or> req_RequestURI r = ''*''"
    using run that by (auto simp: ServeMux_def http_Error_def redirect_def split: dispatch.splits if_splits)
  have "httpRequestsTotal s' = httpRequestsTotal s \<and>
    (sent_status w = None \<longrightarrow> rec_status w = 200 \<longrightarrow> sent_status w' = Some (rec_status w'))"
  proof (cases "\<exists>h b. findHandler rts r = Found h b \<and> req_RequestURI r \<noteq> ''*''")
    case True
    then obtain h b where f: "findHandler rts r = Found h b" "req_RequestURI r \<noteq> ''*''" by blast
    note h = assms [OF findHandler_in [OF f(1)]]
    obtain r' where "h r' w s = (w', s')" using run f by (simp add: ServeMux_def)
    then show ?thesis using counted_handler.requests_kept [OF h] counted_handler.status_sent [OF h] by blast
  next
    case False
    then show ?thesis using own by auto
  qed
  then show "httpRequestsTotal s' = httpRequestsTotal s"
    and "sent_status w = None \<Longrightarrow> rec_status w = 200 \<Longrightarrow> sent_status w' = Some (rec_status w')" by blast+
qed

lemma demo_mux_counted:
  assumes "counted_handler page"
  shows "counted_handler (ServeMux (demo_mux V a page))"
  by (rule ServeMux_counted)
    (use assms create.counted_handler_axioms listing.counted_handler_axioms getting.counted_handler_axioms
      deleting.counted_handler_axioms healthz.counted_handler_axioms in \<open>auto simp: demo_mux_routes\<close>)

end
