(* ===== verification/Demo_Main.thy ===== *)
theory Demo_Main
  imports Demo_Routes
begin

text \<open>
  The life of the demo service (\<open>main\<close> of \<open>demo/app/main.go\<close>): configuration, database, routes,
  requests, and the end by a signal or by a failure. What the process meets while it runs is a
  list of events. A request is one step: the handlers of concurrent requests share nothing but
  the counters, whose increments are atomic, and the world.
\<close>

section \<open>The process\<close>

datatype server_event =
    Request request
  | ListenFailed go_error
  | Signal

datatype serving = Serving | ListenError go_error | Signalled

text \<open>The requests answered, with their answers, until the listener fails or a signal arrives.\<close>

fun serve ::
    "(request \<Rightarrow> 's \<Rightarrow> 'a \<times> 's) \<Rightarrow> server_event list \<Rightarrow> 's \<Rightarrow> (request \<times> 'a) list \<times> serving \<times> 's" where
  "serve h [] s = ([], Serving, s)"
| "serve h (Request r # es) s =
     (let (w, s1) = h r s;
          (answers, st, s2) = serve h es s1
      in ((r, w) # answers, st, s2))"
| "serve h (ListenFailed err # es) s = ([], ListenError err, s)"
| "serve h (Signal # es) s = ([], Signalled, s)"

text \<open>\<open>main\<close> returns, or \<open>log.Fatalf\<close> ends the process with exit code 1.\<close>

datatype process_end = Returned | Fatal string

record 'w os =
  os_Getenv :: "string \<Rightarrow> string"
  os_Hostname :: string
  ParseFloat :: "string \<Rightarrow> go_error + float64"
  Shutdown :: "'w \<Rightarrow> go_error option \<times> 'w"

definition start_log :: "app \<Rightarrow> string list" where
  "start_log a =
     [''statgate-demo '' @ app_version a @ '' (pod='' @ hostname a @ '') listening on :8080'',
      (let e = injector a
       in ''error injector: start='' @ fmt_f False 3 (rateStart e) @ '' end='' @ fmt_f False 3 (rateEnd e) @
          '' ramp='' @ fmt_f False 0 (rampSeconds e) @ ''s spikeAt='' @ fmt_f False 0 (spikeAtSeconds e) @
          ''s spikeDur='' @ fmt_f False 0 (spikeDurationSeconds e) @ ''s spikeRate='' @ fmt_f False 3 (spikeRate e))]"

definition no_counts :: "'w \<Rightarrow> 'w svc_state" where
  "no_counts w =
    \<lparr> svc_world = w, dbOperationsTotal = (\<lambda>k. 0), httpRequestsTotal = (\<lambda>k. 0), httpRequestDuration = (\<lambda>k. []) \<rparr>"

text \<open>
  From the registration of the routes on. \<open>None\<close>: the process is still running when the events are
  over. The deferred call closes the database only when \<open>main\<close> returns, since \<open>log.Fatalf\<close> runs no
  deferred calls.
\<close>

definition demo_run_server ::
    "'w svc \<Rightarrow> 'w os \<Rightarrow> 'w handler \<Rightarrow> app \<Rightarrow> server_event list \<Rightarrow> 'w \<Rightarrow>
     process_end option \<times> (request \<times> statusRecorder) list \<times> 'w svc_state" where
  "demo_run_server V P metrics_page a es w =
     (let (answers, st, s) = serve (demo_handler V a metrics_page) es
            (no_counts (fold (log_Printf V) (start_log a) w))
      in case st of
           Serving \<Rightarrow> (None, answers, s)
         | ListenError e \<Rightarrow> (Some (Fatal (''listen: '' @ error_text e)), answers, s)
         | Signalled \<Rightarrow>
             (case svc_call (Shutdown P) s of
                (Some e, s1) \<Rightarrow> (Some (Fatal (''shutdown: '' @ error_text e)), answers, s1)
              | (None, s1) \<Rightarrow> (Some Returned, answers, if has_db a then svc_do (sql_Close V) s1 else s1)))"

definition demo_main ::
    "'w svc \<Rightarrow> 'w os \<Rightarrow> 'w handler \<Rightarrow> server_event list \<Rightarrow> 'w \<Rightarrow>
     process_end option \<times> (request \<times> statusRecorder) list \<times> 'w svc_state" where
  "demo_main V P metrics_page es w =
     (let version = getEnv (os_Getenv P) ''APP_VERSION'' ''unknown'';
          dbURL = getEnv (os_Getenv P) ''DATABASE_URL'' '''';
          (now, w1) = svc_Now V w;
          inj = newErrorInjector (loadInjectorConfig (os_Getenv P) (ParseFloat P)) now;
          (err, w2) = (if dbURL \<noteq> '''' then NewDB V dbURL w1
                       else (None, log_Printf V ''DATABASE_URL not set, running without persistence'' w1))
      in case err of
           Some e \<Rightarrow> (Some (Fatal (''db init: '' @ error_text e)), [], no_counts w2)
         | None \<Rightarrow>
             demo_run_server V P metrics_page
               \<lparr>has_db = (dbURL \<noteq> ''''), app_version = version, hostname = os_Hostname P, injector = inj\<rparr> es w2)"

section \<open>What the counter counts\<close>

fun heard :: "server_event list \<Rightarrow> request list" where
  "heard (Request r # es) = r # heard es"
| "heard es = []"

definition answer_key :: "string \<Rightarrow> request \<times> statusRecorder \<Rightarrow> string \<times> string \<times> string \<times> string" where
  "answer_key version qa =
     (req_Method (fst qa), normalizePath (req_Path (fst qa)), fmt_d (the (sent_status (snd qa))), version)"

lemma serve_heard: "serve h es s = (answers, st, s') \<Longrightarrow> map fst answers = heard es"
  by (induction h es s arbitrary: answers rule: serve.induct) (auto split: prod.splits)

lemma serve_counts:
  assumes "counted_handler h"
  shows "serve (MetricsMiddleware V version h) es s = (answers, st, s') \<Longrightarrow>
    httpRequestsTotal s' k = httpRequestsTotal s k + count_list (map (answer_key version) answers) k \<and>
    list_all (\<lambda>qa. sent_status (snd qa) \<noteq> None) answers"
proof (induction es arbitrary: s answers)
  case (Cons ev es)
  show ?case
  proof (cases ev)
    case (Request r)
    obtain w s1 where run: "MetricsMiddleware V version h r s = (w, s1)" by fastforce
    obtain as s2 where rest: "serve (MetricsMiddleware V version h) es s1 = (as, st, s2)" "answers = (r, w) # as" "s2 = s'"
      using Cons.prems run Request by (auto split: prod.splits)
    note once = counted_handler.counted_once [OF assms run refl]
    show ?thesis
      using Cons.IH [of s1 as] rest once by (auto simp: answer_key_def)
  qed (use Cons.prems in auto)
qed simp

lemma demo_main_cases:
  assumes "demo_main V P page es w = (r, answers, s)"
  obtains (failed) e w2 where "r = Some (Fatal (''db init: '' @ error_text e))" "answers = []" "s = no_counts w2"
      "os_Getenv P ''DATABASE_URL'' \<noteq> ''''"
      "NewDB V (os_Getenv P ''DATABASE_URL'') (snd (svc_Now V w)) = (Some e, w2)"
    | (served) a w2 st s1 where
      "app_version a = getEnv (os_Getenv P) ''APP_VERSION'' ''unknown''"
      "has_db a \<longleftrightarrow> os_Getenv P ''DATABASE_URL'' \<noteq> ''''"
      "serve (demo_handler V a page) es (no_counts w2) = (answers, st, s1)"
      "httpRequestsTotal s = httpRequestsTotal s1"
      "case st of
         Serving \<Rightarrow> r = None
       | ListenError e \<Rightarrow> r = Some (Fatal (''listen: '' @ error_text e))
       | Signalled \<Rightarrow>
           (case fst (svc_call (Shutdown P) s1) of
              None \<Rightarrow> r = Some Returned
            | Some e \<Rightarrow> r = Some (Fatal (''shutdown: '' @ error_text e)))"
proof -
  have url: "getEnv (os_Getenv P) ''DATABASE_URL'' '''' = os_Getenv P ''DATABASE_URL''" by (simp add: getEnv_def)
  obtain now w1 where now: "svc_Now V w = (now, w1)" by fastforce
  obtain err w2 where db: "(if os_Getenv P ''DATABASE_URL'' \<noteq> '''' then NewDB V (os_Getenv P ''DATABASE_URL'') w1
      else (None, log_Printf V ''DATABASE_URL not set, running without persistence'' w1)) = (err, w2)" by fastforce
  define a where "a = \<lparr>has_db = (os_Getenv P ''DATABASE_URL'' \<noteq> ''''),
      app_version = getEnv (os_Getenv P) ''APP_VERSION'' ''unknown'', hostname = os_Hostname P,
      injector = newErrorInjector (loadInjectorConfig (os_Getenv P) (ParseFloat P)) now\<rparr>"
  show thesis
  proof (cases err)
    case (Some e)
    then have "os_Getenv P ''DATABASE_URL'' \<noteq> ''''" using db by (auto split: if_splits)
    then show thesis
      using assms now db Some by (intro failed [of e w2]) (simp_all add: demo_main_def url Let_def)
  next
    case None
    obtain as st s1 where run: "serve (demo_handler V a page) es (no_counts (fold (log_Printf V) (start_log a) w2)) = (as, st, s1)"
      by (metis prod.exhaust)
    have "demo_run_server V P page a es w2 = (r, answers, s)"
      using assms now db None unfolding demo_main_def url by (simp add: Let_def a_def)
    then have main: "(r, answers, s) = (case st of
                   Serving \<Rightarrow> (None, as, s1)
                 | ListenError e \<Rightarrow> (Some (Fatal (''listen: '' @ error_text e)), as, s1)
                 | Signalled \<Rightarrow>
                     (case svc_call (Shutdown P) s1 of
                        (Some e, s2) \<Rightarrow> (Some (Fatal (''shutdown: '' @ error_text e)), as, s2)
                      | (None, s2) \<Rightarrow> (Some Returned, as, if has_db a then svc_do (sql_Close V) s2 else s2)))"
      using run by (simp add: demo_run_server_def)
    show thesis
    proof (rule served)
      show "app_version a = getEnv (os_Getenv P) ''APP_VERSION'' ''unknown''"
        "has_db a \<longleftrightarrow> os_Getenv P ''DATABASE_URL'' \<noteq> ''''" by (simp_all add: a_def)
      show "serve (demo_handler V a page) es (no_counts (fold (log_Printf V) (start_log a) w2)) = (answers, st, s1)"
        using run main by (auto split: serving.splits prod.splits option.splits)
      show "httpRequestsTotal s = httpRequestsTotal s1"
        using main svc_call_reqs [of "Shutdown P" s1]
        by (auto simp: svc_do_def split: serving.splits prod.splits option.splits if_splits)
      show "case st of
         Serving \<Rightarrow> r = None
       | ListenError e \<Rightarrow> r = Some (Fatal (''listen: '' @ error_text e))
       | Signalled \<Rightarrow>
           (case fst (svc_call (Shutdown P) s1) of
              None \<Rightarrow> r = Some Returned
            | Some e \<Rightarrow> r = Some (Fatal (''shutdown: '' @ error_text e)))"
        using main by (auto split: serving.splits prod.splits option.splits)
    qed
  qed
qed

text \<open>
  C37: the counter of requests is the record of the answers. Over the whole life of the service,
  whatever it is asked and however it ends: every request that arrived before a signal or a failure
  of the listener was answered, in that order (none when the database could not be reached), each
  answer had its status sent, and the counter of a method, path, status and version is the number
  of these answers. The metrics page, a handler of the Prometheus library, is only assumed to leave
  the counter alone and to send the status it records.
\<close>

theorem counters_are_the_answers:
  assumes "counted_handler page" "demo_main V P page es w = (r, answers, s)"
  shows "httpRequestsTotal s k =
      count_list (map (answer_key (getEnv (os_Getenv P) ''APP_VERSION'' ''unknown'')) answers) k \<and>
    list_all (\<lambda>qa. sent_status (snd qa) \<noteq> None) answers \<and>
    (map fst answers = heard es \<or> answers = [] \<and> (\<exists>e. r = Some (Fatal (''db init: '' @ error_text e))))"
  using assms(2)
proof (cases rule: demo_main_cases)
  case (failed e w2)
  then show ?thesis by (auto simp: no_counts_def)
next
  case (served a w2 st s1)
  have "serve (MetricsMiddleware V (app_version a) (ServeMux (demo_mux V a page))) es (no_counts w2) = (answers, st, s1)"
    using served(3) by (simp add: demo_handler_def)
  from serve_counts [OF demo_mux_counted [OF assms(1)] this] serve_heard [OF this]
  show ?thesis using served by (simp add: no_counts_def)
qed

text \<open>A service without a database, and a metrics page.\<close>

definition demo_os :: "string \<Rightarrow> int os" where
  "demo_os url =
    \<lparr> os_Getenv = (\<lambda>k. if k = ''APP_VERSION'' then ''v1'' else if k = ''DATABASE_URL'' then url else ''''),
      os_Hostname = ''pod-1'', ParseFloat = (\<lambda>t. Inr f64_0), Shutdown = (\<lambda>w. (None, w)) \<rparr>"

definition empty_page :: "int handler" where
  "empty_page r w s = (write_body (PlainText ''# EOF'') w, s)"

lemma empty_page_counted: "counted_handler empty_page"
  by unfold_locales (auto simp: empty_page_def write_body_def)

definition demo_visit :: request where "demo_visit = demo_request ''/healthz'' (\<lambda>k. '''')"

lemma demo_visit_answer:
  "demo_handler (demo_svc ([], None)) a page demo_visit s = (w, s') \<Longrightarrow> sent_status w = Some 200"
proof -
  have xs: "list_all clean_seg [''healthz'']" by (simp add: clean_seg_def slash_def)
  have p: "req_EscapedPath demo_visit = rooted [''healthz'']" by (simp add: demo_visit_def demo_request_def rooted_def slash_def)
  have segs: "path_segments (rooted [''healthz'']) = [''healthz'']"
    using path_segments_rooted [OF xs] by (simp add: pathUnescape_def)
  have get: "req_Method demo_visit = ''GET''" by (simp add: demo_visit_def demo_request_def)
  have "findHandler (demo_mux V a page) demo_visit = Found handleHealthz []" for V
    unfolding findHandler_table p Let_def segs cleanPath_rooted(1) [OF xs] get
    by (simp add: mux_answer_def offered_def wildcards_def)
  moreover have "req_RequestURI demo_visit \<noteq> ''*''" by (simp add: demo_visit_def demo_request_def)
  ultimately show "demo_handler (demo_svc ([], None)) a page demo_visit s = (w, s') \<Longrightarrow> sent_status w = Some 200"
    by (auto simp: demo_handler_def MetricsMiddleware_def ServeMux_def handleHealthz_def new_recorder_def Let_def
        split: prod.splits)
qed

theorem counters_are_the_answers_witness:
  "\<exists>answers s. demo_main (demo_svc ([], None)) (demo_os '''') empty_page [Request demo_visit, Request demo_visit, Signal] 0 =
      (Some Returned, answers, s) \<and>
     httpRequestsTotal s (''GET'', ''/healthz'', ''200'', ''v1'') = 2"
proof -
  let ?es = "[Request demo_visit, Request demo_visit, Signal]"
  obtain r answers s where main: "demo_main (demo_svc ([], None)) (demo_os '''') empty_page ?es 0 = (r, answers, s)"
    by (metis prod.exhaust)
  obtain w1 w2 where ans: "answers = [(demo_visit, w1), (demo_visit, w2)]" "sent_status w1 = Some 200"
      "sent_status w2 = Some 200" "r = Some Returned"
    using main demo_visit_answer
    by (auto simp: demo_main_def demo_run_server_def demo_os_def getEnv_def svc_call_def Let_def
        split: prod.splits)
  have two: "fmt_d 200 = ''200''" by (simp add: fmt_d_def digits.simps char_of_eq_iff)
  have "no_uuid ''/healthz''" by (auto dest: uuid_at_length)
  then have "normalizePath ''/healthz'' = ''/healthz''" by (rule normalizePath_id)
  then have "answer_key ''v1'' (demo_visit, w) = (''GET'', ''/healthz'', ''200'', ''v1'')" if "sent_status w = Some 200" for w
    using that two by (simp add: answer_key_def demo_visit_def demo_request_def)
  then show ?thesis
    using counters_are_the_answers [OF empty_page_counted main, of "(''GET'', ''/healthz'', ''200'', ''v1'')"] main ans
    by (simp add: demo_os_def getEnv_def)
qed

text \<open>
  C40: a database that never answers is fatal: the service gives up after five attempts, each of
  which closes its connection and waits two seconds (the last one too), reports the last ping's
  error, and ends with an error before it answered a request; the schema is not touched.
\<close>

theorem main_gives_up:
  assumes "dsn = os_Getenv P ''DATABASE_URL''" "dsn \<noteq> ''''"
    and "\<And>w. fst (sql_Open V dsn w) = None" "\<And>w. fst (sql_Ping V w) = Some e"
  shows "demo_main V P page es w =
    (Some (Fatal (''db init: db ping after retries: '' @ error_text e)), [],
     no_counts (fold (failed_attempt V dsn e) [1, 2, 3, 4, 5] (snd (svc_Now V w))))"
proof -
  have "getEnv (os_Getenv P) ''DATABASE_URL'' '''' = dsn" using assms(1) by (simp add: getEnv_def)
  then show ?thesis
    using assms(2) NewDB_gives_up [OF assms(3,4)] by (simp add: demo_main_def Let_def case_prod_unfold)
qed

theorem main_gives_up_witness:
  "demo_main (demo_svc ([], None)) (demo_os ''postgres://'') empty_page [Signal] 0 =
     (Some (Fatal ''db init: db ping after retries: connection refused''), [], no_counts 10001000000)"
proof -
  have *: "''postgres://'' = os_Getenv (demo_os ''postgres://'') ''DATABASE_URL''" "''postgres://'' \<noteq> ''''"
    "\<And>w. fst (sql_Open (demo_svc ([], None)) ''postgres://'' w) = None"
    "\<And>w. fst (sql_Ping (demo_svc ([], None)) w) = Some (PlainError ''connection refused'')"
    by (simp_all add: demo_svc_def demo_os_def)
  show ?thesis
    using main_gives_up [OF *, where page = empty_page and es = "[Signal]" and w = 0]
    by (simp add: failed_attempt_def demo_svc_def)
qed

end
