(* ===== verification/Progress.thy ===== *)
theory Progress
  imports Reconciler_Runs VirtualService_Props
begin

text \<open>
  A rollout that goes well: the locale \<open>healthy_world\<close> describes an environment in which reads
  and writes succeed, the canary pods are ready, and every analysis is passed; it leaves open how
  long anything takes. One cycle in it is computed for every phase, and a run of cycles between
  which time passes reaches the promotion.
\<close>

section \<open>The split in the mesh\<close>

text \<open>\<open>at_split E cr w m\<close>: the destinations of \<open>m\<close> have the weights of a canary share \<open>w\<close>.\<close>

definition at_split :: "'w env \<Rightarrow> canary_rollout \<Rightarrow> int32 \<Rightarrow> jmap \<Rightarrow> bool" where
  "at_split E cr w m \<longleftrightarrow>
     (case vs_routes E m of
        None \<Rightarrow> False
      | Some rs \<Rightarrow>
          map (weighted_route E (StableServiceRef (Spec cr)) (100 - w) (CanaryServiceRef (Spec cr)) w) rs = rs)"

lemma at_split_spec: "Spec cr' = Spec cr \<Longrightarrow> at_split E cr' w m = at_split E cr w m"
  by (simp add: at_split_def split: option.split)

section \<open>The world\<close>

text \<open>
  \<open>obj\<close> is the stored rollout, \<open>mesh\<close> its VirtualService, \<open>instant\<close> the time, \<open>tested\<close> the stored
  results of an analysis that is passed.
\<close>

locale healthy_world =
  fixes E :: "'w env" and ns n :: string and healthy :: "'w \<Rightarrow> bool" and obj :: "'w \<Rightarrow> canary_rollout"
    and mesh :: "'w \<Rightarrow> jmap" and instant :: "'w \<Rightarrow> gotime" and tested :: "sprt_metric_state list \<Rightarrow> bool"
  assumes api: "unstructured_api E"
    and tested_empty: "tested []"
    and tested_obj: "healthy w \<Longrightarrow> tested (AnalysisState (Status (obj w)))"
    and mesh_routes: "healthy w \<Longrightarrow> vs_routes E (mesh w) \<noteq> None"
    and read_clock: "healthy w \<Longrightarrow> \<exists>t w'. time_Now E w = (t, w') \<and> instant w \<le> t \<and> t \<le> instant w' \<and>
      healthy w' \<and> obj w' = obj w \<and> mesh w' = mesh w"
    and read_rollout: "healthy w \<Longrightarrow> \<exists>w'. get_rollout E ns n w = (Inr (obj w), w') \<and> instant w \<le> instant w' \<and>
      healthy w' \<and> obj w' = obj w \<and> mesh w' = mesh w"
    and read_vs: "healthy w \<Longrightarrow> \<exists>w'. get_vs E (Namespace (obj w)) (VirtualServiceRef (Spec (obj w))) w = (Inr (mesh w), w') \<and>
      instant w \<le> instant w' \<and> healthy w' \<and> obj w' = obj w \<and> mesh w' = mesh w"
    and write_vs: "healthy w \<Longrightarrow> vs_routes E v \<noteq> None \<Longrightarrow> (\<And>h. h \<noteq> ''spec'' \<Longrightarrow> v h = mesh w h) \<Longrightarrow>
      \<exists>w'. update_vs E v w = (None, w') \<and> instant w \<le> instant w' \<and> healthy w' \<and> obj w' = obj w \<and> mesh w' = v"
    and write_status: "healthy w \<Longrightarrow> tested (AnalysisState st) \<Longrightarrow>
      \<exists>v w'. update_status E ((obj w)\<lparr>Status := st\<rparr>) w = (None, w') \<and> instant w \<le> instant w' \<and> healthy w' \<and>
        obj w' = (obj w)\<lparr>Status := st, ResourceVersion := v\<rparr> \<and> mesh w' = mesh w"
    and pods_ready: "healthy w \<Longrightarrow> \<exists>ls w1 pods w2.
      get_deployment E (Namespace (obj w)) (TargetRef (Spec (obj w))) w = (Inr \<lparr>MatchLabels = Some ls\<rparr>, w1) \<and>
      list_pods E (Namespace (obj w)) ls w1 = (Inr pods, w2) \<and> list_ex pod_ready pods \<and>
      instant w \<le> instant w2 \<and> healthy w2 \<and> obj w2 = obj w \<and> mesh w2 = mesh w"
    and passed: "healthy (world s) \<Longrightarrow> Analysis (Spec (obj (world s))) = Some a \<Longrightarrow>
      PrometheusURL (Spec (obj (world s))) \<noteq> '''' \<and>
      (\<exists>sts reason s'. RunSPRT E (PrometheusURL (Spec (obj (world s)))) (Namespace (obj (world s))) (Name (obj (world s))) a
          (AnalysisState (Status (obj (world s)))) s = (Inr (SPRTPromote, sts, reason), s') \<and> tested sts \<and>
        instant (world s) \<le> instant (world s') \<and> healthy (world s') \<and> obj (world s') = obj (world s) \<and>
        mesh (world s') = mesh (world s))"
begin

text \<open>Time has passed and nothing else has changed.\<close>

definition rests :: "'w \<Rightarrow> 'w \<Rightarrow> bool" where
  "rests w w' \<longleftrightarrow> healthy w' \<and> obj w' = obj w \<and> mesh w' = mesh w \<and> instant w \<le> instant w'"

lemma rests_trans: "rests w w' \<Longrightarrow> rests w' w'' \<Longrightarrow> rests w w''"
  by (auto simp: rests_def)

subsection \<open>Writes\<close>

text \<open>The stored object after a write of the status \<open>st\<close>\<close>

definition stores :: "rollout_status \<Rightarrow> 'w \<Rightarrow> 'w \<Rightarrow> bool" where
  "stores st w w' \<longleftrightarrow> healthy w' \<and> mesh w' = mesh w \<and> instant w \<le> instant w' \<and>
     (\<exists>v. obj w' = (obj w)\<lparr>Status := st, ResourceVersion := v\<rparr>)"

lemma setStatus_stores:
  assumes w: "healthy (world s)" and cr: "cr = (obj (world s))\<lparr>Status := st\<rparr>" "tested (AnalysisState st)"
  obtains t s' where "setStatus E cr phase i wt msg s = (None, s')" "instant (world s) \<le> t" "t \<le> instant (world s')"
    "stores (st\<lparr>Phase := phase, CurrentStep := i, CurrentWeight := wt, LastTransitionTime := t, Message := msg\<rparr>)
       (world s) (world s')"
proof -
  obtain t w1 where c: "time_Now E (world s) = (t, w1)" "instant (world s) \<le> t" "t \<le> instant w1" "healthy w1"
      "obj w1 = obj (world s)" "mesh w1 = mesh (world s)"
    using read_clock [OF w] by blast
  let ?st = "st\<lparr>Phase := phase, CurrentStep := i, CurrentWeight := wt, LastTransitionTime := t, Message := msg\<rparr>"
  have obj1: "with_status phase i wt t msg cr = (obj w1)\<lparr>Status := ?st\<rparr>"
    using c(5) cr by (simp add: with_status_def)
  obtain v w2 where u: "update_status E ((obj w1)\<lparr>Status := ?st\<rparr>) w1 = (None, w2)" "instant w1 \<le> instant w2" "healthy w2"
      "obj w2 = (obj w1)\<lparr>Status := ?st, ResourceVersion := v\<rparr>" "mesh w2 = mesh w1"
    using write_status [OF c(4), of ?st] cr(2) by auto
  let ?g = "gauge_update (recordCanaryWeight (Namespace ((obj w1)\<lparr>Status := ?st\<rparr>)) (Name ((obj w1)\<lparr>Status := ?st\<rparr>)) wt)
      (gauge_update (recordRolloutPhase (Namespace ((obj w1)\<lparr>Status := ?st\<rparr>)) (Name ((obj w1)\<lparr>Status := ?st\<rparr>)) phase) s)"
  have "setStatus E cr phase i wt msg s = (None, s\<lparr>world := w2, gauges_of := gauges_of ?g\<rparr>)"
    by (simp add: setStatus_def call_def c(1) obj1 gauge_update_def u(1))
  moreover have "stores ?st (world s) w2" using c u by (auto simp: stores_def)
  ultimately show thesis using that [of "s\<lparr>world := w2, gauges_of := gauges_of ?g\<rparr>" t] c(2,3) u(2) by simp
qed

lemma return_update_stores:
  assumes w: "healthy (world s)" and cr: "cr = (obj (world s))\<lparr>Status := st\<rparr>" "tested (AnalysisState st)"
  obtains s' where "return_update E cr d s = (Ret (d, None), s')" "stores st (world s) (world s')"
proof -
  obtain v w2 where u: "update_status E ((obj (world s))\<lparr>Status := st\<rparr>) (world s) = (None, w2)"
      "instant (world s) \<le> instant w2" "healthy w2" "obj w2 = (obj (world s))\<lparr>Status := st, ResourceVersion := v\<rparr>"
      "mesh w2 = mesh (world s)"
    using write_status [OF w cr(2)] by blast
  show thesis
    by (rule that [of "s\<lparr>world := w2\<rparr>"]) (use u cr in \<open>auto simp: return_update_def call_def stores_def\<close>)
qed

lemma set_weights_splits:
  assumes w: "healthy (world s)" and cr: "cr = obj (world s)"
  obtains s' where "set_weights E cr (100 - c) c s = (None, s')" "healthy (world s')" "obj (world s') = cr"
    "instant (world s) \<le> instant (world s')" "at_split E cr c (mesh (world s'))"
proof -
  let ?f = "weighted_route E (StableServiceRef (Spec cr)) (100 - c) (CanaryServiceRef (Spec cr)) c"
  obtain w1 where g: "get_vs E (Namespace cr) (VirtualServiceRef (Spec cr)) (world s) = (Inr (mesh (world s)), w1)"
      "instant (world s) \<le> instant w1" "healthy w1" "obj w1 = cr" "mesh w1 = mesh (world s)"
    using read_vs [OF w] cr by auto
  obtain rs where rs: "vs_routes E (mesh (world s)) = Some rs" using mesh_routes [OF w] by blast
  obtain v where v: "vs_routes E v = Some (map ?f rs)" "\<And>h. h \<noteq> ''spec'' \<Longrightarrow> v h = mesh (world s) h"
    "set_weights E cr (100 - c) c s =
      (map_option (Wrapped (''update VirtualService '' @ Namespace cr @ ''/'' @ VirtualServiceRef (Spec cr))) (fst (update_vs E v w1)),
       s\<lparr>world := snd (update_vs E v w1)\<rparr>)"
    using SetVirtualServiceWeights_stores [OF api g(1) rs, of "StableServiceRef (Spec cr)" "100 - c" "CanaryServiceRef (Spec cr)" c]
    unfolding set_weights_def by blast
  have routes: "vs_routes E v \<noteq> None" using v(1) by simp
  have v1: "\<And>h. h \<noteq> ''spec'' \<Longrightarrow> v h = mesh w1 h" using v(2) g(5) by simp
  obtain w2 where u: "update_vs E v w1 = (None, w2)" "instant w1 \<le> instant w2" "healthy w2" "obj w2 = obj w1" "mesh w2 = v"
    using write_vs [OF g(3) routes v1] by auto
  have "map ?f (map ?f rs) = map ?f rs"
    by (simp add: unstructured_api.weighted_route_overwrites [OF api])
  then have split: "at_split E cr c v" using v(1) by (simp add: at_split_def)
  show thesis
    by (rule that [of "s\<lparr>world := w2\<rparr>"]) (use v(3) u g split in simp_all)
qed

subsection \<open>One cycle\<close>

text \<open>A write that moves the rollout, and one that leaves phase, step, weight and transition time.\<close>

definition moves :: "'w \<Rightarrow> 'w \<Rightarrow> rollout_phase \<Rightarrow> int32 \<Rightarrow> int32 \<Rightarrow> bool" where
  "moves w w' p i c \<longleftrightarrow> healthy w' \<and> Spec (obj w') = Spec (obj w) \<and> instant w \<le> instant w' \<and>
     Phase (Status (obj w')) = p \<and> CurrentStep (Status (obj w')) = i \<and> CurrentWeight (Status (obj w')) = c \<and>
     instant w \<le> LastTransitionTime (Status (obj w')) \<and> LastTransitionTime (Status (obj w')) \<le> instant w'"

definition waits :: "'w \<Rightarrow> 'w \<Rightarrow> bool" where
  "waits w w' \<longleftrightarrow> healthy w' \<and> Spec (obj w') = Spec (obj w) \<and> instant w \<le> instant w' \<and> mesh w' = mesh w \<and>
     Phase (Status (obj w')) = Phase (Status (obj w)) \<and> CurrentStep (Status (obj w')) = CurrentStep (Status (obj w)) \<and>
     CurrentWeight (Status (obj w')) = CurrentWeight (Status (obj w)) \<and>
     LastTransitionTime (Status (obj w')) = LastTransitionTime (Status (obj w))"

lemma stores_moves:
  assumes "stores (st\<lparr>Phase := p, CurrentStep := i, CurrentWeight := c, LastTransitionTime := t, Message := msg\<rparr>) w w'"
    "instant w \<le> t" "t \<le> instant w'"
  shows "moves w w' p i c \<and> mesh w' = mesh w"
  using assms by (auto simp: stores_def moves_def)

lemma moves_after: "rests w w1 \<Longrightarrow> moves w1 w' p i c \<Longrightarrow> moves w w' p i c"
  by (auto simp: rests_def moves_def)

lemma outcome_after:
  assumes "waits w1 w' \<and> A \<or> moves w1 w' p i c \<and> mesh w' = mesh w1 \<and> B" "rests w w1"
  shows "waits w w' \<and> A \<or> moves w w' p i c \<and> mesh w' = mesh w \<and> B"
  using assms by (auto simp: rests_def waits_def moves_def)

lemma cycle_reads:
  assumes "healthy (world s)"
  obtains s1 where "Reconcile E ns n s = reconcile_rollout E (obj (world s)) s1" "rests (world s) (world s1)"
proof -
  obtain w1 where "get_rollout E ns n (world s) = (Inr (obj (world s)), w1)" "rests (world s) w1"
    using read_rollout [OF assms] by (auto simp: rests_def)
  then show thesis by (intro that [of "s\<lparr>world := w1\<rparr>"]) (simp_all add: Reconcile_def call_def)
qed

lemma ready_reads:
  assumes "healthy (world s)" "cr = obj (world s)"
  obtains s1 where "isCanaryReady E (Namespace cr) (TargetRef (Spec cr)) s = (Ret (Inr True), s1)"
    "rests (world s) (world s1)"
proof -
  obtain ls w1 pods w2 where "get_deployment E (Namespace cr) (TargetRef (Spec cr)) (world s) = (Inr \<lparr>MatchLabels = Some ls\<rparr>, w1)"
      "list_pods E (Namespace cr) ls w1 = (Inr pods, w2)" "list_ex pod_ready pods" "rests (world s) w2"
    using pods_ready [OF assms(1)] assms(2) by (auto simp: rests_def)
  then show thesis by (intro that [of "s\<lparr>world := w2\<rparr>"]) (simp_all add: isCanaryReady_def call_def)
qed

lemma clock_reads_now:
  assumes "healthy (world s)"
  obtains t s1 where "call (time_Now E) s = (t, s1)" "instant (world s) \<le> t" "t \<le> instant (world s1)"
    "rests (world s) (world s1)"
proof -
  obtain t w1 where "time_Now E (world s) = (t, w1)" "instant (world s) \<le> t" "t \<le> instant w1" "rests (world s) w1"
    using read_clock [OF assms] by (auto simp: rests_def)
  then show thesis by (intro that [of t "s\<lparr>world := w1\<rparr>"]) (simp_all add: call_def)
qed

lemma return_status_moves:
  assumes "healthy (world s)" "cr = (obj (world s))\<lparr>Status := st\<rparr>" "tested (AnalysisState st)"
  obtains s' where "return_status E cr d p i c msg s = (Ret (d, None), s')" "moves (world s) (world s') p i c"
    "mesh (world s') = mesh (world s)"
proof -
  obtain t s' where "setStatus E cr p i c msg s = (None, s')" "instant (world s) \<le> t" "t \<le> instant (world s')"
      "stores (st\<lparr>Phase := p, CurrentStep := i, CurrentWeight := c, LastTransitionTime := t, Message := msg\<rparr>) (world s) (world s')"
    using setStatus_stores [OF assms] by metis
  then show thesis using stores_moves that by (simp add: return_status_def)
qed

definition next_phase :: "canary_rollout \<Rightarrow> rollout_phase" where
  "next_phase cr = (if int (length (Steps (Spec cr))) \<le> sint (CurrentStep (Status cr) + 1) then PhasePromoted else PhaseRunning)"

definition next_weight :: "canary_rollout \<Rightarrow> int32" where
  "next_weight cr = (if int (length (Steps (Spec cr))) \<le> sint (CurrentStep (Status cr) + 1) then 100 else CurrentWeight (Status cr))"

text \<open>From the timer on, the test passed or absent\<close>

lemma timer_outcome:
  assumes w: "healthy (world s)" and st: "cr = (obj (world s))\<lparr>Status := st\<rparr>" "tested (AnalysisState st)"
    and same: "Phase st = Phase (Status (obj (world s)))" "CurrentStep st = CurrentStep (Status (obj (world s)))"
      "CurrentWeight st = CurrentWeight (Status (obj (world s)))"
      "LastTransitionTime st = LastTransitionTime (Status (obj (world s)))"
    and pass: "Analysis (Spec cr) = None \<or> all_promote (AnalysisState st)"
    and t: "instant w0 \<le> t" "t \<le> instant (world s)" "elapsed = time_Sub t (LastTransitionTime st)"
  obtains d s' where
    "reconcile_timer E cr (int64_of_int32 (CurrentStep st)) (seconds p) elapsed iv s = (Ret (d, None), s')"
    "waits (world s) (world s') \<and> instant w0 < LastTransitionTime st + sint p * 1000000000 \<or>
     moves (world s) (world s') (next_phase cr) (CurrentStep st + 1) (next_weight cr) \<and> mesh (world s') = mesh (world s) \<and>
       LastTransitionTime st + sint p * 1000000000 \<le> instant (world s')"
proof (cases "dur_lt elapsed (seconds p)")
  case True
  let ?d = "if dur_lt (seconds p - elapsed) iv then seconds p - elapsed else iv"
  obtain s' where u: "return_update E cr ?d s = (Ret (?d, None), s')" "stores st (world s) (world s')"
    using return_update_stores [OF w st] by blast
  have "t - LastTransitionTime st < sint p * 1000000000"
    using True t(3) elapsed_pause [of "cr\<lparr>Status := st\<rparr>" t p] by (simp add: elapsed_at_def)
  then have "instant w0 < LastTransitionTime st + sint p * 1000000000" using t(1) by simp
  moreover have "waits (world s) (world s')" using u(2) same by (auto simp: stores_def waits_def)
  moreover have "reconcile_timer E cr (int64_of_int32 (CurrentStep st)) (seconds p) elapsed iv s = (Ret (?d, None), s')"
    using True u(1) by (simp add: reconcile_timer_def Let_def)
  ultimately show thesis using that by blast
next
  case False
  define cr1 where "cr1 = cr\<lparr>Status := (Status cr)\<lparr>AnalysisState := []\<rparr>\<rparr>"
  define g where "g = gauge_update (reset_gauges cr) s"
  have cr1: "cr1 = (obj (world g))\<lparr>Status := st\<lparr>AnalysisState := []\<rparr>\<rparr>" "tested (AnalysisState (st\<lparr>AnalysisState := []\<rparr>))"
    "healthy (world g)" "world g = world s"
    using st w tested_empty by (simp_all add: cr1_def g_def)
  have "reconcile_timer E cr (int64_of_int32 (CurrentStep st)) (seconds p) elapsed iv s =
      reconcile_advance E cr (int64_of_int32 (CurrentStep st)) s"
    using False pass st(1) by (auto simp: reconcile_timer_def reconcile_gate_def)
  also have "\<dots> = return_status E cr1 (if int (length (Steps (Spec cr))) \<le> sint (CurrentStep st + 1) then 0 else Second)
      (next_phase cr) (CurrentStep st + 1) (next_weight cr)
      (if int (length (Steps (Spec cr))) \<le> sint (CurrentStep st + 1) then ''Rollout promoted, 100% traffic to canary''
       else ''Advancing to step '' @ fmt_d (sint (CurrentStep st + 1))) g"
    unfolding reconcile_advance_def Let_def int32_next cr1_def [symmetric] g_def [symmetric]
    by (simp add: next_phase_def next_weight_def cr1_def st(1))
  finally have run: "reconcile_timer E cr (int64_of_int32 (CurrentStep st)) (seconds p) elapsed iv s = \<dots>" .
  obtain d s' where fin: "reconcile_timer E cr (int64_of_int32 (CurrentStep st)) (seconds p) elapsed iv s = (Ret (d, None), s')"
      "moves (world s) (world s') (next_phase cr) (CurrentStep st + 1) (next_weight cr)" "mesh (world s') = mesh (world s)"
    using return_status_moves [OF cr1(3,1,2)] run cr1(4) by metis
  have "LastTransitionTime st + sint p * 1000000000 \<le> t"
    using False t(3) elapsed_pause [of "cr\<lparr>Status := st\<rparr>" t p] by (simp add: elapsed_at_def)
  then show thesis using that [OF fin(1)] fin(2,3) t(2) by (auto simp: moves_def)
qed

subsection \<open>Whole cycles\<close>

definition goes_on :: "canary_rollout \<Rightarrow> bool" where
  "goes_on cr \<longleftrightarrow> \<not> Abort (Spec cr) \<and> \<not> Paused (Spec cr)"

lemma start_cycle:
  assumes w: "healthy (world s)" and cr: "cr = obj (world s)" "goes_on cr" "Phase (Status cr) \<in> {'''', PhasePending}"
  obtains d s' where "Reconcile E ns n s = (Ret (d, None), s')" "moves (world s) (world s') PhaseRunning 0 0"
    "mesh (world s') = mesh (world s)"
proof -
  obtain s1 where r: "Reconcile E ns n s = reconcile_rollout E cr s1" "rests (world s) (world s1)"
    using cycle_reads [OF w] cr(1) by metis
  have h: "healthy (world s1)" "cr = (obj (world s1))\<lparr>Status := Status cr\<rparr>" "tested (AnalysisState (Status cr))"
    using r(2) cr(1) tested_obj [OF w] by (simp_all add: rests_def)
  obtain s' where "return_status E cr Second PhaseRunning 0 0 ''Rollout started'' s1 = (Ret (Second, None), s')"
      "moves (world s1) (world s') PhaseRunning 0 0" "mesh (world s') = mesh (world s1)"
    using return_status_moves [OF h] by metis
  moreover have "reconcile_rollout E cr s1 = return_status E cr Second PhaseRunning 0 0 ''Rollout started'' s1"
    using cr(2,3) by (auto simp: reconcile_rollout_def goes_on_def Let_def)
  ultimately show thesis using that r moves_after [OF r(2)] by (auto simp: rests_def)
qed

text \<open>A cycle of a running rollout up to the comparison of the weights\<close>

lemma running_reads:
  assumes w: "healthy (world s)" and cr: "cr = obj (world s)" "goes_on cr" "Phase (Status cr) = PhaseRunning"
    and step: "current_step cr = Some step"
  obtains s1 where "Reconcile E ns n s = reconcile_step E cr (int64_of_int32 (CurrentStep (Status cr))) step s1"
    "rests (world s) (world s1)"
proof -
  obtain s1 where r: "Reconcile E ns n s = reconcile_rollout E cr s1" "rests (world s) (world s1)"
    using cycle_reads [OF w] cr(1) by metis
  have h: "healthy (world s1)" "cr = obj (world s1)" using r(2) cr(1) by (simp_all add: rests_def)
  obtain s2 where c: "isCanaryReady E (Namespace cr) (TargetRef (Spec cr)) s1 = (Ret (Inr True), s2)"
      "rests (world s1) (world s2)"
    using ready_reads [OF h] by metis
  have "reconcile_rollout E cr s1 = reconcile_step E cr (int64_of_int32 (CurrentStep (Status cr))) step s2"
    using cr(2,3) step c(1)
    by (auto simp: reconcile_rollout_def goes_on_def reconcile_running_def current_step_def Let_def split: if_splits)
  then show thesis using that r rests_trans c(2) by metis
qed

text \<open>From the analysis on, with the weight in place\<close>

lemma analysis_outcome:
  assumes w: "healthy (world s)" and cr: "cr = obj (world s)"
    and t: "instant w0 \<le> t" "t \<le> instant (world s)"
  obtains d s' where "reconcile_analysis E cr (int64_of_int32 (CurrentStep (Status cr))) (seconds p)
      (time_Sub t (LastTransitionTime (Status cr))) s = (Ret (d, None), s')"
    "waits (world s) (world s') \<and> instant w0 < LastTransitionTime (Status cr) + sint p * 1000000000 \<or>
     moves (world s) (world s') (next_phase cr) (CurrentStep (Status cr) + 1) (next_weight cr) \<and>
       mesh (world s') = mesh (world s) \<and>
       LastTransitionTime (Status cr) + sint p * 1000000000 \<le> instant (world s')"
proof (cases "Analysis (Spec cr)")
  case None
  have st: "cr = (obj (world s))\<lparr>Status := Status cr\<rparr>" "tested (AnalysisState (Status cr))"
    using cr tested_obj [OF w] by simp_all
  have eqs: "Phase (Status cr) = Phase (Status (obj (world s)))" "CurrentStep (Status cr) = CurrentStep (Status (obj (world s)))"
    "CurrentWeight (Status cr) = CurrentWeight (Status (obj (world s)))"
    "LastTransitionTime (Status cr) = LastTransitionTime (Status (obj (world s)))" using cr by simp_all
  obtain d s' where tm: "reconcile_timer E cr (int64_of_int32 (CurrentStep (Status cr))) (seconds p)
      (time_Sub t (LastTransitionTime (Status cr))) (analysis_interval (Spec cr)) s = (Ret (d, None), s')"
    "waits (world s) (world s') \<and> instant w0 < LastTransitionTime (Status cr) + sint p * 1000000000 \<or>
     moves (world s) (world s') (next_phase cr) (CurrentStep (Status cr) + 1) (next_weight cr) \<and>
       mesh (world s') = mesh (world s) \<and>
       LastTransitionTime (Status cr) + sint p * 1000000000 \<le> instant (world s')"
    by (rule timer_outcome [OF w st eqs disjI1 [OF None] t refl, of p "analysis_interval (Spec cr)"])
  show thesis
    by (rule that [OF _ tm(2), of d]) (use None tm(1) in \<open>simp add: reconcile_analysis_def Let_def split: bool.split\<close>)
next
  case (Some a)
  obtain sts reason s2 where v: "PrometheusURL (Spec cr) \<noteq> ''''"
      "RunSPRT E (PrometheusURL (Spec cr)) (Namespace cr) (Name cr) a (AnalysisState (Status cr)) s =
        (Inr (SPRTPromote, sts, reason), s2)" "tested sts" "rests (world s) (world s2)"
    using passed [OF w] Some cr by (auto simp: rests_def)
  let ?cr = "with_analysis sts reason cr" and ?st = "(Status cr)\<lparr>AnalysisState := sts, Message := reason\<rparr>"
  have h2: "healthy (world s2)" "?cr = (obj (world s2))\<lparr>Status := ?st\<rparr>" "tested (AnalysisState ?st)"
    using v(3,4) cr by (simp_all add: rests_def with_analysis_def)
  have eqs: "Phase ?st = Phase (Status (obj (world s2)))" "CurrentStep ?st = CurrentStep (Status (obj (world s2)))"
    "CurrentWeight ?st = CurrentWeight (Status (obj (world s2)))"
    "LastTransitionTime ?st = LastTransitionTime (Status (obj (world s2)))" "t \<le> instant (world s2)"
    using v(4) cr t(2) by (simp_all add: rests_def)
  have all: "Analysis (Spec ?cr) = None \<or> all_promote (AnalysisState ?st)" using RunSPRT_promote [OF v(2)] by simp
  have next_cr: "next_phase ?cr = next_phase cr" "next_weight ?cr = next_weight cr"
    by (simp_all add: next_phase_def next_weight_def with_analysis_def)
  obtain d s' where tm: "reconcile_timer E ?cr (int64_of_int32 (CurrentStep ?st)) (seconds p)
      (time_Sub t (LastTransitionTime ?st)) (analysis_interval (Spec cr)) s2 = (Ret (d, None), s')"
    "waits (world s2) (world s') \<and> instant w0 < LastTransitionTime ?st + sint p * 1000000000 \<or>
     moves (world s2) (world s') (next_phase ?cr) (CurrentStep ?st + 1) (next_weight ?cr) \<and>
       mesh (world s') = mesh (world s2) \<and> LastTransitionTime ?st + sint p * 1000000000 \<le> instant (world s')"
    by (rule timer_outcome [OF h2 eqs(1-4) all t(1) eqs(5) refl, of p "analysis_interval (Spec cr)"])
  have "waits (world s) (world s') \<and> instant w0 < LastTransitionTime (Status cr) + sint p * 1000000000 \<or>
     moves (world s) (world s') (next_phase cr) (CurrentStep (Status cr) + 1) (next_weight cr) \<and>
       mesh (world s') = mesh (world s) \<and> LastTransitionTime (Status cr) + sint p * 1000000000 \<le> instant (world s')"
    using outcome_after [OF tm(2) v(4)] by (simp add: next_cr)
  then show thesis
    by (rule that [rotated]) (use Some v(1,2) tm(1) in \<open>simp add: reconcile_analysis_def\<close>)
qed

lemma running_cycle:
  assumes w: "healthy (world s)" and cr: "cr = obj (world s)" "goes_on cr" "Phase (Status cr) = PhaseRunning"
    and step: "current_step cr = Some step"
  obtains d s' where "Reconcile E ns n s = (Ret (d, None), s')"
    "if CurrentWeight (Status cr) \<noteq> Weight step
     then moves (world s) (world s') PhaseRunning (CurrentStep (Status cr)) (Weight step) \<and>
       at_split E cr (Weight step) (mesh (world s'))
     else waits (world s) (world s') \<and>
         instant (world s) < LastTransitionTime (Status cr) + sint (PauseSeconds step) * 1000000000 \<or>
       moves (world s) (world s') (next_phase cr) (CurrentStep (Status cr) + 1) (next_weight cr) \<and>
         mesh (world s') = mesh (world s) \<and>
         LastTransitionTime (Status cr) + sint (PauseSeconds step) * 1000000000 \<le> instant (world s')"
proof -
  let ?i = "CurrentStep (Status cr)"
  obtain s0 where r: "Reconcile E ns n s = reconcile_step E cr (int64_of_int32 ?i) step s0" "rests (world s) (world s0)"
    using running_reads [OF assms] by metis
  obtain t s1 where c: "call (time_Now E) s0 = (t, s1)" "instant (world s0) \<le> t" "t \<le> instant (world s1)"
      "rests (world s0) (world s1)"
    using clock_reads_now r(2) by (metis rests_def)
  have r1: "rests (world s) (world s1)" using rests_trans [OF r(2) c(4)] .
  then have h: "healthy (world s1)" "cr = obj (world s1)" using cr(1) by (simp_all add: rests_def)
  have t: "instant (world s) \<le> t" using r(2) c(2) by (simp add: rests_def)
  show thesis
  proof (cases "CurrentWeight (Status cr) = Weight step")
    case False
    obtain s2 where set: "set_weights E cr (100 - Weight step) (Weight step) s1 = (None, s2)" "healthy (world s2)"
        "obj (world s2) = cr" "instant (world s1) \<le> instant (world s2)" "at_split E cr (Weight step) (mesh (world s2))"
      using set_weights_splits [OF h] by metis
    have h2: "cr = (obj (world s2))\<lparr>Status := Status cr\<rparr>" "tested (AnalysisState (Status cr))"
      using set(3) tested_obj [OF set(2)] by simp_all
    let ?msg = "''Step '' @ fmt_d (sint (int64_of_int32 ?i)) @ '': canary weight set to '' @ fmt_d (sint (Weight step)) @ ''%''"
    obtain s' where st: "return_status E cr (seconds (PauseSeconds step)) PhaseRunning ?i (Weight step) ?msg s2 =
        (Ret (seconds (PauseSeconds step), None), s')" "moves (world s2) (world s') PhaseRunning ?i (Weight step)"
        "mesh (world s') = mesh (world s2)"
      using return_status_moves [OF set(2) h2] by metis
    have "Reconcile E ns n s = (Ret (seconds (PauseSeconds step), None), s')"
      using False st(1) set(1) c(1) by (simp add: r(1) reconcile_step_def Let_def)
    moreover have "moves (world s) (world s') PhaseRunning ?i (Weight step)"
      using st(2) set(3,4) r1 h(2) cr(1) by (auto simp: moves_def rests_def)
    ultimately show thesis using that False set(5) st(3) by auto
  next
    case True
    have "Reconcile E ns n s = reconcile_analysis E cr (int64_of_int32 ?i) (seconds (PauseSeconds step))
        (time_Sub t (LastTransitionTime (Status cr))) s1"
      using True c(1) by (simp add: r(1) reconcile_step_def Let_def)
    moreover obtain d s' where an: "reconcile_analysis E cr (int64_of_int32 ?i) (seconds (PauseSeconds step))
        (time_Sub t (LastTransitionTime (Status cr))) s1 = (Ret (d, None), s')"
      "waits (world s1) (world s') \<and>
         instant (world s) < LastTransitionTime (Status cr) + sint (PauseSeconds step) * 1000000000 \<or>
       moves (world s1) (world s') (next_phase cr) (?i + 1) (next_weight cr) \<and> mesh (world s') = mesh (world s1) \<and>
         LastTransitionTime (Status cr) + sint (PauseSeconds step) * 1000000000 \<le> instant (world s')"
      by (rule analysis_outcome [OF h t c(3), of "PauseSeconds step"])
    ultimately show thesis using that outcome_after [OF an(2) r1] True by simp
  qed
qed

end

end
