(* ===== verification/Progress_Runs.thy ===== *)
theory Progress_Runs
  imports Progress
begin

text \<open>
  Runs of the controller in a healthy world: cycle after cycle, with any amount of time between
  them, as long as time goes on for ever. The rollout goes through its steps in order, holds
  each for its pause, and is promoted.
\<close>

section \<open>Runs\<close>

text \<open>
  \<open>good_run\<close>: state \<open>Suc k\<close> is the state after the cycle from state \<open>k\<close>, later; nobody else has
  touched the rollout or the VirtualService.
\<close>

definition good_run ::
    "'w env \<Rightarrow> string \<Rightarrow> string \<Rightarrow> ('w \<Rightarrow> bool) \<Rightarrow> ('w \<Rightarrow> canary_rollout) \<Rightarrow> ('w \<Rightarrow> jmap) \<Rightarrow> ('w \<Rightarrow> gotime) \<Rightarrow>
     (nat \<Rightarrow> 'w sys) \<Rightarrow> bool" where
  "good_run E ns n healthy obj mesh instant \<sigma> \<longleftrightarrow>
     healthy (world (\<sigma> 0)) \<and>
     (\<forall>k. healthy (world (\<sigma> (Suc k))) \<and>
        obj (world (\<sigma> (Suc k))) = obj (world (snd (Reconcile E ns n (\<sigma> k)))) \<and>
        mesh (world (\<sigma> (Suc k))) = mesh (world (snd (Reconcile E ns n (\<sigma> k)))) \<and>
        instant (world (snd (Reconcile E ns n (\<sigma> k)))) \<le> instant (world (\<sigma> (Suc k)))) \<and>
     (\<forall>t. \<exists>k. t \<le> instant (world (\<sigma> k)))"

text \<open>The rollout \<open>cr\<close> is at step \<open>i\<close> with the canary share \<open>c\<close>, in its status and in the mesh.\<close>

definition runs_at :: "'w env \<Rightarrow> canary_rollout \<Rightarrow> nat \<Rightarrow> int32 \<Rightarrow> canary_rollout \<Rightarrow> jmap \<Rightarrow> bool" where
  "runs_at E cr i c ob m \<longleftrightarrow> Spec ob = Spec cr \<and> Phase (Status ob) = PhaseRunning \<and>
     sint (CurrentStep (Status ob)) = int i \<and> CurrentWeight (Status ob) = c \<and> at_split E cr c m"

definition promoted_at :: "'w env \<Rightarrow> canary_rollout \<Rightarrow> int32 \<Rightarrow> canary_rollout \<Rightarrow> jmap \<Rightarrow> bool" where
  "promoted_at E cr c ob m \<longleftrightarrow> Spec ob = Spec cr \<and> Phase (Status ob) = PhasePromoted \<and>
     CurrentWeight (Status ob) = 100 \<and> at_split E cr c m"

text \<open>
  Between the states \<open>k\<close> and \<open>k'\<close> step \<open>i\<close> is held for its pause: from its last transition, after
  which mesh and status have the step's weight, until an instant later by the pause.
\<close>

definition holds_step ::
    "'w env \<Rightarrow> canary_rollout \<Rightarrow> ('w \<Rightarrow> canary_rollout) \<Rightarrow> ('w \<Rightarrow> jmap) \<Rightarrow> ('w \<Rightarrow> gotime) \<Rightarrow> (nat \<Rightarrow> 'w sys) \<Rightarrow>
     nat \<Rightarrow> nat \<Rightarrow> nat \<Rightarrow> bool" where
  "holds_step E cr obj mesh instant \<sigma> i k k' \<longleftrightarrow>
     k < k' \<and>
     (\<forall>m. k \<le> m \<and> m < k' \<longrightarrow>
        runs_at E cr i (Weight (Steps (Spec cr) ! i)) (obj (world (\<sigma> m))) (mesh (world (\<sigma> m)))) \<and>
     LastTransitionTime (Status (obj (world (\<sigma> k)))) + sint (PauseSeconds (Steps (Spec cr) ! i)) * 1000000000
       \<le> instant (world (\<sigma> k'))"

text \<open>
  \<open>walks \<dots> i k k'\<close>: from state \<open>k\<close> on, the steps from \<open>i\<close> to the last are held one after the other,
  each from the state in which the one before is left, or the next; the last is left in \<open>k'\<close>.
\<close>

inductive walks ::
    "'w env \<Rightarrow> canary_rollout \<Rightarrow> ('w \<Rightarrow> canary_rollout) \<Rightarrow> ('w \<Rightarrow> jmap) \<Rightarrow> ('w \<Rightarrow> gotime) \<Rightarrow> (nat \<Rightarrow> 'w sys) \<Rightarrow>
     nat \<Rightarrow> nat \<Rightarrow> nat \<Rightarrow> bool"
  for E cr obj mesh instant \<sigma> where
  walk_end: "walks E cr obj mesh instant \<sigma> (length (Steps (Spec cr))) k k"
| walk_step: "i < length (Steps (Spec cr)) \<Longrightarrow> l \<in> {k, Suc k} \<Longrightarrow> holds_step E cr obj mesh instant \<sigma> i l m \<Longrightarrow>
    walks E cr obj mesh instant \<sigma> (Suc i) m k' \<Longrightarrow> walks E cr obj mesh instant \<sigma> i k k'"

text \<open>
  What holds now, and can only end at an instant of at least \<open>b\<close>, does end when time goes on for
  ever: it holds up to a first state in which it does not.
\<close>

lemma held_until:
  fixes time :: "nat \<Rightarrow> int"
  assumes start: "same k"
    and cycle: "\<And>m. same m \<Longrightarrow> same (Suc m) \<and> time m < b \<or> left (Suc m) \<and> \<not> same (Suc m) \<and> b \<le> time (Suc m)"
    and time: "\<And>t. \<exists>k. t \<le> time k"
  shows "\<exists>m > k. (\<forall>l. k \<le> l \<and> l < m \<longrightarrow> same l) \<and> left m \<and> b \<le> time m"
proof -
  have "\<exists>m > k. \<not> same m"
  proof (rule ccontr)
    assume "\<not> (\<exists>m > k. \<not> same m)"
    then have all: "same m" if "k \<le> m" for m using start that by (cases "m = k") auto
    obtain K where K: "max b (Max (time ` {..k}) + 1) \<le> time K" using time by blast
    have "k \<le> K"
    proof (rule ccontr)
      assume "\<not> k \<le> K"
      then have "time K \<le> Max (time ` {..k})" by (intro Max_ge) auto
      then show False using K by simp
    qed
    then show False using cycle [OF all, of K] all [of "Suc K"] K by auto
  qed
  then obtain m where m: "k < m" "\<not> same m" "\<And>j. k < j \<Longrightarrow> j < m \<Longrightarrow> same j"
    using exists_least_iff [of "\<lambda>m. k < m \<and> \<not> same m"] by blast
  then obtain j where j: "m = Suc j" "k \<le> j" by (cases m) auto
  have held: "same l" if "k \<le> l" "l < m" for l using that start m(3) [of l] by (cases "l = k") auto
  then have "left m \<and> b \<le> time m" using cycle [of j] m(2) j by auto
  then show ?thesis using m(1) held by blast
qed

context healthy_world begin

abbreviation "runs \<equiv> good_run E ns n healthy obj mesh instant"

lemma run_healthy: "runs \<sigma> \<Longrightarrow> healthy (world (\<sigma> k))"
  by (cases k) (auto simp: good_run_def)

lemma run_moves:
  assumes "runs \<sigma>" "Reconcile E ns n (\<sigma> k) = (r, s')" "moves (world (\<sigma> k)) (world s') p i c"
  shows "moves (world (\<sigma> k)) (world (\<sigma> (Suc k))) p i c \<and> mesh (world (\<sigma> (Suc k))) = mesh (world s')"
proof -
  have "healthy (world (\<sigma> (Suc k)))" "obj (world (\<sigma> (Suc k))) = obj (world s')"
    "mesh (world (\<sigma> (Suc k))) = mesh (world s')" "instant (world s') \<le> instant (world (\<sigma> (Suc k)))"
    using assms(1,2) by (auto simp: good_run_def dest: spec [of _ k])
  then show ?thesis using assms(3) by (auto simp: moves_def)
qed

lemma run_waits:
  assumes "runs \<sigma>" "Reconcile E ns n (\<sigma> k) = (r, s')" "waits (world (\<sigma> k)) (world s')"
  shows "waits (world (\<sigma> k)) (world (\<sigma> (Suc k)))"
proof -
  have "healthy (world (\<sigma> (Suc k)))" "obj (world (\<sigma> (Suc k))) = obj (world s')"
    "mesh (world (\<sigma> (Suc k))) = mesh (world s')" "instant (world s') \<le> instant (world (\<sigma> (Suc k)))"
    using assms(1,2) by (auto simp: good_run_def dest: spec [of _ k])
  then show ?thesis using assms(3) by (auto simp: waits_def)
qed

lemma runs_at_step:
  assumes "runs_at E cr i c (obj w) m" "i < length (Steps (Spec cr))"
  shows "current_step (obj w) = Some (Steps (Spec cr) ! i)"
  using assms by (simp add: runs_at_def current_step_def Let_def)

text \<open>The weight of the step is in place after at most one cycle.\<close>

lemma run_shifts:
  assumes run: "runs \<sigma>" and at: "runs_at E cr i c (obj (world (\<sigma> k))) (mesh (world (\<sigma> k)))"
    and i: "i < length (Steps (Spec cr))" and go: "goes_on cr"
  shows "\<exists>j \<in> {k, Suc k}. runs_at E cr i (Weight (Steps (Spec cr) ! i)) (obj (world (\<sigma> j))) (mesh (world (\<sigma> j)))"
proof (cases "c = Weight (Steps (Spec cr) ! i)")
  case True
  then show ?thesis using at by simp
next
  case False
  let ?o = "obj (world (\<sigma> k))" and ?st = "Steps (Spec cr) ! i"
  have o: "goes_on ?o" "Phase (Status ?o) = PhaseRunning" "CurrentWeight (Status ?o) \<noteq> Weight ?st" "Spec ?o = Spec cr"
    using at go False by (simp_all add: runs_at_def goes_on_def)
  obtain d s' where "Reconcile E ns n (\<sigma> k) = (Ret (d, None), s')"
      "moves (world (\<sigma> k)) (world s') PhaseRunning (CurrentStep (Status ?o)) (Weight ?st)"
      "at_split E ?o (Weight ?st) (mesh (world s'))"
    by (rule running_cycle [OF run_healthy [OF run] refl o(1,2) runs_at_step [OF at i]]) (use o(3) in simp)
  then have "moves (world (\<sigma> k)) (world (\<sigma> (Suc k))) PhaseRunning (CurrentStep (Status ?o)) (Weight ?st)"
      "at_split E cr (Weight ?st) (mesh (world (\<sigma> (Suc k))))"
    using run_moves [OF run] by (auto simp: at_split_spec [OF o(4), symmetric])
  then show ?thesis
    using at by (simp add: runs_at_def moves_def)
qed

text \<open>
  A step whose weight is in place, since \<open>L\<close>: a cycle leaves it alone, before the pause is over, or
  goes on to the next, after it.
\<close>

definition holds_at :: "canary_rollout \<Rightarrow> nat \<Rightarrow> gotime \<Rightarrow> 'w \<Rightarrow> bool" where
  "holds_at cr i L w \<longleftrightarrow> runs_at E cr i (Weight (Steps (Spec cr) ! i)) (obj w) (mesh w) \<and>
     LastTransitionTime (Status (obj w)) = L"

definition leaves_at :: "canary_rollout \<Rightarrow> nat \<Rightarrow> 'w \<Rightarrow> bool" where
  "leaves_at cr i w \<longleftrightarrow>
     (if Suc i < length (Steps (Spec cr)) then runs_at E cr (Suc i) (Weight (Steps (Spec cr) ! i)) (obj w) (mesh w)
      else promoted_at E cr (Weight (Steps (Spec cr) ! i)) (obj w) (mesh w))"

lemma held_cycle:
  assumes run: "runs \<sigma>" and i: "i < length (Steps (Spec cr))" "length (Steps (Spec cr)) < 2 ^ 31" and go: "goes_on cr"
    and sm: "holds_at cr i L (world (\<sigma> m))"
  defines "b \<equiv> L + sint (PauseSeconds (Steps (Spec cr) ! i)) * 1000000000"
  shows "holds_at cr i L (world (\<sigma> (Suc m))) \<and> instant (world (\<sigma> m)) < b \<or>
    leaves_at cr i (world (\<sigma> (Suc m))) \<and> \<not> holds_at cr i L (world (\<sigma> (Suc m))) \<and> b \<le> instant (world (\<sigma> (Suc m)))"
proof -
  let ?o = "obj (world (\<sigma> m))"
  have o: "goes_on ?o" "Phase (Status ?o) = PhaseRunning" "CurrentWeight (Status ?o) = Weight (Steps (Spec cr) ! i)"
    "Spec ?o = Spec cr" "sint (CurrentStep (Status ?o)) = int i"
    "at_split E cr (Weight (Steps (Spec cr) ! i)) (mesh (world (\<sigma> m)))"
    using sm go by (simp_all add: holds_at_def runs_at_def goes_on_def)
  have step: "current_step ?o = Some (Steps (Spec cr) ! i)" using runs_at_step [OF _ i(1)] sm unfolding holds_at_def by blast
  have next_i: "sint (CurrentStep (Status ?o) + 1) = int (Suc i)" using sint32_Suc [of "CurrentStep (Status ?o)"] o(5) i by simp
  obtain d s' where r: "Reconcile E ns n (\<sigma> m) = (Ret (d, None), s')"
    and out: "waits (world (\<sigma> m)) (world s') \<and> instant (world (\<sigma> m)) < b \<or>
     moves (world (\<sigma> m)) (world s') (next_phase ?o) (CurrentStep (Status ?o) + 1) (next_weight ?o) \<and>
       mesh (world s') = mesh (world (\<sigma> m)) \<and> b \<le> instant (world s')"
    by (rule running_cycle [OF run_healthy [OF run] refl o(1,2) step]) (use o(3) sm in \<open>simp add: holds_at_def b_def\<close>)
  from out show ?thesis
  proof
    assume wt: "waits (world (\<sigma> m)) (world s') \<and> instant (world (\<sigma> m)) < b"
    then have "waits (world (\<sigma> m)) (world (\<sigma> (Suc m)))" using run_waits [OF run r] by blast
    then show ?thesis using wt sm by (simp add: waits_def runs_at_def holds_at_def)
  next
    assume mv: "moves (world (\<sigma> m)) (world s') (next_phase ?o) (CurrentStep (Status ?o) + 1) (next_weight ?o) \<and>
       mesh (world s') = mesh (world (\<sigma> m)) \<and> b \<le> instant (world s')"
    then have mv': "moves (world (\<sigma> m)) (world (\<sigma> (Suc m))) (next_phase ?o) (CurrentStep (Status ?o) + 1) (next_weight ?o)"
        "mesh (world (\<sigma> (Suc m))) = mesh (world (\<sigma> m))" using run_moves [OF run r] by auto
    have "instant (world s') \<le> instant (world (\<sigma> (Suc m)))"
      using run r by (auto simp: good_run_def dest: spec [of _ m])
    moreover have "leaves_at cr i (world (\<sigma> (Suc m))) \<and> \<not> holds_at cr i L (world (\<sigma> (Suc m)))"
      using mv' o next_i by (auto simp: holds_at_def leaves_at_def moves_def runs_at_def promoted_at_def next_phase_def next_weight_def)
    ultimately show ?thesis using mv by simp
  qed
qed

lemma run_leaves:
  assumes run: "runs \<sigma>" and i: "i < length (Steps (Spec cr))" "length (Steps (Spec cr)) < 2 ^ 31" and go: "goes_on cr"
    and at: "runs_at E cr i (Weight (Steps (Spec cr) ! i)) (obj (world (\<sigma> k))) (mesh (world (\<sigma> k)))"
  shows "\<exists>k'. holds_step E cr obj mesh instant \<sigma> i k k' \<and> leaves_at cr i (world (\<sigma> k'))"
proof -
  let ?L = "LastTransitionTime (Status (obj (world (\<sigma> k))))"
  have start: "holds_at cr i ?L (world (\<sigma> k))" using at by (simp add: holds_at_def)
  have "\<exists>m > k. (\<forall>l. k \<le> l \<and> l < m \<longrightarrow> holds_at cr i ?L (world (\<sigma> l))) \<and> leaves_at cr i (world (\<sigma> m)) \<and>
      ?L + sint (PauseSeconds (Steps (Spec cr) ! i)) * 1000000000 \<le> instant (world (\<sigma> m))"
  proof (rule held_until)
    show "\<exists>k. t \<le> instant (world (\<sigma> k))" for t using run by (simp add: good_run_def)
  qed (rule start, erule held_cycle [OF run i go])
  then show ?thesis by (auto simp: holds_step_def holds_at_def)
qed

lemma run_walks:
  assumes run: "runs \<sigma>" and len: "length (Steps (Spec cr)) < 2 ^ 31" and go: "goes_on cr"
    and "i < length (Steps (Spec cr))" "runs_at E cr i c (obj (world (\<sigma> k))) (mesh (world (\<sigma> k)))"
  shows "\<exists>k'. walks E cr obj mesh instant \<sigma> i k k' \<and>
    promoted_at E cr (Weight (last (Steps (Spec cr)))) (obj (world (\<sigma> k'))) (mesh (world (\<sigma> k')))"
  using assms(4,5)
proof (induction "length (Steps (Spec cr)) - i" arbitrary: i c k)
  case (Suc d)
  let ?n = "length (Steps (Spec cr))" and ?w = "Weight (Steps (Spec cr) ! i)"
  obtain l where l: "l \<in> {k, Suc k}" "runs_at E cr i ?w (obj (world (\<sigma> l))) (mesh (world (\<sigma> l)))"
    using run_shifts [OF run Suc.prems(2,1) go] by blast
  obtain m where m: "holds_step E cr obj mesh instant \<sigma> i l m"
    "if Suc i < ?n then runs_at E cr (Suc i) ?w (obj (world (\<sigma> m))) (mesh (world (\<sigma> m)))
     else promoted_at E cr ?w (obj (world (\<sigma> m))) (mesh (world (\<sigma> m)))"
    using run_leaves [OF run Suc.prems(1) len go l(2)] unfolding leaves_at_def by blast
  note step = walks.walk_step [OF Suc.prems(1) l(1) m(1)]
  show ?case
  proof (cases "Suc i < ?n")
    case True
    have d: "d = ?n - Suc i" using Suc.hyps(2) by simp
    obtain k' where "walks E cr obj mesh instant \<sigma> (Suc i) m k'"
        "promoted_at E cr (Weight (last (Steps (Spec cr)))) (obj (world (\<sigma> k'))) (mesh (world (\<sigma> k')))"
      using Suc.hyps(1) [OF d True] m(2) True by (simp only: if_True) blast
    then show ?thesis using step by blast
  next
    case False
    then have n: "Suc i = ?n" using Suc.prems(1) by simp
    then have "Steps (Spec cr) \<noteq> []" "?n - 1 = i" by auto
    then have "last (Steps (Spec cr)) = Steps (Spec cr) ! i" by (simp add: last_conv_nth)
    moreover have "walks E cr obj mesh instant \<sigma> ?n m m" by (rule walks.walk_end)
    ultimately show ?thesis using step m(2) False n by auto
  qed
qed simp

lemma run_from_start:
  assumes run: "runs \<sigma>" and cr: "cr = obj (world (\<sigma> 0))" "goes_on cr" "Phase (Status cr) \<in> {'''', PhasePending}"
    and steps: "Steps (Spec cr) \<noteq> []" "length (Steps (Spec cr)) < 2 ^ 31"
    and split: "at_split E cr 0 (mesh (world (\<sigma> 0)))"
  shows "\<exists>k'. walks E cr obj mesh instant \<sigma> 0 1 k' \<and>
    promoted_at E cr (Weight (last (Steps (Spec cr)))) (obj (world (\<sigma> k'))) (mesh (world (\<sigma> k')))"
proof -
  obtain d s' where r: "Reconcile E ns n (\<sigma> 0) = (Ret (d, None), s')" and
      mv: "moves (world (\<sigma> 0)) (world s') PhaseRunning 0 0" "mesh (world s') = mesh (world (\<sigma> 0))"
    using start_cycle [OF run_healthy [OF run] cr] by metis
  have "runs_at E cr 0 0 (obj (world (\<sigma> 1))) (mesh (world (\<sigma> 1)))"
    using run_moves [OF run r mv(1)] mv(2) split cr(1) by (auto simp: runs_at_def moves_def)
  then show ?thesis using run_walks [OF run steps(2) cr(2)] steps(1) by blast
qed

text \<open>\<open>on_course\<close>: new, at one of its steps, or promoted, and neither paused nor aborted\<close>

definition on_course :: "canary_rollout \<Rightarrow> bool" where
  "on_course cr \<longleftrightarrow> goes_on cr \<and> Steps (Spec cr) \<noteq> [] \<and> length (Steps (Spec cr)) < 2 ^ 31 \<and>
     (Phase (Status cr) \<in> {'''', PhasePending, PhasePromoted} \<or>
      Phase (Status cr) = PhaseRunning \<and> current_step cr \<noteq> None)"

lemma next_step_exists:
  assumes "current_step cr = Some step" "length (Steps (Spec cr)) < 2 ^ 31"
    "\<not> int (length (Steps (Spec cr))) \<le> sint (CurrentStep (Status cr) + 1)"
    "Spec cr' = Spec cr" "CurrentStep (Status cr') = CurrentStep (Status cr) + 1"
  shows "current_step cr' \<noteq> None"
proof -
  have "0 \<le> sint (CurrentStep (Status cr))" "sint (CurrentStep (Status cr)) < int (length (Steps (Spec cr)))"
    using assms(1) by (auto simp: current_step_def Let_def split: if_splits)
  then show ?thesis using assms sint32_Suc [of "CurrentStep (Status cr)"] by (simp add: current_step_def Let_def)
qed

lemma cycle_on_course:
  assumes w: "healthy (world s)" and c: "on_course (obj (world s))"
  shows "\<exists>r s'. Reconcile E ns n s = (r, s') \<and> healthy (world s') \<and> on_course (obj (world s')) \<and>
    instant (world s) \<le> instant (world s')"
proof -
  let ?cr = "obj (world s)"
  have go: "goes_on ?cr" using c by (simp add: on_course_def)
  consider "Phase (Status ?cr) \<in> {'''', PhasePending}" | "Phase (Status ?cr) = PhasePromoted"
    | step where "Phase (Status ?cr) = PhaseRunning" "current_step ?cr = Some step"
    using c by (auto simp: on_course_def)
  then show ?thesis
  proof cases
    case 1
    obtain d s' where "Reconcile E ns n s = (Ret (d, None), s')" "moves (world s) (world s') PhaseRunning 0 0"
      using start_cycle [OF w refl go 1] by metis
    then show ?thesis using c by (auto simp: on_course_def moves_def goes_on_def current_step_def)
  next
    case 2
    obtain s1 where "Reconcile E ns n s = reconcile_rollout E ?cr s1" "rests (world s) (world s1)"
      using cycle_reads [OF w] by metis
    then show ?thesis using 2 c go by (auto simp: reconcile_rollout_def goes_on_def rests_def)
  next
    case 3
    obtain d s' where r: "Reconcile E ns n s = (Ret (d, None), s')"
      and "waits (world s) (world s') \<or> (\<exists>i x. moves (world s) (world s') PhaseRunning i x \<and> i = CurrentStep (Status ?cr)) \<or>
        moves (world s) (world s') (next_phase ?cr) (CurrentStep (Status ?cr) + 1) (next_weight ?cr)"
      by (rule running_cycle [OF w refl go 3]) (metis)
    then have "waits (world s) (world s') \<or> (\<exists>x. moves (world s) (world s') PhaseRunning (CurrentStep (Status ?cr)) x) \<or>
        moves (world s) (world s') (next_phase ?cr) (CurrentStep (Status ?cr) + 1) (next_weight ?cr)" by blast
    then show ?thesis
    proof (elim disjE exE)
      assume "waits (world s) (world s')"
      then show ?thesis using r c by (auto simp: waits_def on_course_def goes_on_def current_step_def)
    next
      fix x assume "moves (world s) (world s') PhaseRunning (CurrentStep (Status ?cr)) x"
      then show ?thesis using r c 3 by (auto simp: moves_def on_course_def goes_on_def current_step_def Let_def split: if_splits)
    next
      assume m: "moves (world s) (world s') (next_phase ?cr) (CurrentStep (Status ?cr) + 1) (next_weight ?cr)"
      have "current_step (obj (world s')) \<noteq> None" if "next_phase ?cr = PhaseRunning"
        using next_step_exists [OF 3(2), of "obj (world s')"] m c that
        by (auto simp: on_course_def moves_def next_phase_def split: if_splits)
      then show ?thesis using r c m by (auto simp: moves_def on_course_def goes_on_def next_phase_def split: if_splits)
    qed
  qed
qed

end

end
