(* ===== verification/Progress_Demo.thy ===== *)
theory Progress_Demo
  imports Progress_Runs
begin

text \<open>
  The cluster in memory is a healthy world: pods ready, writes accepted, and counters that pass
  the test at the first look (1000 canary requests without a failure, a stable service that
  fails one in a hundred). A run in it, with a second between the cycles.
\<close>

section \<open>A healthy cluster\<close>

definition passing_samples :: "string \<Rightarrow> float64 list" where
  "passing_samples q =
     [if q = ''cf'' then f64_0 else if q = ''sf'' then f64_of_int 10 else f64_of_int 1000]"

definition passed_state :: "sprt_metric_state list \<Rightarrow> bool" where
  "passed_state sts \<longleftrightarrow>
     (case sts of
        [] \<Rightarrow> True
      | [st] \<Rightarrow> state_Name st = ''http-errors'' \<and> Decision st = decision_promote
      | _ \<Rightarrow> False)"

definition demo_obj :: "cluster \<Rightarrow> canary_rollout" where "demo_obj c = the (stored_rollouts c (''default'', ''demo''))"
definition demo_mesh :: "cluster \<Rightarrow> jmap" where "demo_mesh c = the (stored_vs c (''default'', ''app''))"

definition demo_healthy :: "cluster \<Rightarrow> bool" where
  "demo_healthy c \<longleftrightarrow>
     (\<exists>cr. stored_rollouts c (''default'', ''demo'') = Some cr \<and> Namespace cr = ''default'' \<and> Name cr = ''demo'' \<and>
        VirtualServiceRef (Spec cr) = ''app'' \<and> TargetRef (Spec cr) = ''app-canary'' \<and>
        passed_state (AnalysisState (Status cr)) \<and>
        (Analysis (Spec cr) = None \<or> Analysis (Spec cr) = Some demo_analysis \<and> PrometheusURL (Spec cr) \<noteq> '''')) \<and>
     (\<exists>v. stored_vs c (''default'', ''app'') = Some v \<and> object_key v = (''default'', ''app'') \<and>
        vs_routes cluster_env v \<noteq> None) \<and>
     stored_deployments c (''default'', ''app-canary'') = Some \<lparr>MatchLabels = Some [(''app'', ''canary'')]\<rparr> \<and>
     list_ex pod_ready (stored_pods c (''default'', [(''app'', ''canary'')])) \<and>
     \<not> vs_fails c \<and> samples c = passing_samples"

lemma demo_passed:
  assumes smp: "samples (world s) = passing_samples" and sts: "passed_state sts" and url: "url \<noteq> ''''"
  shows "\<exists>sts' reason g. RunSPRT cluster_env url ns ro demo_analysis sts s =
      (Inr (SPRTPromote, sts', reason), s\<lparr>gauges_of := g\<rparr>) \<and> passed_state sts'"
proof (cases sts)
  case Nil
  obtain st where st: "sprt_samples log_portable (upper_bound log_portable demo_analysis) (lower_bound log_portable demo_analysis)
      demo_metric (init_state ''http-errors'') (f64_of_int 1000) f64_0 (f64_of_int 1000) (f64_of_int 10) = (MetricState st, True)"
    and d: "state_Name st = ''http-errors''" "Decision st = decision_promote"
    by (rule demo_passing_samples)
  have q: "queryScalar cluster_env url x s' = (Inr (Some (if x = ''cf'' then f64_0 else if x = ''sf'' then f64_of_int 10
      else f64_of_int 1000)), s')" if "samples (world s') = passing_samples" for x s'
    using that by (simp add: queryScalar_def call_def passing_samples_def)
  have ps: "passed_state [st]" using d by (simp add: passed_state_def)
  show ?thesis
    unfolding Nil using smp ps d(2) st
    by (simp add: RunSPRT_def url Let_def demo_analysis_def demo_metric_def sprt_metric_def metric_decided_def
        init_state_def q sprt_publish_def all_promote_def gauge_update_def) blast
next
  case (Cons st rest)
  then have st: "sts = [st]" "state_Name st = ''http-errors''" "Decision st = decision_promote"
    using sts by (auto simp: passed_state_def split: list.splits)
  have "passed_state [st]" using st by (simp add: passed_state_def)
  then show ?thesis
    using st by (simp add: RunSPRT_def url Let_def demo_analysis_def demo_metric_def sprt_metric_def metric_decided_def
        all_promote_def gauge_update_def) blast
qed

interpretation demo: healthy_world cluster_env "''default''" "''demo''" demo_healthy demo_obj demo_mesh clock passed_state
proof (rule healthy_world.intro, goal_cases)
  case 1
  show ?case by (rule cluster_api)
next
  case 2
  show ?case by (simp add: passed_state_def)
next
  case (3 w)
  then show ?case by (auto simp: demo_healthy_def demo_obj_def)
next
  case (4 w)
  then show ?case by (auto simp: demo_healthy_def demo_mesh_def)
next
  case (5 w)
  then show ?case by (simp add: demo_healthy_def)
next
  case (6 w)
  then show ?case by (auto simp: demo_healthy_def demo_obj_def lookup_def)
next
  case (7 w)
  then show ?case by (auto simp: demo_healthy_def demo_obj_def demo_mesh_def lookup_def)
next
  case (8 w v)
  then obtain v0 where "stored_vs w (''default'', ''app'') = Some v0" "object_key v0 = (''default'', ''app'')" "\<not> vs_fails w"
    by (auto simp: demo_healthy_def)
  moreover from this have "v ''metadata'' = v0 ''metadata''" using 8(3) [of "''metadata''"] by (simp add: demo_mesh_def)
  then have "object_key v = object_key v0" by (simp add: object_key_def json_string_def)
  ultimately show ?case
    using 8(1,2) by (auto simp: store_vs_def demo_healthy_def demo_obj_def demo_mesh_def)
next
  case (9 w st)
  then obtain cr where "stored_rollouts w (''default'', ''demo'') = Some cr" "Namespace cr = ''default''" "Name cr = ''demo''"
    by (auto simp: demo_healthy_def)
  then show ?case
    using 9 by (auto simp: store_status_def demo_healthy_def demo_obj_def demo_mesh_def)
next
  case (10 w)
  then show ?case by (auto simp: demo_healthy_def demo_obj_def lookup_def)
next
  case (11 s a)
  then obtain cr where "stored_rollouts (world s) (''default'', ''demo'') = Some cr" "passed_state (AnalysisState (Status cr))"
    "a = demo_analysis" "PrometheusURL (Spec cr) \<noteq> ''''" "samples (world s) = passing_samples"
    by (auto simp: demo_healthy_def demo_obj_def)
  then show ?case
    using 11(1) demo_passed [of s "AnalysisState (Status cr)" "PrometheusURL (Spec cr)" "Namespace cr" "Name cr"]
    by (auto simp: demo_obj_def)
qed

section \<open>A run\<close>

primrec demo_run :: "cluster \<Rightarrow> nat \<Rightarrow> cluster sys" where
  "demo_run c 0 = \<lparr> world = c, gauges_of = no_gauges \<rparr>"
| "demo_run c (Suc k) =
     (let s = snd (Reconcile cluster_env ''default'' ''demo'' (demo_run c k))
      in s\<lparr> world := (world s)\<lparr> clock := clock (world s) + 1000000000 \<rparr> \<rparr>)"

definition demo_launch :: cluster where
  "demo_launch = (demo_cluster (demo_rollout (demo_spec\<lparr>PrometheusURL := ''http://prometheus'', Analysis := Some demo_analysis\<rparr>)
     (demo_status\<lparr>Phase := ''''\<rparr>)) 0)\<lparr>samples := passing_samples\<rparr>"

lemma demo_clock [simp]:
  "demo_healthy (c\<lparr>clock := t\<rparr>) = demo_healthy c" "demo_obj (c\<lparr>clock := t\<rparr>) = demo_obj c"
  "demo_mesh (c\<lparr>clock := t\<rparr>) = demo_mesh c"
  by (simp_all add: demo_healthy_def demo_obj_def demo_mesh_def)

lemma demo_run_healthy:
  assumes "demo_healthy c" "demo.on_course (demo_obj c)" "0 \<le> clock c"
  shows "demo_healthy (world (demo_run c k)) \<and> demo.on_course (demo_obj (world (demo_run c k))) \<and>
    int k * 1000000000 \<le> clock (world (demo_run c k))"
proof (induction k)
  case (Suc k)
  then obtain r s' where "Reconcile cluster_env ''default'' ''demo'' (demo_run c k) = (r, s')" "demo_healthy (world s')"
      "demo.on_course (demo_obj (world s'))" "clock (world (demo_run c k)) \<le> clock (world s')"
    using demo.cycle_on_course by metis
  then show ?case using Suc by (simp add: Let_def)
qed (use assms in simp)

lemma demo_run_good:
  assumes "demo_healthy c" "demo.on_course (demo_obj c)" "0 \<le> clock c"
  shows "good_run cluster_env ''default'' ''demo'' demo_healthy demo_obj demo_mesh clock (demo_run c)"
  unfolding good_run_def
proof (intro conjI allI)
  fix t
  show "\<exists>k. t \<le> clock (world (demo_run c k))"
    using demo_run_healthy [OF assms, of "nat t"] by (intro exI [of _ "nat t"]) linarith
next
  fix k
  show "demo_healthy (world (demo_run c (Suc k)))" using demo_run_healthy [OF assms] by blast
qed (use assms in \<open>simp_all add: Let_def\<close>)

lemma demo_launch_good:
  "demo_healthy demo_launch" "demo.on_course (demo_obj demo_launch)" "0 \<le> clock demo_launch"
  "at_split cluster_env (demo_obj demo_launch) 0 (demo_mesh demo_launch)"
proof -
  have obj: "demo_obj demo_launch = demo_rollout (demo_spec\<lparr>PrometheusURL := ''http://prometheus'', Analysis := Some demo_analysis\<rparr>)
      (demo_status\<lparr>Phase := ''''\<rparr>)"
    by (simp add: demo_obj_def demo_launch_def demo_cluster_def demo_rollout_def)
  have mesh: "demo_mesh demo_launch = demo_vs [demo_route ''app-stable'' 100, demo_route ''app-canary'' 0]"
    by (simp add: demo_mesh_def demo_launch_def demo_cluster_def)
  show "demo_healthy demo_launch"
    by (simp add: demo_healthy_def demo_launch_def demo_cluster_def demo_rollout_def demo_spec_def demo_status_def
        passed_state_def demo_vs_routes pod_ready_def) (simp add: object_key_def demo_vs_def json_string_def)
  show "demo.on_course (demo_obj demo_launch)"
    by (simp add: obj demo.on_course_def demo.goes_on_def demo_rollout_def demo_spec_def demo_status_def)
  show "0 \<le> clock demo_launch" by (simp add: demo_launch_def demo_cluster_def)
  show "at_split cluster_env (demo_obj demo_launch) 0 (demo_mesh demo_launch)"
    by (simp add: at_split_def obj mesh demo_vs_routes demo_rollout_def demo_spec_def weighted_route_def demo_route_def
        dest_host_def json_string_def int64_of_int32_def fun_upd_twist)
qed

section \<open>The promotion\<close>



end
