(* ===== verification/Status_Types.thy ===== *)
theory Status_Types
  imports Lifecycle Reconciler_Runs Analyzer_Props
begin

text \<open>
  Typing of the status: the numbers the test stores are binary64 values, its decisions are the
  three words of the API, and a decision to roll back is only kept by an aborted rollout. A
  subject reduction in the sense of a type system: every cycle keeps a well-typed status.
\<close>

section \<open>Arithmetic stays in binary64\<close>

lemma round64_ok: "0 \<le> n \<Longrightarrow> 0 < d \<Longrightarrow> f64_ok (round64 s n d k)"
  using round64_correct [of n d s k] by (auto simp: rounds_to_def split: if_splits)

lemma f64_0_ok [simp]: "f64_ok f64_0"
  by (simp add: f64_0_def)

lemma f64_of_int_ok [simp]: "f64_ok (f64_of_int n)"
  by (simp add: f64_of_int_def round64_ok)

lemma f64_lit_ok: "0 < d \<Longrightarrow> f64_ok (f64_lit n d)"
  by (simp add: f64_lit_def round64_ok)

lemma f64_add_ok: "f64_ok x \<Longrightarrow> f64_ok y \<Longrightarrow> f64_ok (f64_add x y)"
  by (induction x y rule: f64_add.induct) (simp_all add: Let_def round64_ok)

lemma f64_sub_ok: "f64_ok x \<Longrightarrow> f64_ok y \<Longrightarrow> f64_ok (f64_sub x y)"
  by (simp add: f64_sub_def f64_add_ok)

lemma f64_mul_ok: "f64_ok x \<Longrightarrow> f64_ok y \<Longrightarrow> f64_ok (f64_mul x y)"
  by (induction x y rule: f64_mul.induct) (simp_all add: round64_ok)

lemma f64_div_ok: "f64_ok x \<Longrightarrow> f64_ok y \<Longrightarrow> f64_ok (f64_div x y)"
  by (induction x y rule: f64_div.induct) (simp_all add: round64_ok)

lemmas f64_ops_ok = f64_add_ok f64_sub_ok f64_mul_ok f64_div_ok

section \<open>Types\<close>

definition typed_state :: "rollout_phase \<Rightarrow> sprt_metric_state \<Rightarrow> bool" where
  "typed_state phase st \<longleftrightarrow>
     f64_ok (LogLikelihood st) \<and> f64_ok (BaselineRate st) \<and> f64_ok (LastCanaryTotal st) \<and>
     f64_ok (LastCanaryFailure st) \<and>
     (Decision st \<in> {decision_pending, decision_promote} \<or>
      Decision st = decision_rollback \<and> phase = PhaseAborted)"

definition typed_status :: "rollout_status \<Rightarrow> bool" where
  "typed_status st \<longleftrightarrow>
     Phase st \<in> {'''', PhasePending, PhaseRunning, PhasePaused, PhasePromoted, PhaseAborted, PhaseFailed} \<and>
     list_all (typed_state (Phase st)) (AnalysisState st)"

definition typed_spec :: "rollout_spec \<Rightarrow> bool" where
  "typed_spec sp \<longleftrightarrow>
     (case Analysis sp of
        None \<Rightarrow> True
      | Some a \<Rightarrow> f64_ok (Alpha a) \<and> f64_ok (Beta a) \<and> list_all (\<lambda>m. f64_ok (Delta m)) (Metrics a))"

text \<open>What a Go program receives from the client of Prometheus and from \<open>math.Log\<close> are numbers.\<close>

definition typed_env :: "'w env \<Rightarrow> bool" where
  "typed_env E \<longleftrightarrow>
     (\<forall>x. f64_ok x \<longrightarrow> f64_ok (math_Log E x)) \<and>
     (\<forall>u q t w xs. fst (prom_query E u q t w) = Inr (Vector xs) \<longrightarrow> list_all f64_ok xs)"

lemma typed_env_traced: "typed_env (traced E) = typed_env E"
  by (simp add: typed_env_def traced_def log_call_def case_prod_unfold Let_def)

lemma typed_state_mono: "typed_state p st \<Longrightarrow> p \<noteq> PhaseAborted \<Longrightarrow> typed_state q st"
  by (auto simp: typed_state_def)

section \<open>The test\<close>

lemma init_state_typed [simp]: "typed_state p (init_state n)"
  by (simp add: typed_state_def init_state_def)

lemma find_typed: "list_all (typed_state p) sts \<Longrightarrow> typed_state p (findOrInitState sts n)"
  by (induction sts) simp_all

lemma query_typed:
  assumes "typed_env E" "queryScalar E url q s = (Inr (Some v), s')"
  shows "f64_ok v"
proof -
  obtain t s1 where t: "call (time_Now E) s = (t, s1)" by fastforce
  obtain r s2 where r: "call (prom_query E url q t) s1 = (r, s2)" by fastforce
  obtain vs where vs: "r = Inr (Vector (v # vs))"
    using assms(2) t r by (auto simp: queryScalar_def split: sum.splits prom_value.splits list.splits)
  moreover have "r = fst (prom_query E url q t (world s1))"
    using r by (auto simp: call_def split: prod.splits)
  ultimately have "list_all f64_ok (v # vs)" using assms(1) unfolding typed_env_def by metis
  then show ?thesis by simp
qed

lemma rates_typed:
  assumes "f64_ok t" "f64_ok sf" "f64_ok d"
  shows "f64_ok (baseline_rate t sf)" "f64_ok (alternative_rate (baseline_rate t sf) d)"
  using assms by (simp_all add: baseline_rate_def alternative_rate_def Let_def f64_ops_ok epsilon_def
      one_minus_epsilon_def f64_lit_ok)

lemma accumulate_typed:
  assumes lg: "\<And>x. f64_ok x \<Longrightarrow> f64_ok (lg x)" and st: "typed_state p st"
    and ok: "f64_ok p0" "f64_ok p1" "f64_ok ct" "f64_ok cf"
  shows "typed_state p (accumulate lg p0 p1 ct cf st)"
proof -
  have "f64_ok (evidence lg p0 p1 (f64_sub ct (LastCanaryTotal st)) (f64_sub cf (LastCanaryFailure st)))"
    using st ok by (simp add: evidence_def Let_def f64_ops_ok lg typed_state_def f64_1_def)
  then show ?thesis
    using st ok by (simp add: accumulate_def Let_def typed_state_def f64_add_ok)
qed

lemma samples_typed:
  assumes lg: "\<And>x. f64_ok x \<Longrightarrow> f64_ok (lg x)" and st: "typed_state p st" and d: "f64_ok (Delta m)"
    and ok: "f64_ok ct" "f64_ok cf" "f64_ok t" "f64_ok sf"
  shows "case fst (sprt_samples lg upper lower m st ct cf t sf) of
      MetricError err \<Rightarrow> False
    | MetricState st' \<Rightarrow> typed_state p st'
    | MetricRollback st' r \<Rightarrow> typed_state PhaseAborted st'"
proof -
  let ?p0 = "baseline_rate t sf"
  let ?p1 = "alternative_rate ?p0 (Delta m)"
  note r = rates_typed [OF ok(3,4) d]
  have a: "typed_state p (accumulate lg ?p0 ?p1 ct cf st)"
    by (rule accumulate_typed [OF lg st r ok(1,2)])
  then have "typed_state p (accumulate lg ?p0 ?p1 ct cf st\<lparr>Decision := decision_promote\<rparr>)"
    "typed_state PhaseAborted (accumulate lg ?p0 ?p1 ct cf st\<lparr>Decision := decision_rollback\<rparr>)"
    by (simp_all add: typed_state_def)
  moreover have "typed_state p (reset_state n ct cf ?p0)" for n
    using r ok by (simp add: reset_state_def typed_state_def init_state_def)
  ultimately show ?thesis using st a by (simp add: sprt_samples_def Let_def)
qed

lemma publish_fst: "sprt_publish ns ro r s = (out, s') \<Longrightarrow> out = fst r"
  using sprt_publish_out [of ns ro r s] by simp

lemma metric_typed:
  assumes "sprt_metric E url ns ro upper lower cur m s = (out, s')" "typed_env E"
    and cur: "list_all (typed_state p) cur" and d: "f64_ok (Delta m)"
  shows "case out of
      MetricError err \<Rightarrow> True
    | MetricState st' \<Rightarrow> typed_state p st'
    | MetricRollback st' r \<Rightarrow> typed_state PhaseAborted st'"
proof -
  let ?st = "findOrInitState cur (metric_Name m)"
  have lg: "\<And>x. f64_ok x \<Longrightarrow> f64_ok (math_Log E x)" using assms(2) by (simp add: typed_env_def)
  note st = find_typed [OF cur, of "metric_Name m"]
  consider err where "out = MetricError err" | "out = MetricState ?st"
    | ct cf t sf where "out = fst (sprt_samples (math_Log E) upper lower m ?st ct cf t sf)"
        "f64_ok ct" "f64_ok cf" "f64_ok t" "f64_ok sf"
    using assms(1)
    by (auto simp: sprt_metric_def Let_def split: prod.splits sum.splits option.splits if_splits
        dest!: query_typed [OF assms(2)] publish_fst)
  then show ?thesis
  proof cases
    case 3
    show ?thesis
      using samples_typed [of "math_Log E", OF lg st d 3(2-5), where upper = upper and lower = lower] unfolding 3(1)
      by (simp split: metric_out.splits)
  qed (use st in simp_all)
qed

lemma loop_typed:
  assumes "typed_env E" "list_all (typed_state p) cur"
  shows "sprt_loop E url ns ro upper lower cur ms upd s = (out, s') \<Longrightarrow>
    list_all (\<lambda>m. f64_ok (Delta m)) ms \<Longrightarrow> list_all (typed_state p) upd \<Longrightarrow> p \<noteq> PhaseAborted \<Longrightarrow>
    (case out of
       LoopError err \<Rightarrow> True
     | LoopDone sts \<Rightarrow> list_all (typed_state p) sts
     | LoopRollback sts r \<Rightarrow> list_all (typed_state PhaseAborted) sts)"
proof (induction ms arbitrary: upd s)
  case (Cons m ms)
  obtain o1 s1 where m: "sprt_metric E url ns ro upper lower cur m s = (o1, s1)" by fastforce
  note t = metric_typed [OF m assms, of]
  show ?case
  proof (cases o1)
    case (MetricError err)
    then show ?thesis using Cons.prems m by auto
  next
    case (MetricRollback st r)
    moreover have "list_all (typed_state PhaseAborted) upd"
      using Cons.prems(3,4) by (auto simp: list_all_iff intro: typed_state_mono)
    ultimately show ?thesis using Cons.prems m t by auto
  next
    case (MetricState st)
    then show ?thesis using Cons.IH [of "upd @ [st]" s1] Cons.prems m t by simp
  qed
qed auto

lemma RunSPRT_typed:
  assumes r: "RunSPRT E url ns ro a cur s = (Inr (dec, sts, reason), s')"
    and E: "typed_env E" and cur: "list_all (typed_state p) cur" "p \<noteq> PhaseAborted"
    and a: "list_all (\<lambda>m. f64_ok (Delta m)) (Metrics a)"
  shows "list_all (typed_state (if dec = SPRTRollback then PhaseAborted else p)) sts"
  using r
proof (cases rule: RunSPRT_cases)
  case (1 s0)
  then show ?thesis using loop_typed [OF E cur(1) 1(2) a] cur(2) by simp
next
  case (2 s0)
  then show ?thesis using loop_typed [OF E cur(1) 2(2) a] cur(2) by simp
qed

section \<open>The cycle\<close>

lemma verdict_typed:
  assumes "verdict E cr es (dec, sts, reason)" "typed_env E" "typed_spec (Spec cr)" "typed_status (Status cr)"
    "Phase (Status cr) \<noteq> PhaseAborted"
  shows "list_all (typed_state (if dec = SPRTRollback then PhaseAborted else Phase (Status cr))) sts"
proof -
  obtain a s0 s1 where a: "Analysis (Spec cr) = Some a"
    and r: "RunSPRT (traced E) (PrometheusURL (Spec cr)) (Namespace cr) (Name cr) a
          (AnalysisState (Status cr)) s0 = (Inr (dec, sts, reason), s1)"
    using assms(1) by (auto simp: verdict_def)
  show ?thesis
    by (rule RunSPRT_typed [OF r])
      (use assms(2-5) a in \<open>simp_all add: typed_env_traced typed_status_def typed_spec_def\<close>)
qed

lemma typed_writes [simp]:
  "typed_status (Status (with_status p i w t msg cr)) \<longleftrightarrow>
     p \<in> {'''', PhasePending, PhaseRunning, PhasePaused, PhasePromoted, PhaseAborted, PhaseFailed} \<and>
     list_all (typed_state p) (AnalysisState (Status cr))"
  "typed_status (Status (with_message msg cr)) \<longleftrightarrow> typed_status (Status cr)"
  "AnalysisState (Status (without_analysis cr)) = []"
  by (simp_all add: typed_status_def with_status_def with_message_def without_analysis_def)

lemma analysed_typed:
  assumes "analysed (verdict E cr es) cr cr1" "typed_env E" "typed_spec (Spec cr)" "typed_status (Status cr)"
    "Phase (Status cr) \<noteq> PhaseAborted"
  shows "typed_status (Status cr1)"
  using assms(1,4) verdict_typed [OF _ assms(2-5)]
  by (fastforce simp: analysed_def with_analysis_def typed_status_def split: if_splits)

lemma cycle_step_typed:
  assumes step: "cycle_step (verdict E cr es) clk cr split cr'"
    and E: "typed_env E" and sp: "typed_spec (Spec cr)" and st: "typed_status (Status cr)"
  shows "typed_status (Status cr')"
proof -
  note na = cycle_step_aborted [OF step]
  have keep: "list_all (typed_state q) (AnalysisState (Status cr))" for q
    using st na by (auto simp: typed_status_def list_all_iff intro: typed_state_mono)
  note ana = analysed_typed [OF _ E sp st na]
  from step show ?thesis
  proof cases
    case (step_rollback step sts reason t msg ok)
    then show ?thesis using verdict_typed [OF step_rollback(5) E sp st na] by (simp add: with_analysis_def)
  next
    case (step_observe step t0)
    then show ?thesis using ana by blast
  next
    case (step_wait step cr1 t0 msg)
    then show ?thesis using ana by simp
  qed (simp_all add: keep)
qed

lemma later_typed:
  assumes "later typed_spec E cr cr'" "typed_env E" "typed_spec (Spec cr)" "typed_status (Status cr)"
  shows "typed_status (Status cr')"
  using assms
proof (induction rule: later.induct)
  case (later_cycle cr1 ns n w g cr2)
  then show ?case
    using later_spec [OF later_cycle.hyps(1)] by (metis cycle_step_typed cycle_writes_step)
qed simp_all

section \<open>A logarithm that is typed\<close>

lemma frexp_ok:
  assumes "0 < m" "m < 2 ^ 53"
  shows "f64_ok (fst (frexp m e))"
proof -
  have "bitlen m \<le> 53" using assms bitlen_le_iff_power [of m 53] by simp
  moreover have "0 < bitlen m" using assms bitlen_eq_zero_iff [of m] bitlen_nonneg [of m] by linarith
  ultimately have b: "bitlen m \<le> 53" "0 < bitlen m" by simp_all
  have "2 ^ nat (bitlen m - 1) \<le> m" "m < 2 ^ nat (bitlen m)"
    using bitlen_bounds [OF assms(1)] by simp_all
  moreover have "nat (bitlen m - 1) + nat (53 - bitlen m) = 52" "nat (bitlen m) + nat (53 - bitlen m) = 53"
    using b by simp_all
  ultimately have "2 ^ 52 \<le> m * 2 ^ nat (53 - bitlen m)" "m * 2 ^ nat (53 - bitlen m) < 2 ^ 53"
    using mult_right_mono [of "2 ^ nat (bitlen m - 1)" m "2 ^ nat (53 - bitlen m) :: int"]
      mult_strict_right_mono [of m "2 ^ nat (bitlen m)" "2 ^ nat (53 - bitlen m) :: int"]
    by (simp_all add: power_add [symmetric])
  then show ?thesis by (simp add: frexp_def Let_def)
qed

lemma log_reduced_ok: "f64_ok f \<Longrightarrow> f64_ok (log_reduced f k)"
  by (simp add: log_reduced_def Let_def case_prod_unfold f64_ops_ok f64_lit_ok)

lemma log_portable_ok: "f64_ok x \<Longrightarrow> f64_ok (log_portable x)"
proof (cases x)
  case (F64_Fin s m e)
  assume "f64_ok x"
  then have "0 < m \<Longrightarrow> m < 2 ^ 53 \<Longrightarrow> f64_ok (fst (frexp m e))" by (simp add: frexp_ok)
  then show ?thesis
    using \<open>f64_ok x\<close> F64_Fin by (auto simp: case_prod_unfold Let_def log_reduced_ok)
qed simp_all

section \<open>The property\<close>

definition measured_env :: "cluster env" where
  "measured_env = cluster_env\<lparr> prom_query := \<lambda>u q t c.
     (Inr (Vector [if q = ''cf'' then f64_0 else if q = ''sf'' then f64_of_int 10 else f64_of_int 1000]), c)\<rparr>"

lemma measured_typed: "typed_env measured_env"
  by (simp add: typed_env_def measured_env_def log_portable_ok)

lemma measured_query:
  "queryScalar (traced measured_env) url q s =
     (Inr (Some (if q = ''cf'' then f64_0 else if q = ''sf'' then f64_of_int 10 else f64_of_int 1000)),
      s\<lparr>world := (fst (world s), snd (world s) @ [ClockRead (clock (fst (world s))), PromQuery url q])\<rparr>)"
  by (simp add: queryScalar_def traced_def log_call_def call_def measured_env_def)

lemma measured_calls:
  "prom_client measured_env ''http://prometheus'' = None" "math_Log measured_env = log_portable"
  "prom_client (traced measured_env) = prom_client measured_env" "math_Log (traced measured_env) = math_Log measured_env"
  by (simp_all add: traced_def measured_env_def)

lemma measured_verdict:
  "\<exists>st reason g qs. RunSPRT (traced measured_env) ''http://prometheus'' ''default'' ''demo'' demo_analysis [] s =
     (Inr (SPRTPromote, [st], reason), s\<lparr>world := (fst (world s), snd (world s) @ qs), gauges_of := g\<rparr>) \<and>
   status_writes qs = []"
proof -
  obtain st where st: "sprt_samples log_portable (upper_bound log_portable demo_analysis) (lower_bound log_portable demo_analysis)
      demo_metric (init_state ''http-errors'') (f64_of_int 1000) f64_0 (f64_of_int 1000) (f64_of_int 10) = (MetricState st, True)"
    "Decision st = decision_promote"
    by (rule demo_passing_samples)
  show ?thesis
    using st
    by (simp add: RunSPRT_def measured_calls Let_def demo_analysis_def demo_metric_def sprt_metric_def metric_decided_def
        init_state_def measured_query sprt_publish_def all_promote_def gauge_update_def)
     (intro exI conjI, rule refl, simp)
qed

lemma measured_writes:
  obtains sts reason where "sts \<noteq> []"
    "cycle_writes measured_env ''default'' ''demo'' (demo_cluster (demo_analysed demo_analysis) 5) no_gauges
       (demo_analysed demo_analysis) (with_analysis sts reason (demo_analysed demo_analysis))"
proof -
  let ?cr = "demo_analysed demo_analysis" and ?c = "demo_cluster (demo_analysed demo_analysis) 5"
  let ?s = "\<lparr>world = (?c, []), gauges_of = no_gauges\<rparr>"
  let ?ready = "[GetRollout ''default'' ''demo'', GetDeployment ''default'' ''app-canary'',
    ListPods ''default'' [(''app'', ''canary'')], ClockRead 5]"
  let ?s3 = "\<lparr>world = (?c, ?ready), gauges_of = no_gauges\<rparr>"
  have start: "analysis_starts (traced measured_env) ''default'' ''demo'' ?s ?cr \<lparr>Weight = 20, PauseSeconds = 30\<rparr> 5 ?s3"
    by (simp add: analysis_starts_def settled_def active_def current_step_def isCanaryReady_def pod_ready_def
        call_def lookup_def demo_analysed_def demo_defs measured_env_def traced_def log_call_def)
  obtain st reason g qs where run: "RunSPRT (traced measured_env) ''http://prometheus'' ''default'' ''demo'' demo_analysis [] ?s3 =
     (Inr (SPRTPromote, [st], reason), \<lparr>world = (?c, ?ready @ qs), gauges_of = g\<rparr>)"
    and qs: "status_writes qs = []"
    using measured_verdict [of ?s3] by auto
  have fields: "PrometheusURL (Spec ?cr) = ''http://prometheus''" "Analysis (Spec ?cr) = Some demo_analysis"
    "Namespace ?cr = ''default''" "Name ?cr = ''demo''" "AnalysisState (Status ?cr) = []" "CurrentStep (Status ?cr) = 0"
    by (simp_all add: demo_analysed_def demo_rollout_def demo_status_def demo_spec_def)
  have early: "dur_lt (elapsed_at ?cr 5) (seconds 30)"
    by (simp add: elapsed_at_def demo_analysed_def demo_rollout_def demo_status_def dur_lt_def sint_time_Sub sint_seconds)
  have "Reconcile (traced measured_env) ''default'' ''demo'' ?s =
    reconcile_timer (traced measured_env) (with_analysis [st] reason ?cr) 0 (seconds 30) (elapsed_at ?cr 5)
      (analysis_interval (Spec ?cr)) \<lparr>world = (?c, ?ready @ qs), gauges_of = g\<rparr>"
    unfolding Reconcile_settled [OF start]
    unfolding reconcile_analysis_def
    by (simp add: run [simplified] fields int64_of_int32_def)
  then have "with_analysis [st] reason ?cr \<in> set (status_writes (cycle_events measured_env ''default'' ''demo'' ?c no_gauges))"
    by (simp add: cycle_events_def reconcile_timer_def early return_update_def call_def log_call_def qs Let_def
        case_prod_unfold split: option.split)
  then show thesis
    by (intro that [of "[st]" reason]) (simp_all add: cycle_writes_def lookup_def demo_analysed_def demo_defs measured_env_def)
qed

text \<open>
  C3: a well-typed status stays well typed: when the specification holds numbers, \<open>math.Log\<close> and
  Prometheus answer with numbers, and the status is well typed, then the status is well typed
  after any history of cycles and edits: its phase is one of the API's (or empty), every stored
  number is a binary64 value, in range and normalised, every stored decision is \<open>pending\<close>,
  \<open>promote\<close> or \<open>rollback\<close>, and a stored decision to roll back belongs to an aborted rollout.
\<close>

theorem status_stays_typed:
  assumes "later typed_spec E cr cr'" "typed_env E" "typed_spec (Spec cr)" "typed_status (Status cr)"
  shows "typed_status (Status cr')"
  using assms by (rule later_typed)

theorem status_stays_typed_witness:
  "\<exists>sts reason. sts \<noteq> [] \<and> typed_status (Status (with_analysis sts reason (demo_analysed demo_analysis)))"
proof -
  obtain sts reason where w: "sts \<noteq> []"
    "cycle_writes measured_env ''default'' ''demo'' (demo_cluster (demo_analysed demo_analysis) 5) no_gauges (demo_analysed demo_analysis)
       (with_analysis sts reason (demo_analysed demo_analysis))"
    by (rule measured_writes)
  have sp: "typed_spec (Spec (demo_analysed demo_analysis))" "typed_status (Status (demo_analysed demo_analysis))"
    by (simp_all add: demo_analysed_def demo_rollout_def typed_spec_def demo_analysis_def demo_metric_def f64_lit_ok
        typed_status_def demo_status_def)
  show ?thesis
    using status_stays_typed [OF later_cycle [OF later_refl w(2)] measured_typed sp] w(1) by blast
qed

end
