(* ===== verification/Status_Encoding.thy ===== *)
theory Status_Encoding
  imports Reconciler_Runs Analyzer_Props VirtualService_Props
begin

text \<open>
  What happens to evidence that JSON cannot carry. The status is sent to the API server as JSON,
  and \<open>encoding/json\<close> refuses infinities and NaN: the client of a real cluster returns an error for
  such a status and sends nothing. Together with an outage of the stable service, which makes the
  log-likelihood infinite (\<open>stable_outage_rolls_back_clean_canary\<close>), a rollback is carried out and
  then forgotten.
\<close>

section \<open>A client that encodes the status as JSON\<close>

definition encodable :: "canary_rollout \<Rightarrow> bool" where
  "encodable cr \<longleftrightarrow>
     list_all (\<lambda>st. f64_finite (LogLikelihood st) \<and> f64_finite (BaselineRate st) \<and>
        f64_finite (LastCanaryTotal st) \<and> f64_finite (LastCanaryFailure st)) (AnalysisState (Status cr))"

definition json_client :: "'w env \<Rightarrow> bool" where
  "json_client E \<longleftrightarrow> (\<forall>cr w. \<not> encodable cr \<longrightarrow> (\<exists>e. update_status E cr w = (Some e, w)))"

lemma encodable_with_status [simp]: "encodable (with_status p i w t msg cr) = encodable cr"
  by (simp add: encodable_def with_status_def)

lemma encodable_with_analysis:
  "encodable (with_analysis sts reason cr) \<Longrightarrow> st \<in> set sts \<Longrightarrow> f64_finite (LogLikelihood st)"
  by (simp add: encodable_def with_analysis_def list_all_iff)

section \<open>A cluster whose stable service is down\<close>

definition strict_env :: "cluster env" where
  "strict_env = cluster_env\<lparr> update_status := \<lambda>cr c.
     if encodable cr then store_status cr c else (Some (PlainError ''json: unsupported value: +Inf''), c)\<rparr>"

lemma strict_json: "json_client strict_env"
  by (simp add: json_client_def strict_env_def)

text \<open>Twenty requests to the canary without a failure; seven to the stable service, all failed.\<close>

definition outage_samples :: "string \<Rightarrow> float64 list" where
  "outage_samples q =
     [if q = ''ct'' then f64_of_int 20 else if q = ''cf'' then f64_0 else f64_of_int 7]"

definition outage :: cluster where
  "outage = (demo_cluster (demo_analysed demo_analysis) 5)
     \<lparr> samples := outage_samples,
       stored_vs := [(''default'', ''app'') \<mapsto> demo_vs [demo_route ''app-stable'' 80, demo_route ''app-canary'' 20]] \<rparr>"

lemma outage_samples_run:
  "case sprt_samples log_portable (upper_bound log_portable demo_analysis) (lower_bound log_portable demo_analysis)
      demo_metric (init_state ''http-errors'') (f64_of_int 20) f64_0 (f64_of_int 7) (f64_of_int 7) of
     (MetricRollback st r, b) \<Rightarrow> LogLikelihood st = F64_Inf False \<and> b
   | _ \<Rightarrow> False"
  by code_simp

lemma strict_calls [simp]:
  "prom_client strict_env = prom_client cluster_env" "math_Log strict_env = log_portable"
  "time_Now strict_env = time_Now cluster_env" "prom_query strict_env = prom_query cluster_env"
  "get_vs strict_env = get_vs cluster_env" "update_vs strict_env = update_vs cluster_env"
  "get_rollout strict_env = get_rollout cluster_env" "get_deployment strict_env = get_deployment cluster_env"
  "list_pods strict_env = list_pods cluster_env" "NestedSlice strict_env = json_slice"
  "NestedString strict_env = json_string" "SetNestedField strict_env = json_set"
  "SetNestedSlice strict_env = json_set_slice"
  by (simp_all add: strict_env_def)

lemma strict_query:
  "samples (world s) = outage_samples \<Longrightarrow> queryScalar strict_env url q s =
     (Inr (Some (if q = ''ct'' then f64_of_int 20 else if q = ''cf'' then f64_0 else f64_of_int 7)), s)"
  by (simp add: queryScalar_def call_def outage_samples_def)

lemma outage_run:
  assumes "samples (world s) = outage_samples"
  shows "\<exists>st reason g. RunSPRT strict_env ''http://prometheus'' ''default'' ''demo'' demo_analysis [] s =
    (Inr (SPRTRollback, [st], reason), s\<lparr>gauges_of := g\<rparr>) \<and> LogLikelihood st = F64_Inf False"
proof -
  obtain st r where st: "sprt_samples log_portable (upper_bound log_portable demo_analysis) (lower_bound log_portable demo_analysis)
      demo_metric (init_state ''http-errors'') (f64_of_int 20) f64_0 (f64_of_int 7) (f64_of_int 7) = (MetricRollback st r, True)"
    "LogLikelihood st = F64_Inf False"
    using outage_samples_run by (auto split: prod.splits metric_out.splits)
  show ?thesis
    using st assms
    by (simp add: RunSPRT_def Let_def demo_analysis_def demo_metric_def sprt_metric_def metric_decided_def
        init_state_def strict_query sprt_publish_def gauge_update_def) blast
qed

lemma outage_starts:
  "analysis_starts strict_env ''default'' ''demo'' \<lparr>world = outage, gauges_of = no_gauges\<rparr> (demo_analysed demo_analysis)
     \<lparr>Weight = 20, PauseSeconds = 30\<rparr> 5 \<lparr>world = outage, gauges_of = no_gauges\<rparr>"
  by (simp add: analysis_starts_def settled_def active_def current_step_def isCanaryReady_def pod_ready_def
      call_def lookup_def demo_analysed_def demo_defs outage_def)

section \<open>The property\<close>

text \<open>
  Why the traffic does not come back: at a step whose weight the status already has, a cycle only
  ever asks for the split that sends everything to the stable service.
\<close>

lemma settled_never_shifts:
  "cycle_step V clk cr split cr' \<Longrightarrow> settled cr step \<Longrightarrow> split = None \<or> (\<exists>ok. split = Some (100, 0, ok))"
  by (erule cycle_stepE) (auto simp: settled_def)

text \<open>
  C21: a rollback for which the evidence is infinite is never recorded: the cycle moves the
  traffic, the client refuses the status, and the cycle ends with its error. Nothing was written
  after the traffic, so the stored rollout still says \<open>Running\<close> with the weight of its step, while
  the gauges already say \<open>Aborted\<close> with weight 0.
\<close>

theorem infinite_rollback_is_not_recorded:
  assumes "json_client E" "analysis_starts E ns n s cr step t s3" "analysis_enabled cr" "Analysis (Spec cr) = Some a"
    and "RunSPRT E (PrometheusURL (Spec cr)) (Namespace cr) (Name cr) a (AnalysisState (Status cr)) s3 =
      (Inr (SPRTRollback, sts, reason), s4)"
    and "\<not> list_all (\<lambda>st. f64_finite (LogLikelihood st)) sts"
    and "set_weights E cr 100 0 s4 = (err, s5)" "time_Now E (world s5) = (t', w6)"
  shows "\<exists>e. Reconcile E ns n s = (Ret (0, Some e),
    \<lparr>world = w6, gauges_of = recordCanaryWeight (Namespace cr) (Name cr) 0
       (recordRolloutPhase (Namespace cr) (Name cr) PhaseAborted (gauges_of s5))\<rparr>)"
proof -
  have w: "set_weights E (with_analysis sts reason cr) 100 0 s4 = (err, s5)"
    using assms(7) by (simp add: set_weights_def with_analysis_def)
  have "\<not> encodable (with_analysis sts reason cr)"
    using assms(6) encodable_with_analysis by (auto simp: list_all_iff)
  then have bad: "\<not> encodable (with_status p i x tt msg (with_analysis sts reason cr))" for p i x tt msg by simp
  have f: "Namespace (with_status p i x tt msg (with_analysis sts reason cr)) = Namespace cr"
    "Name (with_status p i x tt msg (with_analysis sts reason cr)) = Name cr" for p i x tt msg
    by (simp_all add: with_status_def with_analysis_def)
  let ?msg = "''SPRT rollback at step '' @ fmt_d (sint (CurrentStep (Status cr))) @ '': '' @ reason"
  obtain e where e: "update_status E (with_status PhaseAborted (CurrentStep (Status cr)) 0 t' ?msg
      (with_analysis sts reason cr)) w6 = (Some e, w6)"
    using assms(1) bad unfolding json_client_def by meson
  show ?thesis
    using assms(3-5,8) w e Reconcile_settled [OF assms(2)]
    by (simp add: analysis_enabled_def reconcile_analysis_def return_status_def setStatus_def call_def Let_def f
        gauge_update_def)
qed

theorem infinite_rollback_is_not_recorded_witness:
  "case Reconcile strict_env ''default'' ''demo'' \<lparr>world = outage, gauges_of = no_gauges\<rparr> of
     (res, s') \<Rightarrow>
       stored_rollouts (world s') (''default'', ''demo'') = Some (demo_analysed demo_analysis) \<and>
       CurrentWeight (Status (demo_analysed demo_analysis)) = 20 \<and>
       vs_routes cluster_env (the (stored_vs (world s') (''default'', ''app''))) =
         Some [demo_route ''app-stable'' 100, demo_route ''app-canary'' 0]"
proof -
  let ?s = "\<lparr>world = outage, gauges_of = no_gauges\<rparr>" and ?cr = "demo_analysed demo_analysis"
  have smp: "samples (world ?s) = outage_samples" by (simp add: outage_def)
  obtain st reason g where run: "RunSPRT strict_env ''http://prometheus'' ''default'' ''demo'' demo_analysis [] ?s =
    (Inr (SPRTRollback, [st], reason), ?s\<lparr>gauges_of := g\<rparr>)" "LogLikelihood st = F64_Inf False"
    using outage_run [OF smp] by blast
  let ?mesh = "demo_vs [demo_route ''app-stable'' 100, demo_route ''app-canary'' 0]"
  have w: "set_weights strict_env ?cr 100 0 (?s\<lparr>gauges_of := g\<rparr>) =
      (None, \<lparr>world = outage\<lparr>stored_vs := (stored_vs outage)((''default'', ''app'') \<mapsto> ?mesh)\<rparr>, gauges_of = g\<rparr>)"
    by (simp add: set_weights_def SetVirtualServiceWeights_def call_def lookup_def outage_def demo_cluster_def
        vs_with_weights_def demo_vs_def demo_route_def json_slice_def json_set_slice_def set_route_weight_def
        dest_host_def json_string_def store_vs_def object_key_def int64_of_int32_def fun_upd_twist Let_def)
  have bad: "\<not> list_all (\<lambda>st. f64_finite (LogLikelihood st)) [st]" using run(2) by simp
  obtain e where rec: "Reconcile strict_env ''default'' ''demo'' ?s = (Ret (0, Some e),
      \<lparr>world = outage\<lparr>stored_vs := (stored_vs outage)((''default'', ''app'') \<mapsto> ?mesh)\<rparr>,
        gauges_of = recordCanaryWeight ''default'' ''demo'' 0 (recordRolloutPhase ''default'' ''demo'' PhaseAborted g)\<rparr>)"
    using infinite_rollback_is_not_recorded [OF strict_json outage_starts, of demo_analysis "[st]" reason
        "?s\<lparr>gauges_of := g\<rparr>" None, OF _ _ _ bad w] run(1) by auto
  show ?thesis
    unfolding rec
    by (simp add: demo_vs_routes outage_def demo_cluster_def) (simp add: demo_analysed_def demo_rollout_def demo_status_def)
qed

end
