(* ===== verification/Published.thy ===== *)
theory Published
  imports Reconciler_Calls
begin

text \<open>
  What the controller publishes about a rollout: the gauges of its phase and its canary weight
  (\<open>metrics.go\<close>), which \<open>setStatus\<close> (\<open>reconciler.go\<close>) records before it sends the status.
\<close>

section \<open>The panel of a rollout\<close>

type_synonym panel = "float64 option \<times> float64 option"

definition panel_of :: "canary_rollout \<Rightarrow> gauges \<Rightarrow> panel" where
  "panel_of cr g = (rolloutPhase g (Namespace cr, Name cr), canaryWeight_gauge g (Namespace cr, Name cr))"

text \<open>What the panel shows when the status was published.\<close>

definition status_panel :: "canary_rollout \<Rightarrow> panel" where
  "status_panel cr =
     (map_option f64_of_int (phaseCode (Phase (Status cr))), Some (f64_of_int32 (CurrentWeight (Status cr))))"

lemma panel_cong: "Namespace cr' = Namespace cr \<Longrightarrow> Name cr' = Name cr \<Longrightarrow> panel_of cr' = panel_of cr"
  by (simp add: panel_of_def fun_eq_iff)

lemma panel_frame [simp]:
  "panel_of cr (recordSPRTBoundaries ns ro u l g) = panel_of cr g"
  "panel_of cr (recordSPRTMetricState ns ro st g) = panel_of cr g"
  "panel_of cr (reset_gauges cr' g) = panel_of cr g"
  by (simp_all add: panel_of_def recordSPRTBoundaries_def recordSPRTMetricState_def Let_def reset_gauges_def
      reset_series_frame split: option.split)

lemma panel_recorded:
  "phaseCode p \<noteq> None \<Longrightarrow>
   panel_of cr (recordCanaryWeight (Namespace cr) (Name cr) w (recordRolloutPhase (Namespace cr) (Name cr) p g)) =
     (map_option f64_of_int (phaseCode p), Some (f64_of_int32 w))"
  by (auto simp: panel_of_def recordCanaryWeight_def recordRolloutPhase_def gauge_set_def)

lemma known_phases [simp]:
  "phaseCode PhaseRunning = Some 1" "phaseCode PhasePaused = Some 2" "phaseCode PhasePromoted = Some 3"
  "phaseCode PhaseAborted = Some 4" "phaseCode PhaseFailed = Some 5"
  by (simp_all add: phaseCode_def)

section \<open>Parts of a cycle that publish nothing\<close>

definition calm :: "canary_rollout \<Rightarrow> ('w \<times> event list) sys \<Rightarrow> ('w \<times> event list) sys \<Rightarrow> bool" where
  "calm cr s s' \<longleftrightarrow> (\<exists>es. emits es s s' \<and> status_writes es = []) \<and> panel_of cr (gauges_of s') = panel_of cr (gauges_of s)"

lemma calm_refl [simp]: "calm cr s s"
  by (auto simp: calm_def intro: exI [of _ "[]"])

lemma calm_trans: "calm cr s s' \<Longrightarrow> calm cr s' s'' \<Longrightarrow> calm cr s s''"
  unfolding calm_def by (metis emits_trans status_writes_append append_Nil)

lemma calm_quiet: "quiet_run s s' \<Longrightarrow> panel_of cr (gauges_of s') = panel_of cr (gauges_of s) \<Longrightarrow> calm cr s s'"
  by (auto simp: calm_def quiet_run_def quiet_def)

lemma call_gauges: "call f s = (r, s') \<Longrightarrow> gauges_of s' = gauges_of s"
  by (auto simp: call_def split: prod.splits)

lemma call_calm:
  "call (time_Now (traced E)) s = (t, s') \<Longrightarrow> calm cr s s'"
  "call (log_call ev f) s = (r, s') \<Longrightarrow> quiet [ev] \<Longrightarrow> calm cr s s'"
  using call_quiet call_gauges by (metis calm_quiet)+

lemma queryScalar_gauges: "queryScalar E url q s = (r, s') \<Longrightarrow> gauges_of s' = gauges_of s"
  by (auto simp: queryScalar_def Let_def dest!: call_gauges split: prod.splits)

lemma sprt_publish_panel: "sprt_publish ns ro r s = (out, s') \<Longrightarrow> panel_of cr (gauges_of s') = panel_of cr (gauges_of s)"
  by (auto simp: sprt_publish_def split: prod.splits metric_out.splits bool.splits)

lemma sprt_metric_panel:
  "sprt_metric E url ns ro upper lower cur m s = (out, s') \<Longrightarrow> panel_of cr (gauges_of s') = panel_of cr (gauges_of s)"
  by (auto simp: sprt_metric_def Let_def dest!: queryScalar_gauges sprt_publish_panel [where cr = cr]
      split: if_splits prod.splits sum.splits option.splits)

lemma sprt_loop_panel:
  "sprt_loop E url ns ro upper lower cur ms upd s = (out, s') \<Longrightarrow> panel_of cr (gauges_of s') = panel_of cr (gauges_of s)"
proof (induction ms arbitrary: upd s)
  case (Cons m ms)
  then show ?case by (auto dest!: sprt_metric_panel [where cr = cr] split: prod.splits metric_out.splits)
qed simp

lemma RunSPRT_calm:
  assumes "RunSPRT (traced E) url ns ro a cur s = (out, s')"
  shows "calm cr s s'"
proof (rule calm_quiet [OF RunSPRT_quiet [OF assms]])
  show "panel_of cr (gauges_of s') = panel_of cr (gauges_of s)"
    using assms by (auto simp: RunSPRT_def Let_def dest!: sprt_loop_panel [where cr = cr]
        split: option.splits prod.splits loop_out.splits if_splits)
qed

lemma isCanaryReady_calm:
  assumes "isCanaryReady (traced E) ns d s = (r, s')"
  shows "calm cr s s'"
proof (rule calm_quiet [OF isCanaryReady_quiet [OF assms]])
  show "panel_of cr (gauges_of s') = panel_of cr (gauges_of s)"
    using assms by (auto simp: isCanaryReady_def Let_def dest!: call_gauges split: prod.splits sum.splits option.splits)
qed

lemma set_weights_calm:
  assumes "set_weights (traced E) cr' sw cw s = (err, s')"
  shows "calm cr s s'"
proof -
  obtain es where es: "emits es s s'" "status_writes es = []" using assms by (rule set_weights_calls)
  moreover have "gauges_of s' = gauges_of s"
    using assms by (auto simp: set_weights_def SetVirtualServiceWeights_def Let_def dest!: call_gauges
        split: prod.splits sum.splits option.splits)
  ultimately show ?thesis by (auto simp: calm_def)
qed

section \<open>A cycle\<close>

text \<open>
  At the end of a run the panel shows the last status that was sent, or it is unchanged and that
  status shows the panel \<open>p\<close> of the status that was read.
\<close>

definition shown :: "canary_rollout \<Rightarrow> panel \<Rightarrow> ('w \<times> event list) sys \<Rightarrow> ('w \<times> event list) sys \<Rightarrow> bool" where
  "shown cr p s s' \<longleftrightarrow>
     (\<exists>es. emits es s s' \<and>
        (case rev (status_writes es) of
           [] \<Rightarrow> panel_of cr (gauges_of s') = panel_of cr (gauges_of s)
         | cr' # _ \<Rightarrow> panel_of cr (gauges_of s') = status_panel cr' \<or>
             panel_of cr (gauges_of s') = panel_of cr (gauges_of s) \<and> status_panel cr' = p))"

lemma calm_shown: "calm cr s s' \<Longrightarrow> shown cr p s s'"
  by (auto simp: calm_def shown_def)

lemma shown_after: "calm cr s s1 \<Longrightarrow> shown cr p s1 s' \<Longrightarrow> shown cr p s s'"
proof -
  assume c: "calm cr s s1" and sh: "shown cr p s1 s'"
  obtain xs where xs: "emits xs s s1" "status_writes xs = []" using c by (auto simp: calm_def)
  obtain es where es: "emits es s1 s'"
    "case rev (status_writes es) of
       [] \<Rightarrow> panel_of cr (gauges_of s') = panel_of cr (gauges_of s1)
     | cr' # _ \<Rightarrow> panel_of cr (gauges_of s') = status_panel cr' \<or>
         panel_of cr (gauges_of s') = panel_of cr (gauges_of s1) \<and> status_panel cr' = p"
    using sh by (auto simp: shown_def)
  show ?thesis
    unfolding shown_def using emits_trans [OF xs(1) es(1)] es(2) xs(2) c
    by (intro exI [of _ "xs @ es"]) (simp add: calm_def split: list.splits)
qed

lemma return_status_shown:
  assumes "return_status (traced E) cr1 d phase step weight msg s = (res, s')" "phaseCode phase \<noteq> None"
    "Namespace cr1 = Namespace cr" "Name cr1 = Name cr"
  shows "shown cr p s s'"
proof -
  obtain t s1 where t: "call (time_Now (traced E)) s = (t, s1)" by fastforce
  obtain t' where em: "emits [ClockRead t', UpdateStatus (with_status phase step weight t' msg cr1)] s s'"
    using assms(1) by (rule return_status_calls)
  have "gauges_of s' = recordCanaryWeight (Namespace cr) (Name cr) weight
      (recordRolloutPhase (Namespace cr) (Name cr) phase (gauges_of s1))"
    using assms t by (auto simp: return_status_def setStatus_def with_status_def Let_def dest!: call_gauges
        split: prod.splits)
  then have "panel_of cr (gauges_of s') = status_panel (with_status phase step weight t' msg cr1)"
    using panel_recorded [OF assms(2)] by (simp add: status_panel_def with_status_def)
  then show ?thesis using em by (auto simp: shown_def)
qed

lemma return_update_shown:
  assumes "return_update (traced E) cr1 d s = (res, s')" "status_panel cr1 = p"
  shows "shown cr p s s'"
proof -
  have "gauges_of s' = gauges_of s"
    using assms(1) by (auto simp: return_update_def dest!: call_gauges split: prod.splits option.splits)
  then show ?thesis using return_update_calls [OF assms(1)] assms(2) by (auto simp: shown_def)
qed

lemma with_analysis_panel [simp]:
  "status_panel (with_analysis sts reason cr) = status_panel cr"
  "Namespace (with_analysis sts reason cr) = Namespace cr" "Name (with_analysis sts reason cr) = Name cr"
  by (simp_all add: status_panel_def with_analysis_def)

lemma calm_gauge: "panel_of cr (f (gauges_of s)) = panel_of cr (gauges_of s) \<Longrightarrow> calm cr s (gauge_update f s)"
  by (auto simp: calm_def intro!: exI [of _ "[]"])

lemma reconcile_advance_shown:
  assumes "reconcile_advance (traced E) cr1 i s = (res, s')" "Namespace cr1 = Namespace cr" "Name cr1 = Name cr"
  shows "shown cr p s s'"
proof -
  let ?s1 = "gauge_update (reset_gauges cr1) s" and ?cr = "cr1\<lparr>Status := (Status cr1)\<lparr>AnalysisState := []\<rparr>\<rparr>"
  have c: "calm cr s ?s1" by (rule calm_gauge) simp
  have n: "Namespace ?cr = Namespace cr" "Name ?cr = Name cr" using assms(2,3) by simp_all
  have "\<exists>d ph st w msg. return_status (traced E) ?cr d ph st w msg ?s1 = (res, s') \<and> phaseCode ph \<noteq> None"
    using assms(1) unfolding reconcile_advance_def Let_def
    by (cases "int (length (Steps (Spec cr1))) \<le> sint (int32_of_int64 (i + 1))") (fastforce simp del: not_None_eq)+
  then show ?thesis using shown_after [OF c return_status_shown [OF _ _ n]] by blast
qed

lemma reconcile_gate_shown:
  assumes "reconcile_gate (traced E) cr1 i d iv s = (res, s')" "Namespace cr1 = Namespace cr" "Name cr1 = Name cr"
    "status_panel cr1 = p"
  shows "shown cr p s s'"
proof -
  have "status_panel (cr1\<lparr>Status := (Status cr1)\<lparr>Message := m\<rparr>\<rparr>) = p" for m
    using assms(4) by (simp add: status_panel_def)
  then show ?thesis
    using assms by (auto simp: reconcile_gate_def Let_def split: if_splits
        intro: return_update_shown reconcile_advance_shown)
qed

lemma reconcile_timer_shown:
  assumes "reconcile_timer (traced E) cr1 i d el iv s = (res, s')" "Namespace cr1 = Namespace cr" "Name cr1 = Name cr"
    "status_panel cr1 = p"
  shows "shown cr p s s'"
  using assms by (auto simp: reconcile_timer_def Let_def split: if_splits
      intro: return_update_shown reconcile_gate_shown)

lemma reconcile_analysis_shown:
  assumes "reconcile_analysis (traced E) cr i d el s = (res, s')"
  shows "shown cr (status_panel cr) s s'"
proof (cases "PrometheusURL (Spec cr) \<noteq> '''' \<and> Analysis (Spec cr) \<noteq> None")
  case False
  then have "reconcile_timer (traced E) cr i d el (analysis_interval (Spec cr)) s = (res, s')"
    using assms by (auto simp: reconcile_analysis_def Let_def split: option.splits bool.splits)
  then show ?thesis by (rule reconcile_timer_shown) simp_all
next
  case True
  then obtain a where a: "Analysis (Spec cr) = Some a" by blast
  obtain r s1 where r: "RunSPRT (traced E) (PrometheusURL (Spec cr)) (Namespace cr) (Name cr) a
      (AnalysisState (Status cr)) s = (r, s1)" by fastforce
  note c = RunSPRT_calm [OF r, of cr]
  show ?thesis
  proof (cases r)
    case (Inl e)
    then show ?thesis using assms True a r c by (auto simp: reconcile_analysis_def intro: calm_shown)
  next
    case (Inr v)
    obtain dec sts reason where v: "v = (dec, sts, reason)" by (cases v)
    let ?cr1 = "with_analysis sts reason cr"
    show ?thesis
    proof (cases "dec = SPRTRollback")
      case rb: True
      obtain e s2 where w: "set_weights (traced E) ?cr1 100 0 s1 = (e, s2)" by fastforce
      have "shown cr (status_panel cr) s2 s'"
        using assms True a r Inr v rb w
        by (intro return_status_shown [of E ?cr1]) (auto simp: reconcile_analysis_def Let_def)
      then show ?thesis using shown_after [OF calm_trans [OF c set_weights_calm [OF w]]] by blast
    next
      case False
      have "shown cr (status_panel cr) s1 s'"
        using assms True a r Inr v False
        by (intro reconcile_timer_shown [of E ?cr1]) (auto simp: reconcile_analysis_def Let_def)
      then show ?thesis by (rule shown_after [OF c])
    qed
  qed
qed

lemma reconcile_step_shown:
  assumes "reconcile_step (traced E) cr i step s = (res, s')"
  shows "shown cr (status_panel cr) s s'"
proof -
  obtain t s1 where t: "call (time_Now (traced E)) s = (t, s1)" by fastforce
  note c = call_calm(1) [OF t, of cr]
  show ?thesis
  proof (cases "CurrentWeight (Status cr) = Weight step")
    case True
    then show ?thesis
      using assms t by (auto simp: reconcile_step_def Let_def intro: shown_after [OF c reconcile_analysis_shown])
  next
    case False
    obtain e s2 where w: "set_weights (traced E) cr (100 - Weight step) (Weight step) s1 = (e, s2)" by fastforce
    note c2 = calm_trans [OF c set_weights_calm [OF w, of cr]]
    show ?thesis
      using assms t w False c2
      by (auto simp: reconcile_step_def Let_def split: option.splits
          intro: calm_shown shown_after [OF c2 return_status_shown])
  qed
qed

lemma reconcile_not_ready_shown:
  assumes "reconcile_not_ready (traced E) cr s = (res, s')"
  shows "shown cr p s s'"
proof -
  obtain t s1 where t: "call (time_Now (traced E)) s = (t, s1)" by fastforce
  obtain e s2 where w: "set_weights (traced E) cr 100 0 s1 = (e, s2)" by fastforce
  note c = call_calm(1) [OF t, of cr]
  note c2 = calm_trans [OF c set_weights_calm [OF w]]
  show ?thesis
    using assms t w c by (auto simp: reconcile_not_ready_def Let_def split: if_splits
        intro: calm_shown shown_after [OF c2 return_status_shown])
qed

lemma reconcile_running_shown:
  assumes "reconcile_running (traced E) cr s = (res, s')"
  shows "shown cr (status_panel cr) s s'"
proof (cases "int (length (Steps (Spec cr))) \<le> sint (int64_of_int32 (CurrentStep (Status cr)))")
  case True
  then show ?thesis using assms by (auto simp: reconcile_running_def Let_def intro: return_status_shown)
next
  case False
  obtain r s1 where r: "isCanaryReady (traced E) (Namespace cr) (TargetRef (Spec cr)) s = (r, s1)" by fastforce
  note c = isCanaryReady_calm [OF r, of cr]
  show ?thesis
    using assms False r c
    by (auto simp: reconcile_running_def Let_def split: outcome.splits sum.splits bool.splits if_splits
        intro: calm_shown shown_after [OF c reconcile_not_ready_shown] shown_after [OF c reconcile_step_shown])
qed

lemma reconcile_rollout_shown:
  assumes "reconcile_rollout (traced E) cr s = (res, s')"
  shows "shown cr (status_panel cr) s s'"
proof -
  obtain e s1 where w: "set_weights (traced E) cr 100 0 s = (e, s1)" by fastforce
  note c = set_weights_calm [OF w, of cr]
  have abort: "reconcile_abort (traced E) cr s = (res, s') \<Longrightarrow> shown cr (status_panel cr) s s'"
    using w c by (auto simp: reconcile_abort_def Let_def split: option.splits
        intro: calm_shown shown_after [OF c return_status_shown])
  show ?thesis
    using assms abort by (auto simp: reconcile_rollout_def Let_def split: if_splits
        intro: calm_shown [OF calm_refl] return_status_shown reconcile_running_shown)
qed

text \<open>
  C22: the gauges follow the status. For every environment and every stored rollout: after a cycle
  the gauges of the rollout's phase and weight show the last status the cycle sent (or, when it sent
  none, the one it read), or the cycle left them alone and that status shows the same phase and
  weight as the one it read. So gauges that agree with the stored status still agree with what the
  cycle makes of it.
\<close>

theorem gauges_follow_the_status:
  "case (fst (get_rollout E ns n w), Reconcile (traced E) ns n \<lparr>world = (w, []), gauges_of = g\<rparr>) of
     (Inl err, (res, s')) \<Rightarrow> gauges_of s' = g
   | (Inr cr, (res, s')) \<Rightarrow>
       let sent = last (cr # status_writes (snd (world s')))
       in panel_of cr (gauges_of s') = status_panel sent \<or>
          panel_of cr (gauges_of s') = panel_of cr g \<and> status_panel sent = status_panel cr"
proof -
  let ?s = "\<lparr>world = (w, []), gauges_of = g\<rparr>"
  obtain res s' where run: "Reconcile (traced E) ns n ?s = (res, s')" by fastforce
  obtain got s1 where got: "call (get_rollout (traced E) ns n) ?s = (got, s1)" by fastforce
  have r: "got = fst (get_rollout E ns n w)" "gauges_of s1 = g" "snd (world s1) = [GetRollout ns n]"
    using got by (auto simp: call_def log_call_def split: prod.splits)
  show ?thesis
  proof (cases got)
    case (Inl e)
    then show ?thesis using run got r by (auto simp: Reconcile_def)
  next
    case (Inr cr)
    then have "reconcile_rollout (traced E) cr s1 = (res, s')" using run got by (simp add: Reconcile_def)
    from reconcile_rollout_shown [OF this] obtain es where es: "emits es s1 s'"
      "case rev (status_writes es) of
         [] \<Rightarrow> panel_of cr (gauges_of s') = panel_of cr g
       | cr' # _ \<Rightarrow> panel_of cr (gauges_of s') = status_panel cr' \<or>
           panel_of cr (gauges_of s') = panel_of cr g \<and> status_panel cr' = status_panel cr"
      using r(2) by (auto simp: shown_def)
    have "status_writes (snd (world s')) = status_writes es"
      using es(1) r(3) by (simp add: emits_def)
    then show ?thesis
      using es(2) run r(1) [symmetric] Inr by (cases "status_writes es" rule: rev_cases) (auto simp: Let_def)
  qed
qed

end
