(* ===== verification/Manager.thy ===== *)
theory Manager
  imports Statctl_Args
begin

text \<open>
  The start-up of the controller (\<open>cmd/main.go\<close>, and \<open>SetupWithManager\<close> of \<open>reconciler.go\<close>): the
  command line, and the calls to \<open>controller-runtime\<close> with their early exits. The library's calls
  are functions over a world; \<open>lib_flags\<close> are the names of the flags that imported packages
  register with \<open>flag.CommandLine\<close>, all of them with a text as value.
\<close>

section \<open>The command line\<close>

record manager_flags =
  metricsAddr :: string
  probeAddr :: string
  enableLeaderElection :: bool
  library_flags :: "(string \<times> string) list"

definition manager_defaults :: manager_flags where
  "manager_defaults =
    \<lparr> metricsAddr = '':8080'', probeAddr = '':8081'', enableLeaderElection = False, library_flags = [] \<rparr>"

text \<open>\<open>strconv.ParseBool\<close>\<close>

definition ParseBool :: "string \<Rightarrow> bool option" where
  "ParseBool v =
     (if v \<in> set [''1'', ''t'', ''T'', ''true'', ''TRUE'', ''True''] then Some True
      else if v \<in> set [''0'', ''f'', ''F'', ''false'', ''FALSE'', ''False''] then Some False
      else None)"

definition set_manager_flag :: "string \<Rightarrow> string \<Rightarrow> manager_flags \<Rightarrow> go_error + manager_flags" where
  "set_manager_flag name v fl =
     (if name = ''metrics-bind-address'' then Inr (fl\<lparr>metricsAddr := v\<rparr>)
      else if name = ''health-probe-bind-address'' then Inr (fl\<lparr>probeAddr := v\<rparr>)
      else if name = ''leader-elect'' then
        (case ParseBool v of
           Some b \<Rightarrow> Inr (fl\<lparr>enableLeaderElection := b\<rparr>)
         | None \<Rightarrow> Inl (PlainError ''parse error''))
      else Inr (fl\<lparr>library_flags := library_flags fl @ [(name, v)]\<rparr>))"

definition manager_names :: "string list \<Rightarrow> string list" where
  "manager_names lib_flags = [''metrics-bind-address'', ''health-probe-bind-address'', ''leader-elect''] @ lib_flags"

datatype flag_outcome = Parsed manager_flags | HelpRequested | BadFlag go_error

text \<open>
  \<open>flag.Parse\<close>, which unlike the subcommands of \<open>statctl\<close> meets a boolean flag: it takes its value
  only after \<open>=\<close>, never from the next word. Parsing stops at the first word that is no flag.
\<close>

fun manager_parse :: "string list \<Rightarrow> string list \<Rightarrow> manager_flags \<Rightarrow> flag_outcome" where
  "manager_parse lib_flags [] fl = Parsed fl"
| "manager_parse lib_flags (s # args) fl =
     (if length s < 2 \<or> \<not> prefix ''-'' s \<or> s = ''--'' then Parsed fl
      else
        let body = flag_name s in
        if body = '''' \<or> prefix ''-'' body \<or> prefix ''='' body
        then BadFlag (PlainError (''bad flag syntax: '' @ s))
        else
          let (name, value) = split_value body in
          if name \<notin> set (manager_names lib_flags)
          then (if name = ''help'' \<or> name = ''h'' then HelpRequested
                else BadFlag (PlainError (''flag provided but not defined: -'' @ name)))
          else
            (case (value, name = ''leader-elect'', args) of
               (Some v, boolean, _) \<Rightarrow>
                 (case set_manager_flag name v fl of
                    Inl err \<Rightarrow> BadFlag (Wrapped (''invalid '' @ (if boolean then ''boolean '' else '''') @ ''value '' @
                                 fmt_q v @ '' for '' @ (if boolean then ''-'' else ''flag -'') @ name) err)
                  | Inr fl' \<Rightarrow> manager_parse lib_flags args fl')
             | (None, True, _) \<Rightarrow> manager_parse lib_flags args (fl\<lparr>enableLeaderElection := True\<rparr>)
             | (None, False, []) \<Rightarrow> BadFlag (PlainError (''flag needs an argument: -'' @ name))
             | (None, False, v # args') \<Rightarrow>
                 (case set_manager_flag name v fl of
                    Inl err \<Rightarrow> BadFlag (Wrapped (''invalid value '' @ fmt_q v @ '' for flag -'' @ name) err)
                  | Inr fl' \<Rightarrow> manager_parse lib_flags args' fl')))"

section \<open>The start\<close>

record manager_options =
  BindAddress :: string
  HealthProbeBindAddress :: string
  LeaderElection :: bool
  LeaderElectionID :: string

record 'w runtime_lib =
  GetConfig :: "(string \<times> string) list \<Rightarrow> 'w \<Rightarrow> go_error option \<times> 'w"
  NewManager :: "manager_options \<Rightarrow> 'w \<Rightarrow> go_error option \<times> 'w"
  Complete :: "string \<Rightarrow> 'w \<Rightarrow> go_error option \<times> 'w"
  AddHealthzCheck :: "string \<Rightarrow> 'w \<Rightarrow> go_error option \<times> 'w"
  AddReadyzCheck :: "string \<Rightarrow> 'w \<Rightarrow> go_error option \<times> 'w"
  StartManager :: "'w \<Rightarrow> go_error option \<times> 'w"
  log_Error :: "go_error \<Rightarrow> string \<Rightarrow> 'w \<Rightarrow> 'w"
  log_Info :: "string \<Rightarrow> 'w \<Rightarrow> 'w"

definition manager_opts :: "manager_flags \<Rightarrow> manager_options" where
  "manager_opts fl =
    \<lparr> BindAddress = metricsAddr fl, HealthProbeBindAddress = probeAddr fl,
      LeaderElection = enableLeaderElection fl, LeaderElectionID = ''statgate-leader-election'' \<rparr>"

definition SetupWithManager :: "'w runtime_lib \<Rightarrow> 'w \<Rightarrow> go_error option \<times> 'w" where
  "SetupWithManager L w = Complete L ''CanaryRollout'' w"

text \<open>\<open>if err := f(); err != nil { logger.Error(err, msg); os.Exit(1) }\<close>\<close>

definition or_exit ::
    "'w runtime_lib \<Rightarrow> string \<Rightarrow> ('w \<Rightarrow> go_error option \<times> 'w) \<Rightarrow> ('w \<Rightarrow> int \<times> 'w) \<Rightarrow> 'w \<Rightarrow> int \<times> 'w" where
  "or_exit L msg f k w =
     (case f w of
        (Some err, w1) \<Rightarrow> (1, log_Error L err msg w1)
      | (None, w1) \<Rightarrow> k w1)"

definition manager_start :: "'w runtime_lib \<Rightarrow> manager_flags \<Rightarrow> 'w \<Rightarrow> int \<times> 'w" where
  "manager_start L fl =
     or_exit L ''unable to get kubeconfig'' (GetConfig L (library_flags fl)) (
     or_exit L ''unable to start manager'' (NewManager L (manager_opts fl)) (
     or_exit L ''unable to create controller'' (SetupWithManager L) (
     or_exit L ''unable to set up health check'' (AddHealthzCheck L ''healthz'') (
     or_exit L ''unable to set up ready check'' (AddReadyzCheck L ''readyz'') (
     (\<lambda>w. or_exit L ''problem running manager'' (StartManager L) (\<lambda>w. (0, w)) (log_Info L ''starting manager'' w)))))))"

definition manager_main :: "'w runtime_lib \<Rightarrow> string list \<Rightarrow> string list \<Rightarrow> 'w \<Rightarrow> int \<times> 'w" where
  "manager_main L lib_flags args w =
     (case manager_parse lib_flags args manager_defaults of
        HelpRequested \<Rightarrow> (0, w)
      | BadFlag err \<Rightarrow> (2, w)
      | Parsed fl \<Rightarrow> manager_start L fl w)"

section \<open>What the command line means\<close>

text \<open>The arguments of the deployment manifests turn leader election on.\<close>

lemma deployed_arguments:
  "manager_parse lib_flags [''--leader-elect''] fl = Parsed (fl\<lparr>enableLeaderElection := True\<rparr>)"
  by (simp add: flag_name_def split_value_def manager_names_def)

text \<open>
  A boolean flag takes no word: with \<open>--leader-elect false\<close> the election is on, and every flag after
  the word is ignored. It is turned off by \<open>--leader-elect=false\<close>.
\<close>

lemma leader_elect_false:
  "manager_parse lib_flags (''--leader-elect'' # ''false'' # rest) fl = Parsed (fl\<lparr>enableLeaderElection := True\<rparr>)"
  "manager_parse lib_flags (''--leader-elect=false'' # rest) fl = manager_parse lib_flags rest (fl\<lparr>enableLeaderElection := False\<rparr>)"
  by (simp_all add: flag_name_def split_value_def manager_names_def set_manager_flag_def ParseBool_def)

section \<open>The end of the process\<close>

lemma or_exit_0: "or_exit L msg f k w = (0, w') \<longleftrightarrow> (\<exists>w1. f w = (None, w1) \<and> k w1 = (0, w'))"
  by (auto simp: or_exit_def split: prod.splits option.splits)

lemma or_exit_code: "fst (or_exit L msg f k w) \<in> {0, 1}" if "\<And>w. fst (k w) \<in> {0, 1}"
  using that by (auto simp: or_exit_def split: prod.splits option.splits)

text \<open>Exit code 0 means that every call succeeded, in the order of the source.\<close>

lemma manager_start_0:
  "manager_start L fl w = (0, w') \<longleftrightarrow>
     (\<exists>w1 w2 w3 w4 w5. GetConfig L (library_flags fl) w = (None, w1) \<and> NewManager L (manager_opts fl) w1 = (None, w2) \<and>
        SetupWithManager L w2 = (None, w3) \<and> AddHealthzCheck L ''healthz'' w3 = (None, w4) \<and>
        AddReadyzCheck L ''readyz'' w4 = (None, w5) \<and> StartManager L (log_Info L ''starting manager'' w5) = (None, w'))"
  by (auto simp: manager_start_def or_exit_0)

lemma manager_exit_code: "fst (manager_main L lib_flags args w) \<in> {0, 1, 2}"
proof -
  have "fst (manager_start L fl w) \<in> {0, 1}" for fl
    unfolding manager_start_def by (intro or_exit_code) simp
  then show ?thesis by (auto simp: manager_main_def split: flag_outcome.split)
qed

end
