(* ===== verification/Statctl_Console.thy ===== *)
theory Statctl_Console
  imports Prelude
begin

text \<open>
  The console mode of Windows (\<open>cmd/statctl/ansi_windows.go\<close>): before \<open>main\<close>, the bit of the virtual
  terminal is added to the mode of standard output, when there is one. The bit is a constant of
  \<open>golang.org/x/sys/windows\<close>, the two system calls are functions over a world.
\<close>

unbundle bit_operations_syntax

definition init_console ::
    "32 word \<Rightarrow> ('h \<Rightarrow> 'w \<Rightarrow> (string + 32 word) \<times> 'w) \<Rightarrow> ('h \<Rightarrow> 32 word \<Rightarrow> 'w \<Rightarrow> string option \<times> 'w) \<Rightarrow>
     'h \<Rightarrow> 'w \<Rightarrow> 'w" where
  "init_console vt GetConsoleMode SetConsoleMode handle w =
     (case GetConsoleMode handle w of
        (Inl err, w1) \<Rightarrow> w1
      | (Inr mode, w1) \<Rightarrow> snd (SetConsoleMode handle (mode OR vt) w1))"

text \<open>
  On a console that keeps the mode it is given, the bits of \<open>vt\<close> are set, no other bit changes, and
  a second run changes nothing.
\<close>

lemma console_mode:
  "init_console vt (\<lambda>h m. (Inr m, m)) (\<lambda>h m' m. (None, m')) h m AND vt = vt"
  "init_console vt (\<lambda>h m. (Inr m, m)) (\<lambda>h m' m. (None, m')) h m AND NOT vt = m AND NOT vt"
  "init_console vt (\<lambda>h m. (Inr m, m)) (\<lambda>h m' m. (None, m')) h (m OR vt) = m OR vt"
  unfolding init_console_def by (simp_all add: bit_eq_iff bit_simps) blast+

end
