(* ===== verification/Spec2Isabelle.thy ===== *)
theory Spec2Isabelle
  imports VirtualService_Props Analyzer_Props Reconciler_Runs Lifecycle Tracing Statctl_Props Statctl_Main_Props
    Deep_Copy_Props Demo_Main Progress_Demo Status_Types Status_Encoding Published Manager Statctl_Console
begin

text \<open>
  \<^bold>\<open>statgate\<close>: a Kubernetes controller for progressive delivery, with a command line client and
  a demo service.

  A \<open>CanaryRollout\<close> names a deployment, two services, an Istio VirtualService and a list of
  steps (a weight and a pause). In every cycle the controller (\<open>reconciler.go\<close>) reads one
  rollout, moves the traffic split of the VirtualService to the weight of the current step
  (\<open>virtualservice.go\<close>), evaluates Wald's sequential test on Prometheus counters
  (\<open>metrics_analyzer.go\<close>), and then waits, advances, promotes or rolls back, by one write of the
  status. It exports gauges (\<open>metrics.go\<close>). \<open>statctl\<close> edits and shows rollouts through the same
  API server; the demo service (\<open>demo/app\<close>) is the application whose counters are tested.

  \<^bold>\<open>Parts.\<close> The theories, in the order they build on each other, and the code they model:

  \<^item> \<open>Prelude\<close>: rewrite collections, \<open>int32\<close> and \<open>int64\<close> as words, the outcome of a function that
    may panic. \<open>Float64\<close> computes binary64 on integers, \<open>Float64_Real\<close> and \<open>Float64_Bounds\<close> give
    it its meaning over the reals; \<open>GoMath\<close> is \<open>math.Log\<close> by contract (the locales \<open>log_special\<close>
    and \<open>log_sound\<close>) with the portable algorithm and the correctly rounded logarithm as providers;
    \<open>GoStd\<close> and \<open>Durations\<close> are what is used of \<open>time\<close>, \<open>fmt\<close> and \<open>strconv\<close>.
  \<^item> \<open>Types\<close>: the structs and phases of \<open>api/v1alpha1/types.go\<close>. \<open>Env\<close>: the clients of Kubernetes
    and Prometheus, the \<open>unstructured\<close> helpers, the clock and \<open>math.Log\<close> as a record of functions
    over a world that every call may change; \<open>traced\<close> records the calls. \<open>Unstructured\<close>: the
    contract of the helpers (locale \<open>unstructured_api\<close>) and its interpretation.
  \<^item> \<open>Metrics\<close>, \<open>VirtualService\<close>, \<open>Analyzer\<close>, \<open>Reconciler\<close>: the four files of
    \<open>internal/controller\<close>, one definition per function and per section of a long function, each
    definition of \<open>Reconciler\<close> being the code from its section to the end of \<open>Reconcile\<close>.
    The gauges are an interpretation of the locale \<open>gauge_vector\<close>.
  \<^item> \<open>VirtualService_Props\<close>, \<open>Analyzer_Props\<close>: what the calls of one cycle achieve.
    \<open>Reconciler_Calls\<close> states the abstract machine of a rollout (\<open>cycle_step\<close>), that is which
    calls a cycle may make and which status it may write; it proves that every cycle, in every
    environment, is one of its steps. \<open>Reconciler_Props\<close> draws the safety properties from it,
    \<open>Reconciler_Runs\<close> computes cycles branch by branch, \<open>Lifecycle\<close> is the step relation of any
    number of cycles and edits with its invariants, \<open>Tracing\<close> shows that recording is harmless.
    \<open>Cluster\<close> is an environment in memory in which the concrete runs happen.
  \<^item> \<open>Progress\<close>, \<open>Progress_Runs\<close>, \<open>Progress_Demo\<close>: liveness. The locale \<open>healthy_world\<close> is a world in
    which the calls succeed, the pods are ready and every analysis is passed, with an invariant on
    the worlds so that the cluster of \<open>Cluster\<close> is an interpretation; in it every cycle goes on, and
    an infinite run in which time passes promotes the rollout step by step.
    \<open>Status_Types\<close> is the typing of the stored status and its preservation. \<open>Status_Encoding\<close> is what
    becomes of evidence that JSON cannot carry. \<open>Published\<close> relates the gauges to the status.
  \<^item> \<open>Manager\<close>: \<open>cmd/main.go\<close>, the command line and the calls that start the controller.
  \<^item> \<open>Statctl_Args\<close> (\<open>splitArgs\<close> of \<open>main.go\<close>, \<open>parse\<close> of \<open>client.go\<close>, and what is used of the
    \<open>flag\<close> package), \<open>Statctl_Commands\<close> (\<open>commands.go\<close>, \<open>newClient\<close>), \<open>Statctl_Render\<close>
    (\<open>render.go\<close>), \<open>Statctl_Main\<close> (\<open>watch.go\<close>, \<open>main.go\<close>). \<open>Statctl_Store\<close> states the contract of
    the API server's client (locale \<open>rollout_store\<close>, extended by \<open>quiet_store\<close>) and proves the
    effect of each command from it; \<open>Statctl_Effects\<close>, \<open>Statctl_Main_Props\<close> and \<open>Statctl_Props\<close>
    hold the properties, among them what the controller makes of an edit. \<open>Statctl_Console\<close> is
    \<open>ansi_windows.go\<close>.
  \<^item> \<open>Heap_Copy\<close>, \<open>Deep_Copy\<close>, \<open>Deep_Copy_Props\<close>: \<open>deepcopy.go\<close> and \<open>zz_generated.deepcopy.go\<close> on a
    heap of backing arrays and structs. The locale \<open>deep_copier\<close> is what a copy promises (equal
    content, only fresh memory, the original kept); each copy is an interpretation, from the
    leaves up to the list of rollouts.
  \<^item> \<open>Demo_Injector\<close>, \<open>Demo_Path\<close>, \<open>Demo_Service\<close>, \<open>Demo_Props\<close>: the configuration and the failure
    rate over time, the normalised path, the database layer, the handlers and the middleware. The locale
    \<open>counted_handler\<close> is what the middleware relies on; every handler is an interpretation, and a
    mux of such handlers is one. \<open>Demo_Routes\<close>: the patterns \<open>main\<close> registers and what is used of
    \<open>http.ServeMux\<close> to route a request. \<open>Demo_Main\<close>: the life of the service.

  \<^bold>\<open>State.\<close> The state of a cycle is the world with the gauges; the rollout itself lives in the
  API server, that is in the world. A Go error is a value of \<open>go_error\<close>, a function that can
  fail returns a sum, one that can panic an \<open>outcome\<close>. Instants are integers of nanoseconds,
  durations 64 bit words, so that products and differences wrap or saturate as in Go.

  \<^bold>\<open>Loops.\<close> Every loop of the sources runs over a list and is structural recursion, apart from
  a few: the loop over the segments of a path goes on with what follows the segment (a measure),
  the flags and the requests of a service are consumed from a list, the loop of \<open>NewDB\<close> counts down its five attempts, and the loop of \<open>watch\<close>, which may run
  for ever, consumes the list of what the ticker and the context deliver and returns \<open>None\<close>
  when the list ends before a cancellation. No fuel is used.

  \<^bold>\<open>Assumptions.\<close> Each floating-point operation rounds on its own, as on amd64; the Go
  specification lets other targets fuse a product with a sum. Strings are bytes; \<open>[]rune\<close> is
  modelled for valid UTF-8. The API server stores times in whole seconds; whether the
  \<open>lastTransitionTime\<close> that is read back is the one written is up to the environment, and no
  theorem relies on it. Where a theorem needs a law of code outside the repository, it is a
  hypothesis and the witness discharges it: \<open>log_sound\<close>, \<open>unstructured_api\<close>, \<open>rollout_store\<close>,
  \<open>quiet_store\<close>, \<open>healthy_world\<close> and \<open>good_run\<close> (a world that stays healthy, and time that passes),
  \<open>typed_env\<close> (Prometheus and \<open>math.Log\<close> answer with numbers), \<open>json_client\<close> (an infinite number
  cannot be sent), \<open>counted_handler\<close> for the metrics page, and for the deep copies that
  \<open>ObjectMeta\<close> and \<open>ListMeta\<close> are copied deeply. Requests of the demo service are handled one after
  the other; concurrent handlers share only the world and counters with atomic increments.

  \<^bold>\<open>Not modelled.\<close> The registration of types with the scheme (\<open>groupversion_info.go\<close> and the
  \<open>init\<close> functions of \<open>types.go\<close> and \<open>cmd/main.go\<close>) and of gauges and counters with Prometheus (the
  \<open>init\<close> functions of the two \<open>metrics.go\<close>), which are data for the libraries without a branch; the
  group, version and kind constants of \<open>virtualservice.go\<close>, which select the object the client reads;
  what the \<open>flag\<close> package itself prints to standard error; of \<open>net/http\<close> everything but the routing
  and the first status of an answer (the headers and the text of a redirect, the answer to
  \<open>OPTIONS *\<close>, which does not reach the service's handler); the SQL text; a label value that is not
  UTF-8, on which the Prometheus library panics; and the deployment files.
\<close>

end
